(* ===== verification/Nyauth_Prelude.thy ===== *)
theory Nyauth_Prelude
  imports Main "HOL-Library.List_Lexorder" "HOL-Library.Char_ord" "HOL-Library.Product_Lexorder"
begin

text \<open>
  Shared vocabulary of the development: the collections of simplification rules, the parts of
  Go's standard library that the sources call on strings (\<open>strings.TrimSpace\<close>,
  \<open>strings.Fields\<close>, \<open>strings.Join\<close>, \<open>strings.EqualFold\<close>,
  \<open>strings.HasPrefix\<close>, decimal parsing), and generic lemmas on lists.

  A Go string is a byte sequence, so it is a \<^typ>\<open>string\<close>, whose characters are 8 bits wide.
  Durations (\<open>time.Duration\<close>) are integers in nanoseconds. A \<open>time.Time\<close> is an integer in
  nanoseconds counted from Go's zero time, so that \<open>IsZero\<close> is equality with 0.
\<close>

named_theorems redis_simps \<open>observations of a Redis database after one command\<close>
named_theorems key_simps \<open>distinctness of keys with different prefixes\<close>

section \<open>Time\<close>

type_synonym duration = int
type_synonym gotime = int

definition Millisecond :: duration where "Millisecond = 1000000"
definition Second :: duration where "Second = 1000000000"
definition Minute :: duration where "Minute = 60 * Second"
definition Hour :: duration where "Hour = 60 * Minute"

text \<open>Nanoseconds from Go's zero time (1 January of year 1) to the Unix epoch.\<close>

definition unix_epoch :: gotime where "unix_epoch = 62135596800 * 1000000000"

definition UnixMilli :: "gotime \<Rightarrow> int" where
  "UnixMilli t = (t - unix_epoch) div 1000000"

definition Unix :: "gotime \<Rightarrow> int" where
  "Unix t = (t - unix_epoch) div 1000000000"

definition UnixMicro :: "int \<Rightarrow> gotime" where
  "UnixMicro us = us * 1000 + unix_epoch"

lemma UnixMicro_mono [simp]: "UnixMicro a \<le> UnixMicro b \<longleftrightarrow> a \<le> b"
  by (simp add: UnixMicro_def)

lemma UnixMicro_strict_mono [simp]: "UnixMicro a < UnixMicro b \<longleftrightarrow> a < b"
  by (simp add: UnixMicro_def)

section \<open>White space\<close>

text \<open>
  \<open>unicode.IsSpace\<close> on the UTF-8 bytes at the head of a string: the string after the white
  space rune it starts with, if it starts with one. The runes are U+0009 to U+000D, U+0020,
  U+0085, U+00A0, U+1680, U+2000 to U+200A, U+2028, U+2029, U+202F, U+205F and U+3000. No
  other rune contains the bytes of one of them, so a scan byte by byte finds the same runes.
\<close>

definition byte :: "char \<Rightarrow> nat" where "byte c = of_char c"

definition ascii_space :: "char \<Rightarrow> bool" where
  "ascii_space c \<longleftrightarrow> byte c = 32 \<or> (9 \<le> byte c \<and> byte c \<le> 13)"

definition space2 :: "char \<Rightarrow> char \<Rightarrow> bool" where
  "space2 a b \<longleftrightarrow> byte a = 0xC2 \<and> (byte b = 0x85 \<or> byte b = 0xA0)"

definition space3 :: "char \<Rightarrow> char \<Rightarrow> char \<Rightarrow> bool" where
  "space3 a b c \<longleftrightarrow>
     byte a = 0xE1 \<and> byte b = 0x9A \<and> byte c = 0x80 \<or>
     byte a = 0xE2 \<and> byte b = 0x80 \<and>
       (0x80 \<le> byte c \<and> byte c \<le> 0x8A \<or> byte c = 0xA8 \<or> byte c = 0xA9 \<or> byte c = 0xAF) \<or>
     byte a = 0xE2 \<and> byte b = 0x81 \<and> byte c = 0x9F \<or>
     byte a = 0xE3 \<and> byte b = 0x80 \<and> byte c = 0x80"

fun space_width :: "string \<Rightarrow> nat" where
  "space_width [] = 0"
| "space_width (a # s) =
     (if ascii_space a then 1
      else case s of
        [] \<Rightarrow> 0
      | b # s' \<Rightarrow>
          (if space2 a b then 2
           else case s' of
             [] \<Rightarrow> 0
           | c # _ \<Rightarrow> if space3 a b c then 3 else 0))"

text \<open>The same for the rune a string ends with; the argument is the reversed string.\<close>

fun rspace_width :: "string \<Rightarrow> nat" where
  "rspace_width [] = 0"
| "rspace_width (a # s) =
     (if ascii_space a then 1
      else case s of
        [] \<Rightarrow> 0
      | b # s' \<Rightarrow>
          (if space2 b a then 2
           else case s' of
             [] \<Rightarrow> 0
           | c # _ \<Rightarrow> if space3 c b a then 3 else 0))"

function skip_runes :: "(string \<Rightarrow> nat) \<Rightarrow> string \<Rightarrow> string" where
  "skip_runes w s = (if w s = 0 \<or> s = [] then s else skip_runes w (drop (w s) s))"
  by pat_completeness auto
termination
  by (relation "measure (\<lambda>(w, s). length s)") (auto simp: length_greater_0_conv)

declare skip_runes.simps [simp del]

definition TrimSpace :: "string \<Rightarrow> string" where
  "TrimSpace s = rev (skip_runes rspace_width (rev (skip_runes space_width s)))"

text \<open>\<open>strings.Fields\<close>: the maximal runs of bytes that are not white space, in order.\<close>

function fields_from :: "string \<Rightarrow> string \<Rightarrow> string list" where
  "fields_from cur s =
     (case s of
        [] \<Rightarrow> (if cur = [] then [] else [rev cur])
      | c # cs \<Rightarrow>
          (if space_width s = 0 then fields_from (c # cur) cs
           else (if cur = [] then [] else [rev cur]) @ fields_from [] (drop (space_width s) s)))"
  by pat_completeness auto
termination
  by (relation "measure (\<lambda>(cur, s). length s)") auto

declare fields_from.simps [simp del]

definition Fields :: "string \<Rightarrow> string list" where
  "Fields s = fields_from [] s"

fun Join :: "string list \<Rightarrow> string \<Rightarrow> string" where
  "Join [] sep = []"
| "Join [x] sep = x"
| "Join (x # y # xs) sep = x @ sep @ Join (y # xs) sep"


text \<open>
  \<open>strings.EqualFold\<close> against an ASCII string: the sources only fold against their own ASCII
  constants. Besides the ASCII letters, two runes fold to ASCII letters: U+212A (Kelvin sign,
  bytes E2 84 AA) to \<open>k\<close> and U+017F (long s, bytes C5 BF) to \<open>s\<close>.
\<close>

definition lower_byte :: "char \<Rightarrow> char" where
  "lower_byte c = (if 65 \<le> byte c \<and> byte c \<le> 90 then char_of (byte c + 32) else c)"

fun fold_ascii :: "string \<Rightarrow> string" where
  "fold_ascii [] = []"
| "fold_ascii (a # s) =
     (case s of
        b # c # s' \<Rightarrow>
          (if byte a = 0xE2 \<and> byte b = 0x84 \<and> byte c = 0xAA then CHR ''k'' # fold_ascii s'
           else if byte a = 0xC5 \<and> byte b = 0xBF then CHR ''s'' # fold_ascii (c # s')
           else lower_byte a # fold_ascii s)
      | [b] \<Rightarrow> (if byte a = 0xC5 \<and> byte b = 0xBF then ''s'' else lower_byte a # fold_ascii s)
      | [] \<Rightarrow> [lower_byte a])"

definition EqualFold :: "string \<Rightarrow> string \<Rightarrow> bool" where
  "EqualFold s t \<longleftrightarrow> fold_ascii s = fold_ascii t"

lemma byte_less: "byte c < 256"
  by (simp add: byte_def)

lemma EqualFold_refl [simp]: "EqualFold s s"
  by (simp add: EqualFold_def)

text \<open>
  For evaluation: ASCII bytes outside the range of \<open>@\<close> to \<open>_\<close> are their own folding, which two
  bits of the character decide.
\<close>

fun plain_char :: "char \<Rightarrow> bool" where
  "plain_char (Char b0 b1 b2 b3 b4 b5 b6 b7) = (if b7 then False else if b6 then b5 else True)"

lemma plain_char_bounds: "plain_char c \<Longrightarrow> byte c < 64 \<or> 96 \<le> byte c \<and> byte c < 128"
  by (cases c rule: plain_char.cases) (auto simp: byte_def of_char_def horner_sum_simps split: if_split_asm)

lemma lower_plain_char: "plain_char c \<Longrightarrow> lower_byte c = c"
  using plain_char_bounds [of c] by (auto simp: lower_byte_def)

lemma fold_plain_char: "plain_char a \<Longrightarrow> fold_ascii (a # s) = a # fold_ascii s"
  using plain_char_bounds [of a]
  by (subst fold_ascii.simps(2)) (auto simp del: fold_ascii.simps(2) simp: lower_plain_char split: list.split)

lemma fold_ascii_code [code]:
  "fold_ascii [] = []"
  "fold_ascii (a # s) = (if plain_char a then a # fold_ascii s else
     case s of
        b # c # s' \<Rightarrow>
          (if byte a = 0xE2 \<and> byte b = 0x84 \<and> byte c = 0xAA then CHR ''k'' # fold_ascii s'
           else if byte a = 0xC5 \<and> byte b = 0xBF then CHR ''s'' # fold_ascii (c # s')
           else lower_byte a # fold_ascii s)
      | [b] \<Rightarrow> (if byte a = 0xC5 \<and> byte b = 0xBF then ''s'' else lower_byte a # fold_ascii s)
      | [] \<Rightarrow> [lower_byte a])"
proof -
  show "fold_ascii (a # s) = (if plain_char a then a # fold_ascii s else
     case s of
        b # c # s' \<Rightarrow>
          (if byte a = 0xE2 \<and> byte b = 0x84 \<and> byte c = 0xAA then CHR ''k'' # fold_ascii s'
           else if byte a = 0xC5 \<and> byte b = 0xBF then CHR ''s'' # fold_ascii (c # s')
           else lower_byte a # fold_ascii s)
      | [b] \<Rightarrow> (if byte a = 0xC5 \<and> byte b = 0xBF then ''s'' else lower_byte a # fold_ascii s)
      | [] \<Rightarrow> [lower_byte a])"
  proof (cases "plain_char a")
    case True
    then show ?thesis by (simp only: fold_plain_char if_True)
  next
    case False
    then show ?thesis by (subst fold_ascii.simps(2)) (simp only: if_False)
  qed
qed simp

fun HasPrefix :: "string \<Rightarrow> string \<Rightarrow> bool" where
  "HasPrefix s [] = True"
| "HasPrefix [] (c # p) = False"
| "HasPrefix (d # s) (c # p) = (d = c \<and> HasPrefix s p)"

text \<open>
  \<open>strings.TrimRight(s, "/")\<close>.
\<close>

definition TrimRightSlash :: "string \<Rightarrow> string" where
  "TrimRightSlash s = rev (dropWhile (\<lambda>c. c = CHR ''/'') (rev s))"

section \<open>Tokens without white space\<close>

text \<open>A string none of whose bytes can start a white space rune.\<close>

definition graphic :: "string \<Rightarrow> bool" where
  "graphic s \<longleftrightarrow> s \<noteq> [] \<and> (\<forall>c \<in> set s. 0x20 < byte c \<and> byte c < 0x80)"

lemma space_width_graphic: "0x20 < byte c \<Longrightarrow> byte c < 0x80 \<Longrightarrow> space_width (c # s) = 0"
  by (auto simp: ascii_space_def space2_def space3_def split: list.splits)

lemma fields_from_token:
  "\<forall>c \<in> set t. 0x20 < byte c \<and> byte c < 0x80 \<Longrightarrow> fields_from cur (t @ s) = fields_from (rev t @ cur) s"
proof (induction t arbitrary: cur)
  case Nil
  then show ?case by simp
next
  case (Cons c t)
  then have w: "space_width (c # (t @ s)) = 0"
    using space_width_graphic [of c "t @ s"] by simp
  have "fields_from cur ((c # t) @ s) = fields_from (c # cur) (t @ s)"
    by (subst fields_from.simps) (simp add: w del: space_width.simps)
  with Cons show ?case by simp
qed

lemma fields_from_Nil: "fields_from cur [] = (if cur = [] then [] else [rev cur])"
  by (subst fields_from.simps) simp

lemma fields_from_blank:
  "cur \<noteq> [] \<Longrightarrow> fields_from cur (CHR '' '' # s) = rev cur # fields_from [] s"
  by (subst fields_from.simps) (simp add: ascii_space_def byte_def)

lemma Fields_Join: "\<forall>x \<in> set xs. graphic x \<Longrightarrow> Fields (Join xs '' '') = xs"
proof (induction xs rule: induct_list012)
  case 1
  show ?case by (simp add: Fields_def fields_from_Nil)
next
  case (2 x)
  then show ?case
    using fields_from_token [of x "[]" "[]"] by (simp add: Fields_def graphic_def fields_from_Nil)
next
  case (3 x y zs)
  then have x: "\<forall>c \<in> set x. 0x20 < byte c \<and> byte c < 0x80" "x \<noteq> []"
    and IH: "Fields (Join (y # zs) '' '') = y # zs"
    by (auto simp: graphic_def)
  have "Fields (Join (x # y # zs) '' '') = fields_from (rev x) ('' '' @ Join (y # zs) '' '')"
    using fields_from_token [OF x(1), of "[]" "'' '' @ Join (y # zs) '' ''"]
    by (simp add: Fields_def)
  also have "\<dots> = x # Fields (Join (y # zs) '' '')"
    using x(2) fields_from_blank [of "rev x"] by (simp add: Fields_def)
  finally show ?case by (simp add: IH)
qed

text \<open>Blanks around a graphic string are trimmed.\<close>

lemma rspace_width_graphic: "0x20 < byte c \<Longrightarrow> byte c < 0x80 \<Longrightarrow> rspace_width (c # s) = 0"
  by (auto simp: ascii_space_def space2_def space3_def split: list.splits)

lemma blank_widths: "space_width (CHR '' '' # s) = 1" "rspace_width (CHR '' '' # s) = 1"
  by (simp_all add: ascii_space_def byte_def)

lemma skip_runes_blanks:
  assumes "\<And>s. w (CHR '' '' # s) = 1" and "w s = 0"
  shows "skip_runes w (replicate n (CHR '' '') @ s) = s"
proof (induction n)
  case 0
  show ?case by (subst skip_runes.simps) (simp add: assms(2))
next
  case (Suc n)
  then show ?case by (subst skip_runes.simps) (simp add: assms(1))
qed

lemma TrimSpace_padded:
  assumes "graphic s"
  shows "TrimSpace (replicate m (CHR '' '') @ s @ replicate n (CHR '' '')) = s"
proof -
  obtain c t where c: "s = c # t" "0x20 < byte c" "byte c < 0x80" using assms by (cases s) (auto simp: graphic_def)
  obtain d u where d: "rev s = d # u" "0x20 < byte d" "byte d < 0x80"
    using assms by (cases "rev s") (auto simp: graphic_def dest: arg_cong [where f = set])
  have "skip_runes space_width (replicate m (CHR '' '') @ s @ replicate n (CHR '' '')) = s @ replicate n (CHR '' '')"
    by (rule skip_runes_blanks [where w = space_width, OF blank_widths(1)]) (use space_width_graphic [OF c(2,3)] in \<open>simp add: c(1) del: space_width.simps\<close>)
  moreover have "skip_runes rspace_width (replicate n (CHR '' '') @ rev s) = rev s"
    by (rule skip_runes_blanks [where w = rspace_width, OF blank_widths(2)]) (use rspace_width_graphic [OF d(2,3)] in \<open>simp add: d(1) del: rspace_width.simps\<close>)
  ultimately show ?thesis by (simp add: TrimSpace_def)
qed

section \<open>Folds over lists\<close>

lemma fold_invariant_on:
  "P s \<Longrightarrow> (\<And>x s. x \<in> set xs \<Longrightarrow> P s \<Longrightarrow> P (f x s)) \<Longrightarrow> P (fold f xs s)"
  by (induction xs arbitrary: s) auto

lemma fold_unchanged:
  "(\<And>x s. x \<in> set xs \<Longrightarrow> g (f x s) = g s) \<Longrightarrow> g (fold f xs s) = g s"
  by (induction xs arbitrary: s) auto

lemma in_set_drop_not_take: "x \<in> set xs \<Longrightarrow> x \<notin> set (take n xs) \<Longrightarrow> x \<in> set (drop n xs)"
  by (metis Un_iff append_take_drop_id set_append)

lemma sorted_append_less:
  fixes ys :: "'a::linorder list"
  shows "distinct (ys @ zs) \<Longrightarrow> sorted (ys @ zs) \<Longrightarrow> a \<in> set ys \<Longrightarrow> b \<in> set zs \<Longrightarrow> a < b"
  by (auto simp: sorted_append less_le)

lemma sorted_take_drop_less:
  fixes xs :: "'a::linorder list"
  assumes "distinct xs" and "sorted xs" and "a \<in> set (take n xs)" and "b \<in> set (drop n xs)"
  shows "a < b"
  using sorted_append_less [of "take n xs" "drop n xs"] assms by simp

section \<open>Sequencing operations that may fail\<close>

text \<open>
  Go's \<open>x, err := f(...); if err != nil { return err }\<close> on operations that pass a state and
  return an error (\<^const>\<open>Inl\<close>) or a result: the second operation runs on the state of the
  first, if the first succeeds.
\<close>

definition and_then :: "'s \<times> ('e + 'a) \<Rightarrow> ('s \<Rightarrow> 'a \<Rightarrow> 's \<times> ('e + 'b)) \<Rightarrow> 's \<times> ('e + 'b)" where
  "and_then m f = (case m of (s, Inl e) \<Rightarrow> (s, Inl e) | (s, Inr x) \<Rightarrow> f s x)"

lemma and_then_simps [simp]:
  "and_then (s, Inl e) f = (s, Inl e)"
  "and_then (s, Inr x) f = f s x"
  by (simp_all add: and_then_def)

lemma and_then_Inr:
  "and_then m f = (s', Inr y) \<longleftrightarrow> (\<exists>s x. m = (s, Inr x) \<and> f s x = (s', Inr y))"
  by (cases m; cases "snd m") auto

lemma fst_and_thenI:
  "P (fst m) \<Longrightarrow> (\<And>x. snd m = Inr x \<Longrightarrow> P (fst (f (fst m) x))) \<Longrightarrow> P (fst (and_then m f))"
  by (cases m; cases "snd m") auto

text \<open>A computation on the result alone.\<close>

definition on_result :: "('a \<Rightarrow> 'e + 'b) \<Rightarrow> 's \<times> ('e + 'a) \<Rightarrow> 's \<times> ('e + 'b)" where
  "on_result g m = (fst m, case snd m of Inl e \<Rightarrow> Inl e | Inr x \<Rightarrow> g x)"

lemma fst_on_result [simp]: "fst (on_result g m) = fst m"
  by (simp add: on_result_def)

lemma on_result_Inr: "on_result g m = (s', Inr y) \<longleftrightarrow> (\<exists>x. m = (s', Inr x) \<and> g x = Inr y)"
  by (cases m; cases "snd m") (auto simp: on_result_def)

lemma on_result_simps [simp]:
  "on_result g (s, Inl e) = (s, Inl e)"
  "on_result g (s, Inr x) = (s, g x)"
  by (simp_all add: on_result_def)

end
