(* ===== verification/Oauth_Models.thy ===== *)
theory Oauth_Models
  imports Nyauth_Prelude
begin

text \<open>
  The persistent models of \<open>pkg/models\<close>: the registered OAuth client
  (\<open>pkg/models/client.go\<close>), the user (\<open>pkg/models/user.go\<close>), the recorded authorization
  (\<open>pkg/models/authorization.go\<close>), and the predicates the client type offers. A pointer field
  is an option, a nil slice that the code distinguishes from an empty one is \<^const>\<open>None\<close>. A
  \<open>uuid.UUID\<close> is its canonical text, so that \<open>ID.String()\<close> is the identity.
\<close>

type_synonym uuid = string

record oauth_client =
  oc_ID :: string
  oc_SecretHash :: "string option"
  oc_SecretHint :: "string option"
  oc_SecretVersion :: int
  oc_SecretRotatedAt :: "gotime option"
  oc_SecretLastUsedAt :: "gotime option"
  oc_Name :: string
  oc_HomepageURI :: string
  oc_PrivacyPolicyURI :: string
  oc_TermsOfServiceURI :: string
  oc_CurrentLogoID :: "string option"
  oc_IdentityRevision :: int
  oc_AuthorizationRevision :: int
  oc_RedirectURIs :: "string list"
  oc_PostLogoutRedirectURIs :: "string list"
  oc_Grants :: "string list"
  oc_Scopes :: "string list"
  oc_OptionalScopes :: "string list"
  oc_AllowedClaims :: "string list option"
  oc_IsPublic :: bool
  oc_AccessPolicy :: string
  oc_OwnerID :: "string option"
  oc_PublisherType :: string
  oc_PublisherVerification :: string

definition ClientAccessOpen :: string where "ClientAccessOpen = ''open''"
definition ClientAccessAdminsOnly :: string where "ClientAccessAdminsOnly = ''admins_only''"
definition ClientAccessAllowlist :: string where "ClientAccessAllowlist = ''allowlist''"

definition ValidClientAccessPolicy :: "string \<Rightarrow> bool" where
  "ValidClientAccessPolicy policy \<longleftrightarrow>
     policy = ClientAccessOpen \<or> policy = ClientAccessAdminsOnly \<or> policy = ClientAccessAllowlist"

definition GrantAuthorizationCode :: string where
  "GrantAuthorizationCode = ''authorization_code''"
definition GrantDeviceCode :: string where
  "GrantDeviceCode = ''urn:ietf:params:oauth:grant-type:device_code''"
definition GrantClientCredentials :: string where
  "GrantClientCredentials = ''client_credentials''"
definition GrantRefreshToken :: string where
  "GrantRefreshToken = ''refresh_token''"

lemmas grant_defs = GrantAuthorizationCode_def GrantDeviceCode_def GrantClientCredentials_def
  GrantRefreshToken_def

fun equal_fold_any :: "string list \<Rightarrow> string \<Rightarrow> bool" where
  "equal_fold_any [] target = False"
| "equal_fold_any (g # gs) target = (if EqualFold g target then True else equal_fold_any gs target)"

definition HasGrant :: "oauth_client \<Rightarrow> string \<Rightarrow> bool" where
  "HasGrant c grant = equal_fold_any (oc_Grants c) grant"

definition HasScope :: "oauth_client \<Rightarrow> string \<Rightarrow> bool" where
  "HasScope c scope = equal_fold_any (oc_Scopes c) scope"

fun valid_scope_bytes :: "string \<Rightarrow> bool" where
  "valid_scope_bytes [] = True"
| "valid_scope_bytes (value # rest) =
     (if byte value < 0x21 \<or> byte value > 0x7e \<or> byte value = 0x22 \<or> byte value = 0x5c then False
      else valid_scope_bytes rest)"

definition ValidOAuthScope :: "string \<Rightarrow> bool" where
  "ValidOAuthScope scope = (if scope = [] then False else valid_scope_bytes scope)"

fun contains_uri :: "string list \<Rightarrow> string \<Rightarrow> bool" where
  "contains_uri [] uri = False"
| "contains_uri (u # us) uri = (if u = uri then True else contains_uri us uri)"

definition HasRedirectURI :: "oauth_client \<Rightarrow> string \<Rightarrow> bool" where
  "HasRedirectURI c uri = contains_uri (oc_RedirectURIs c) uri"

definition HasPostLogoutRedirectURI :: "oauth_client \<Rightarrow> string \<Rightarrow> bool" where
  "HasPostLogoutRedirectURI c uri = contains_uri (oc_PostLogoutRedirectURIs c) uri"

definition UserStatusActive :: string where "UserStatusActive = ''active''"
definition UserStatusSuspended :: string where "UserStatusSuspended = ''suspended''"
definition UserStatusPending :: string where "UserStatusPending = ''pending''"

record user =
  us_ID :: uuid
  us_Username :: string
  us_Email :: "string option"
  us_EmailVerifiedAt :: "gotime option"
  us_PasswordHash :: "string option"
  us_PasswordChangedAt :: "gotime option"
  us_DisplayName :: "string option"
  us_AvatarURL :: "string option"
  us_Status :: string
  us_Role :: string
  us_AuthVersion :: int
  us_SessionVersion :: int
  us_MustChangePassword :: bool
  us_LoginMFAEnabled :: bool
  us_LastAuthenticatedAt :: "gotime option"
  us_LastLoginAt :: "gotime option"

lemma contains_uri_iff [simp]: "contains_uri us uri \<longleftrightarrow> uri \<in> set us"
  by (induction us) auto

lemma equal_fold_any_iff [simp]: "equal_fold_any gs t \<longleftrightarrow> (\<exists>g \<in> set gs. EqualFold g t)"
  by (induction gs) auto

lemma valid_scope_bytes_iff [simp]:
  "valid_scope_bytes s \<longleftrightarrow>
     (\<forall>c \<in> set s. 0x21 \<le> byte c \<and> byte c \<le> 0x7e \<and> byte c \<noteq> 0x22 \<and> byte c \<noteq> 0x5c)"
  by (induction s) auto

lemma ValidOAuthScope_graphic: "ValidOAuthScope s \<Longrightarrow> graphic s"
  by (auto simp: ValidOAuthScope_def graphic_def split: if_splits)

end
