(* ===== verification/Stored_Values.thy ===== *)
theory Stored_Values
  imports Nyauth_Prelude
begin

text \<open>
  What the program keeps in Redis: the records of \<open>internal/session/store.go\<close>,
  \<open>oauth_reauthentication.go\<close>, \<open>mfa_pending.go\<close>, \<open>webauthn_ceremony.go\<close> and
  \<open>internal/deviceauthorization/store.go\<close>, and the sum type of the documents under one key.

  A record is stored as the JSON document \<open>encoding/json\<close> writes for it. The model stores the
  document as the record that decoding gives back: \<open>json_\<dots>\<close> below is the change that a
  write followed by a read makes, which is that an empty slice of an \<open>omitempty\<close> field comes
  back nil. Two documents are equal texts exactly when these records are equal, which is what the
  scripts' comparisons \<open>current ~= expected\<close> need. \<open>int64\<close> fields are integers: they
  hold versions, revisions and clock readings far below the width's limit.
\<close>

type_synonym claim_map = "(string \<times> string list) list option"

record authorization_data =
  ad_RecordVersion :: string
  ad_ClientID :: string
  ad_UserID :: string
  ad_RedirectURI :: string
  ad_Scopes :: "string list"
  ad_AllowedClaims :: "string list option"
  ad_ClaimNamesSet :: bool
  ad_CodeChallenge :: string
  ad_ChallengeMethod :: string
  ad_Nonce :: string
  ad_AuthVersion :: int
  ad_AuthenticationContext :: string
  ad_AuthenticationMethods :: "string list"
  ad_AuthenticationTime :: int
  ad_AuthorizationIssuedAt :: int
  ad_ClientAuthorizationRevision :: int

record token_data =
  td_ClientID :: string
  td_UserID :: string
  td_Scopes :: "string list"
  td_AllowedClaims :: "string list option"
  td_ClaimNamesSet :: bool
  td_TokenUse :: string
  td_AuthVersion :: int
  td_AuthenticationContext :: string
  td_AuthenticationMethods :: "string list"
  td_AuthenticationTime :: int
  td_FamilyID :: string
  td_FamilyKey :: string
  td_UserKey :: string
  td_AuthorizationIssuedAt :: int
  td_ClientAuthorizationRevision :: int

record session_data =
  sd_PublicID :: string
  sd_UserID :: string
  sd_Username :: string
  sd_AuthVersion :: int
  sd_SessionVersion :: int
  sd_CSRFToken :: string
  sd_UserKey :: string
  sd_IPAddress :: string
  sd_UserAgent :: string
  sd_CreatedAt :: gotime
  sd_CreatedAtUnixMilli :: int
  sd_LastSeenAt :: gotime
  sd_AuthenticatedAt :: gotime
  sd_AuthenticationContext :: string
  sd_AuthenticationMethods :: "string list"
  sd_PolicyRevision :: int

record consent_scope_details =
  sc_DisplayName :: string
  sc_Description :: string
  sc_RiskLevel :: string

record consent_data =
  cd_Flow :: string
  cd_ClientID :: string
  cd_UserID :: string
  cd_RedirectURI :: string
  cd_Scopes :: "string list"
  cd_OptionalScopes :: "string list"
  cd_ScopeClaims :: claim_map
  cd_ScopeDetails :: "(string \<times> consent_scope_details) list"
  cd_State :: string
  cd_CodeChallenge :: string
  cd_ChallengeMethod :: string
  cd_Nonce :: string
  cd_AuthVersion :: int
  cd_ClientIdentityRevision :: int
  cd_ClientAuthorizationRevision :: int
  cd_RequiredAuthContext :: string
  cd_MaxAgeSeconds :: "int option"
  cd_MaxAgeSatisfied :: bool
  cd_DeviceID :: string
  cd_DeviceRecordVersion :: string

record reauthentication_data =
  rd_RequestURI :: string
  rd_CreatedAt :: gotime

record mfa_pending_data =
  mp_UserID :: string
  mp_Username :: string
  mp_AuthVersion :: int
  mp_SessionVersion :: int
  mp_Purpose :: string
  mp_RequiredAuthContext :: string
  mp_AuthenticationMethods :: "string list"
  mp_PrimaryMethod :: string
  mp_Provider :: string
  mp_SessionDigest :: string
  mp_ReturnTo :: string
  mp_CSRFToken :: string
  mp_CreatedAt :: gotime
  mp_ExpiresAt :: gotime

record webauthn_ceremony_data =
  wc_SessionData :: "string"
  wc_Purpose :: string
  wc_UserID :: string
  wc_Username :: string
  wc_AuthVersion :: int
  wc_SessionVersion :: int
  wc_SessionDigest :: string
  wc_ParentDigest :: string
  wc_CredentialName :: string
  wc_ReturnTo :: string
  wc_CreatedAt :: gotime
  wc_ExpiresAt :: gotime

record device_record =
  dr_RecordVersion :: string
  dr_DeviceID :: string
  dr_UserCodeDigest :: string
  dr_ClientID :: string
  dr_Scopes :: "string list"
  dr_OptionalScopes :: "string list"
  dr_ScopeClaims :: claim_map
  dr_ClientIdentityRevision :: int
  dr_ClientAuthorizationRevision :: int
  dr_Status :: string
  dr_CreatedAtUnixMilli :: int
  dr_ExpiresAtUnixMilli :: int
  dr_IntervalSeconds :: int
  dr_NextPollAtUnixMilli :: int
  dr_UserID :: string
  dr_AuthVersion :: int
  dr_GrantedScopes :: "string list"
  dr_AllowedClaims :: "string list"
  dr_AuthorizationIssuedAt :: int
  dr_AuthenticationContext :: string
  dr_AuthenticationMethods :: "string list"
  dr_AuthenticationTime :: int

text \<open>The documents under a string key: one constructor per record, texts and counters.\<close>

datatype rvalue =
    VCode authorization_data
  | VToken token_data
  | VSession session_data
  | VConsent consent_data
  | VReauth reauthentication_data
  | VMfa mfa_pending_data
  | VCeremony webauthn_ceremony_data
  | VDevice device_record
  | VCsrf "(string \<times> string) list"
  | VText string
  | VNum int

definition omit_empty :: "'a list option \<Rightarrow> 'a list option" where
  "omit_empty xs = (if xs = Some [] then None else xs)"

definition json_code :: "authorization_data \<Rightarrow> authorization_data" where
  "json_code d = d\<lparr>ad_AllowedClaims := omit_empty (ad_AllowedClaims d)\<rparr>"

definition json_token :: "token_data \<Rightarrow> token_data" where
  "json_token d = d\<lparr>td_AllowedClaims := omit_empty (td_AllowedClaims d)\<rparr>"

definition json_device :: "device_record \<Rightarrow> device_record" where
  "json_device d = d\<lparr>dr_ScopeClaims := omit_empty (dr_ScopeClaims d)\<rparr>"

text \<open>\<open>cjson.decode\<close> and \<open>json.Unmarshal\<close> into the record a caller expects.\<close>

fun decode_code :: "rvalue \<Rightarrow> authorization_data option" where
  "decode_code (VCode d) = Some d" | "decode_code _ = None"

fun decode_token :: "rvalue \<Rightarrow> token_data option" where
  "decode_token (VToken d) = Some d" | "decode_token _ = None"

fun decode_session :: "rvalue \<Rightarrow> session_data option" where
  "decode_session (VSession d) = Some d" | "decode_session _ = None"

fun decode_consent :: "rvalue \<Rightarrow> consent_data option" where
  "decode_consent (VConsent d) = Some d" | "decode_consent _ = None"

fun decode_reauth :: "rvalue \<Rightarrow> reauthentication_data option" where
  "decode_reauth (VReauth d) = Some d" | "decode_reauth _ = None"

fun decode_mfa :: "rvalue \<Rightarrow> mfa_pending_data option" where
  "decode_mfa (VMfa d) = Some d" | "decode_mfa _ = None"

fun decode_ceremony :: "rvalue \<Rightarrow> webauthn_ceremony_data option" where
  "decode_ceremony (VCeremony d) = Some d" | "decode_ceremony _ = None"

fun decode_device :: "rvalue \<Rightarrow> device_record option" where
  "decode_device (VDevice d) = Some d" | "decode_device _ = None"

fun decode_csrf :: "rvalue \<Rightarrow> (string \<times> string) list option" where
  "decode_csrf (VCsrf d) = Some d" | "decode_csrf _ = None"

fun decode_text :: "rvalue \<Rightarrow> string option" where
  "decode_text (VText d) = Some d" | "decode_text _ = None"

fun decode_num :: "rvalue \<Rightarrow> int option" where
  "decode_num (VNum d) = Some d" | "decode_num _ = None"

lemma decode_SomeD [dest!]:
  "decode_code v = Some c \<Longrightarrow> v = VCode c"
  "decode_token v = Some t \<Longrightarrow> v = VToken t"
  "decode_session v = Some s \<Longrightarrow> v = VSession s"
  "decode_consent v = Some k \<Longrightarrow> v = VConsent k"
  "decode_reauth v = Some r \<Longrightarrow> v = VReauth r"
  "decode_mfa v = Some m \<Longrightarrow> v = VMfa m"
  "decode_ceremony v = Some w \<Longrightarrow> v = VCeremony w"
  "decode_device v = Some d \<Longrightarrow> v = VDevice d"
  "decode_text v = Some x \<Longrightarrow> v = VText x"
  "decode_num v = Some n \<Longrightarrow> v = VNum n"
  by (cases v; simp)+

lemma omit_empty_idem [simp]: "omit_empty (omit_empty xs) = omit_empty xs"
  by (simp add: omit_empty_def)

lemma json_idem [simp]:
  "json_code (json_code c) = json_code c"
  "json_token (json_token t) = json_token t"
  "json_device (json_device d) = json_device d"
  by (simp_all add: json_code_def json_token_def json_device_def)

lemma json_token_simps [simp]:
  "td_ClientID (json_token t) = td_ClientID t"
  "td_UserID (json_token t) = td_UserID t"
  "td_Scopes (json_token t) = td_Scopes t"
  "td_AllowedClaims (json_token t) = omit_empty (td_AllowedClaims t)"
  "td_ClaimNamesSet (json_token t) = td_ClaimNamesSet t"
  "td_TokenUse (json_token t) = td_TokenUse t"
  "td_AuthVersion (json_token t) = td_AuthVersion t"
  "td_AuthenticationContext (json_token t) = td_AuthenticationContext t"
  "td_AuthenticationMethods (json_token t) = td_AuthenticationMethods t"
  "td_AuthenticationTime (json_token t) = td_AuthenticationTime t"
  "td_FamilyID (json_token t) = td_FamilyID t"
  "td_FamilyKey (json_token t) = td_FamilyKey t"
  "td_UserKey (json_token t) = td_UserKey t"
  "td_AuthorizationIssuedAt (json_token t) = td_AuthorizationIssuedAt t"
  "td_ClientAuthorizationRevision (json_token t) = td_ClientAuthorizationRevision t"
  by (simp_all add: json_token_def)

end
