(* ===== verification/Redis_Api.thy ===== *)
theory Redis_Api
  imports Stored_Values
begin

text \<open>
  Redis is a service outside the repository, so it is a parameter of every definition that uses
  it: a record of the commands the sources send. What the sources rely on is the documented
  effect of each command on what later commands observe; the locale \<open>redis_server\<close> states it
  as one law per command over the view of a database. \<open>mem_redis\<close> is a server that satisfies
  the laws: an in-memory keyspace with expiry and a schedule of network faults.

  A command of the wrong type for its key is an error in Redis. The laws of \<open>SADD\<close> and
  \<open>ZADD\<close> therefore speak of keys that hold no value of another type, and \<open>GET\<close> and
  \<open>SMEMBERS\<close> of a key of another type count as empty.
\<close>

section \<open>Commands\<close>

text \<open>\<open>SET\<close> takes the time to live in milliseconds, 0 for a key that does not expire;
  \<open>SETKEEP\<close> is \<open>SET \<dots> KEEPTTL\<close>; the sorted set commands keep integer scores.\<close>

text \<open>What happens to one round trip of the client: it is answered, the request is lost, or the
  request is executed and the answer is lost.\<close>

datatype delivery = Delivered | Request_lost | Reply_lost

record 'db redis =
  GET :: "'db \<Rightarrow> string \<Rightarrow> rvalue option"
  SET :: "'db \<Rightarrow> string \<Rightarrow> rvalue \<Rightarrow> int \<Rightarrow> 'db"
  SETKEEP :: "'db \<Rightarrow> string \<Rightarrow> rvalue \<Rightarrow> 'db"
  DEL :: "'db \<Rightarrow> string \<Rightarrow> 'db"
  EXISTS :: "'db \<Rightarrow> string \<Rightarrow> bool"
  SADD :: "'db \<Rightarrow> string \<Rightarrow> string \<Rightarrow> 'db"
  SREM :: "'db \<Rightarrow> string \<Rightarrow> string \<Rightarrow> 'db"
  SMEMBERS :: "'db \<Rightarrow> string \<Rightarrow> string list"
  PEXPIRE :: "'db \<Rightarrow> string \<Rightarrow> int \<Rightarrow> 'db"
  PTTL :: "'db \<Rightarrow> string \<Rightarrow> int"
  ZADD :: "'db \<Rightarrow> string \<Rightarrow> int \<Rightarrow> string \<Rightarrow> 'db"
  ZREM :: "'db \<Rightarrow> string \<Rightarrow> string \<Rightarrow> 'db"
  ZSCORE :: "'db \<Rightarrow> string \<Rightarrow> string \<Rightarrow> int option"
  ZREMRANGEBYSCORE :: "'db \<Rightarrow> string \<Rightarrow> int \<Rightarrow> 'db"
  ZCARD :: "'db \<Rightarrow> string \<Rightarrow> int"
  INCR :: "'db \<Rightarrow> string \<Rightarrow> 'db"
  TIME :: "'db \<Rightarrow> int \<times> int"
  LINK :: "'db \<Rightarrow> delivery \<times> 'db"

text \<open>\<open>SCARD\<close>, \<open>GETDEL\<close> and a \<open>DEL\<close> of several keys in terms of the commands above.\<close>

definition SCARD :: "'db redis \<Rightarrow> 'db \<Rightarrow> string \<Rightarrow> int" where
  "SCARD R db k = int (length (SMEMBERS R db k))"

definition GETDEL :: "'db redis \<Rightarrow> 'db \<Rightarrow> string \<Rightarrow> 'db \<times> rvalue option" where
  "GETDEL R db k = (DEL R db k, GET R db k)"

definition del_all :: "'db redis \<Rightarrow> 'db \<Rightarrow> string list \<Rightarrow> 'db" where
  "del_all R db ks = fold (\<lambda>k d. DEL R d k) ks db"

text \<open>The Lua idiom \<open>if redis.call("SCARD", k) == 0 then redis.call("DEL", k) end\<close>.\<close>

definition del_if_empty :: "'db redis \<Rightarrow> 'db \<Rightarrow> string \<Rightarrow> 'db" where
  "del_if_empty R db k = (if SCARD R db k = 0 then DEL R db k else db)"

text \<open>The idiom that only lengthens a key's remaining time to live.\<close>

definition raise_ttl :: "'db redis \<Rightarrow> 'db \<Rightarrow> string \<Rightarrow> int \<Rightarrow> 'db" where
  "raise_ttl R db k ms = (if PTTL R db k < ms then PEXPIRE R db k ms else db)"

text \<open>
  One round trip: a command, a pipeline executed as a transaction or a script. Scripts are
  atomic, so \<open>f\<close> runs on one database state; before it runs, the link decides the fate of the
  request and time may pass. A script may itself answer with an error.
\<close>

fun deliver :: "'e \<Rightarrow> ('db \<Rightarrow> 'db \<times> ('e + 'a)) \<Rightarrow> delivery \<times> 'db \<Rightarrow> 'db \<times> ('e + 'a)" where
  "deliver e f (Delivered, db) = f db"
| "deliver e f (Request_lost, db) = (db, Inl e)"
| "deliver e f (Reply_lost, db) = (fst (f db), Inl e)"

definition call ::
    "'db redis \<Rightarrow> 'e \<Rightarrow> 'db \<Rightarrow> ('db \<Rightarrow> 'db \<times> ('e + 'a)) \<Rightarrow> 'db \<times> ('e + 'a)" where
  "call R e db f = deliver e f (LINK R db)"

lemma call_split:
  "call R e db f =
     (case LINK R db of
        (Delivered, db1) \<Rightarrow> f db1
      | (Request_lost, db1) \<Rightarrow> (db1, Inl e)
      | (Reply_lost, db1) \<Rightarrow> (fst (f db1), Inl e))"
  by (auto simp: call_def split: prod.splits delivery.splits)

text \<open>A pipeline executed as a transaction, answered with a result the client already knows.\<close>

definition committed :: "('db \<Rightarrow> 'db) \<Rightarrow> 'a \<Rightarrow> 'db \<Rightarrow> 'db \<times> ('e + 'a)" where
  [simp]: "committed f r db = (f db, Inr r)"

section \<open>The view of a database and the laws\<close>

record rview =
  strs :: "string \<Rightarrow> rvalue option"
  sets :: "string \<Rightarrow> string set"
  zsets :: "string \<Rightarrow> string \<Rightarrow> int option"
  ttls :: "string \<Rightarrow> int"
  clock :: "int \<times> int"

definition view :: "'db redis \<Rightarrow> 'db \<Rightarrow> rview" where
  "view R db = \<lparr>strs = GET R db, sets = (\<lambda>k. set (SMEMBERS R db k)), zsets = ZSCORE R db,
                ttls = PTTL R db, clock = TIME R db\<rparr>"

abbreviation no_value :: "rview \<Rightarrow> string \<Rightarrow> bool" where
  "no_value v k \<equiv> strs v k = None \<and> sets v k = {} \<and> zsets v k = Map.empty"

text \<open>
  The passing of \<open>el\<close> milliseconds: keys whose time to live has run out are gone, the others
  keep their values. The server's wall clock is not constrained: it may also step backwards.
\<close>

definition aged_key :: "int \<Rightarrow> string \<Rightarrow> rview \<Rightarrow> rview \<Rightarrow> bool" where
  "aged_key el k v v' \<longleftrightarrow>
     (if 0 \<le> ttls v k \<and> ttls v k < el then no_value v' k \<and> ttls v' k = -2
      else strs v' k = strs v k \<and> sets v' k = sets v k \<and> zsets v' k = zsets v k \<and>
           ttls v' k = (if ttls v k < 0 then ttls v k else ttls v k - el))"

definition aged :: "int \<Rightarrow> rview \<Rightarrow> rview \<Rightarrow> bool" where
  "aged el v v' \<longleftrightarrow> 0 \<le> el \<and> (\<forall>k. aged_key el k v v')"

locale redis_server =
  fixes R :: "'db redis"
  assumes view_SET: "0 \<le> ms \<Longrightarrow> view R (SET R db k v ms) =
      (view R db)\<lparr>strs := (strs (view R db))(k \<mapsto> v), sets := (sets (view R db))(k := {}),
                  zsets := (zsets (view R db))(k := Map.empty),
                  ttls := (ttls (view R db))(k := (if ms = 0 then -1 else ms))\<rparr>"
    and view_SETKEEP: "view R (SETKEEP R db k v) =
      (view R db)\<lparr>strs := (strs (view R db))(k \<mapsto> v), sets := (sets (view R db))(k := {}),
                  zsets := (zsets (view R db))(k := Map.empty),
                  ttls := (ttls (view R db))(k := (if PTTL R db k = -2 then -1 else PTTL R db k))\<rparr>"
    and view_DEL: "view R (DEL R db k) =
      (view R db)\<lparr>strs := (strs (view R db))(k := None), sets := (sets (view R db))(k := {}),
                  zsets := (zsets (view R db))(k := Map.empty), ttls := (ttls (view R db))(k := -2)\<rparr>"
    and view_SADD: "GET R db k = None \<Longrightarrow> ZSCORE R db k = Map.empty \<Longrightarrow> view R (SADD R db k m) =
      (view R db)\<lparr>sets := (sets (view R db))(k := insert m (sets (view R db) k)),
                  ttls := (ttls (view R db))(k := (if SMEMBERS R db k = [] then -1 else PTTL R db k))\<rparr>"
    and view_SREM: "view R (SREM R db k m) =
      (view R db)\<lparr>sets := (sets (view R db))(k := sets (view R db) k - {m}),
                  ttls := (ttls (view R db))(k := (if sets (view R db) k = {m} then -2 else PTTL R db k))\<rparr>"
    and view_PEXPIRE: "0 < ms \<Longrightarrow> view R (PEXPIRE R db k ms) =
      (view R db)\<lparr>ttls := (ttls (view R db))(k := (if PTTL R db k = -2 then -2 else ms))\<rparr>"
    and view_ZADD: "GET R db k = None \<Longrightarrow> SMEMBERS R db k = [] \<Longrightarrow> view R (ZADD R db k s m) =
      (view R db)\<lparr>zsets := (zsets (view R db))(k := (ZSCORE R db k)(m \<mapsto> s)),
                  ttls := (ttls (view R db))(k := (if ZSCORE R db k = Map.empty then -1 else PTTL R db k))\<rparr>"
    and view_ZREM: "view R (ZREM R db k m) =
      (view R db)\<lparr>zsets := (zsets (view R db))(k := (ZSCORE R db k)(m := None)),
                  ttls := (ttls (view R db))(k := (if dom (ZSCORE R db k) = {m} then -2 else PTTL R db k))\<rparr>"
    and view_ZREMRANGEBYSCORE: "view R (ZREMRANGEBYSCORE R db k s) =
      (view R db)\<lparr>zsets := (zsets (view R db))
                     (k := (\<lambda>m. case ZSCORE R db k m of None \<Rightarrow> None
                                | Some x \<Rightarrow> if x \<le> s then None else Some x)),
                  ttls := (ttls (view R db))
                     (k := (if ZSCORE R db k \<noteq> Map.empty \<and> (\<forall>x \<in> ran (ZSCORE R db k). x \<le> s)
                            then -2 else PTTL R db k))\<rparr>"
    and view_INCR: "SMEMBERS R db k = [] \<Longrightarrow> ZSCORE R db k = Map.empty \<Longrightarrow>
      GET R db k = None \<or> GET R db k = Some (VNum n) \<Longrightarrow> view R (INCR R db k) =
      (view R db)\<lparr>strs := (strs (view R db))
                     (k \<mapsto> VNum (if GET R db k = None then 1 else n + 1)),
                  ttls := (ttls (view R db))(k := (if GET R db k = None then -1 else PTTL R db k))\<rparr>"
    and view_LINK: "\<exists>el. aged el (view R db) (view R (snd (LINK R db)))"
    and EXISTS_iff: "EXISTS R db k \<longleftrightarrow> \<not> no_value (view R db) k"
    and distinct_SMEMBERS: "distinct (SMEMBERS R db k)"
    and ZCARD_eq: "ZCARD R db k = int (card (dom (ZSCORE R db k)))"


abbreviation members :: "'db redis \<Rightarrow> 'db \<Rightarrow> string \<Rightarrow> string set" where
  "members R db k \<equiv> set (SMEMBERS R db k)"

lemma obs_view:
  "GET R db k = strs (view R db) k"
  "members R db k = sets (view R db) k"
  "ZSCORE R db k = zsets (view R db) k"
  "PTTL R db k = ttls (view R db) k"
  "TIME R db = clock (view R db)"
  by (simp_all add: view_def)

lemma SMEMBERS_Nil_view: "SMEMBERS R db k = [] \<longleftrightarrow> sets (view R db) k = {}"
  by (simp add: view_def)

lemmas to_view = obs_view SMEMBERS_Nil_view

context redis_server
begin

lemma SET_obs [redis_simps]:
  assumes "0 \<le> ms"
  shows "GET R (SET R db k v ms) j = (if j = k then Some v else GET R db j)"
    and "members R (SET R db k v ms) j = (if j = k then {} else members R db j)"
    and "ZSCORE R (SET R db k v ms) j = (if j = k then Map.empty else ZSCORE R db j)"
    and "PTTL R (SET R db k v ms) j = (if j = k then (if ms = 0 then -1 else ms) else PTTL R db j)"
    and "TIME R (SET R db k v ms) = TIME R db"
  using view_SET [OF assms, of db k v] by (simp_all add: to_view)

lemma SETKEEP_obs [redis_simps]:
  "GET R (SETKEEP R db k v) j = (if j = k then Some v else GET R db j)"
  "members R (SETKEEP R db k v) j = (if j = k then {} else members R db j)"
  "ZSCORE R (SETKEEP R db k v) j = (if j = k then Map.empty else ZSCORE R db j)"
  "PTTL R (SETKEEP R db k v) j =
     (if j = k then (if PTTL R db k = -2 then -1 else PTTL R db k) else PTTL R db j)"
  "TIME R (SETKEEP R db k v) = TIME R db"
  using view_SETKEEP [of db k v] by (simp_all add: to_view)

lemma DEL_obs [redis_simps]:
  "GET R (DEL R db k) j = (if j = k then None else GET R db j)"
  "members R (DEL R db k) j = (if j = k then {} else members R db j)"
  "ZSCORE R (DEL R db k) j = (if j = k then Map.empty else ZSCORE R db j)"
  "PTTL R (DEL R db k) j = (if j = k then -2 else PTTL R db j)"
  "TIME R (DEL R db k) = TIME R db"
  using view_DEL [of db k] by (simp_all add: to_view)

lemma SADD_obs [redis_simps]:
  assumes "GET R db k = None" and "ZSCORE R db k = Map.empty"
  shows "GET R (SADD R db k m) j = GET R db j"
    and "members R (SADD R db k m) j = (if j = k then insert m (members R db k) else members R db j)"
    and "ZSCORE R (SADD R db k m) j = ZSCORE R db j"
    and "PTTL R (SADD R db k m) j =
      (if j = k then (if members R db k = {} then -1 else PTTL R db k) else PTTL R db j)"
    and "TIME R (SADD R db k m) = TIME R db"
  using view_SADD [OF assms, of m] by (simp_all add: to_view)

lemma SREM_obs [redis_simps]:
  "GET R (SREM R db k m) j = GET R db j"
  "members R (SREM R db k m) j = (if j = k then members R db k - {m} else members R db j)"
  "ZSCORE R (SREM R db k m) j = ZSCORE R db j"
  "PTTL R (SREM R db k m) j =
     (if j = k then (if members R db k = {m} then -2 else PTTL R db k) else PTTL R db j)"
  "TIME R (SREM R db k m) = TIME R db"
  using view_SREM [of db k m] by (simp_all add: to_view)

lemma PEXPIRE_obs [redis_simps]:
  assumes "0 < ms"
  shows "GET R (PEXPIRE R db k ms) j = GET R db j"
    and "members R (PEXPIRE R db k ms) j = members R db j"
    and "ZSCORE R (PEXPIRE R db k ms) j = ZSCORE R db j"
    and "PTTL R (PEXPIRE R db k ms) j =
      (if j = k then (if PTTL R db k = -2 then -2 else ms) else PTTL R db j)"
    and "TIME R (PEXPIRE R db k ms) = TIME R db"
  using view_PEXPIRE [OF assms, of db k] by (simp_all add: to_view)

lemma ZADD_obs [redis_simps]:
  assumes "GET R db k = None" and "SMEMBERS R db k = []"
  shows "GET R (ZADD R db k s m) j = GET R db j"
    and "members R (ZADD R db k s m) j = members R db j"
    and "ZSCORE R (ZADD R db k s m) j = (if j = k then (ZSCORE R db k)(m \<mapsto> s) else ZSCORE R db j)"
    and "PTTL R (ZADD R db k s m) j =
      (if j = k then (if ZSCORE R db k = Map.empty then -1 else PTTL R db k) else PTTL R db j)"
    and "TIME R (ZADD R db k s m) = TIME R db"
  using view_ZADD [OF assms, of s m] by (simp_all add: to_view)

lemma ZREM_obs [redis_simps]:
  "GET R (ZREM R db k m) j = GET R db j"
  "members R (ZREM R db k m) j = members R db j"
  "ZSCORE R (ZREM R db k m) j = (if j = k then (ZSCORE R db k)(m := None) else ZSCORE R db j)"
  "TIME R (ZREM R db k m) = TIME R db"
  using view_ZREM [of db k m] by (simp_all add: to_view)

lemma PTTL_ZREM [redis_simps]: "j \<noteq> k \<Longrightarrow> PTTL R (ZREM R db k m) j = PTTL R db j"
  using view_ZREM [of db k m] by (simp add: to_view)

lemma ZREMRANGEBYSCORE_obs [redis_simps]:
  "GET R (ZREMRANGEBYSCORE R db k s) j = GET R db j"
  "members R (ZREMRANGEBYSCORE R db k s) j = members R db j"
  "ZSCORE R (ZREMRANGEBYSCORE R db k s) j =
     (if j = k then (\<lambda>m. case ZSCORE R db k m of None \<Rightarrow> None | Some x \<Rightarrow> if x \<le> s then None else Some x)
      else ZSCORE R db j)"
  "TIME R (ZREMRANGEBYSCORE R db k s) = TIME R db"
  using view_ZREMRANGEBYSCORE [of db k s] by (simp_all add: to_view)

lemma PTTL_ZREMRANGEBYSCORE [redis_simps]:
  "j \<noteq> k \<Longrightarrow> PTTL R (ZREMRANGEBYSCORE R db k s) j = PTTL R db j"
  using view_ZREMRANGEBYSCORE [of db k s] by (simp add: to_view)

lemma INCR_obs:
  assumes "SMEMBERS R db k = []" and "ZSCORE R db k = Map.empty"
    and "GET R db k = None \<or> GET R db k = Some (VNum n)"
  shows "GET R (INCR R db k) j =
      (if j = k then Some (VNum (if GET R db k = None then 1 else n + 1)) else GET R db j)"
    and "members R (INCR R db k) j = members R db j"
    and "ZSCORE R (INCR R db k) j = ZSCORE R db j"
    and "PTTL R (INCR R db k) j =
      (if j = k then (if GET R db k = None then -1 else PTTL R db k) else PTTL R db j)"
    and "TIME R (INCR R db k) = TIME R db"
  using view_INCR [OF assms] by (simp_all add: to_view)

lemma EXISTS_obs [redis_simps]:
  "EXISTS R db k \<longleftrightarrow> \<not> (GET R db k = None \<and> members R db k = {} \<and> ZSCORE R db k = Map.empty)"
  using EXISTS_iff [of db k] by (simp add: to_view)

lemma del_all_obs [redis_simps]:
  "GET R (del_all R db ks) j = (if j \<in> set ks then None else GET R db j)"
  "members R (del_all R db ks) j = (if j \<in> set ks then {} else members R db j)"
  "ZSCORE R (del_all R db ks) j = (if j \<in> set ks then Map.empty else ZSCORE R db j)"
  "PTTL R (del_all R db ks) j = (if j \<in> set ks then -2 else PTTL R db j)"
  "TIME R (del_all R db ks) = TIME R db"
  unfolding del_all_def by (induction ks arbitrary: db) (auto simp: redis_simps)

lemma SCARD_0 [redis_simps]: "SCARD R db k = 0 \<longleftrightarrow> members R db k = {}"
  by (simp add: SCARD_def)

lemma SCARD_eq: "SCARD R db k = int (card (members R db k))"
  using distinct_SMEMBERS [of db k] by (simp add: SCARD_def distinct_card)

text \<open>Deleting an empty set is not observable on a key that holds nothing else.\<close>

lemma del_if_empty_obs [redis_simps]:
  "GET R (del_if_empty R db k) j = (if j = k \<and> members R db k = {} then None else GET R db j)"
  "members R (del_if_empty R db k) j = members R db j"
  "ZSCORE R (del_if_empty R db k) j =
     (if j = k \<and> members R db k = {} then Map.empty else ZSCORE R db j)"
  "TIME R (del_if_empty R db k) = TIME R db"
  by (auto simp: del_if_empty_def redis_simps)

lemma PTTL_del_if_empty [redis_simps]:
  "PTTL R (del_if_empty R db k) j = (if j = k \<and> members R db k = {} then -2 else PTTL R db j)"
  by (auto simp: del_if_empty_def redis_simps)

lemma raise_ttl_obs [redis_simps]:
  assumes "0 < ms"
  shows "GET R (raise_ttl R db k ms) j = GET R db j"
    and "members R (raise_ttl R db k ms) j = members R db j"
    and "ZSCORE R (raise_ttl R db k ms) j = ZSCORE R db j"
    and "PTTL R (raise_ttl R db k ms) j =
      (if j = k \<and> PTTL R db k < ms then (if PTTL R db k = -2 then -2 else ms) else PTTL R db j)"
    and "TIME R (raise_ttl R db k ms) = TIME R db"
  using assms by (auto simp: raise_ttl_def redis_simps)

text \<open>What a round trip leaves of a key before the script runs: the same value, or nothing.\<close>

lemma LINK_GET: "GET R (snd (LINK R db)) k = GET R db k \<or> GET R (snd (LINK R db)) k = None"
  using view_LINK [of db] by (auto simp: aged_def aged_key_def to_view split: if_splits dest!: spec [of _ k])

lemma LINK_GET_Some: "GET R (snd (LINK R db)) k = Some v \<Longrightarrow> GET R db k = Some v"
  using LINK_GET [of db k] by simp

lemma LINK_members: "members R (snd (LINK R db)) k = members R db k \<or> members R (snd (LINK R db)) k = {}"
  using view_LINK [of db] by (auto simp: aged_def aged_key_def to_view split: if_splits dest!: spec [of _ k])

lemma LINK_ZSCORE: "ZSCORE R (snd (LINK R db)) k = ZSCORE R db k \<or> ZSCORE R (snd (LINK R db)) k = Map.empty"
  using view_LINK [of db] by (auto simp: aged_def aged_key_def to_view split: if_splits dest!: spec [of _ k])

end

text \<open>
  A round trip that answers ran its script on the state after the link; one that fails ran it
  there or not at all.
\<close>

lemma call_cases:
  obtains (answered) "call R e db f = f (snd (LINK R db))"
  | (lost) "call R e db f = (snd (LINK R db), Inl e)"
  | (unanswered) "call R e db f = (fst (f (snd (LINK R db))), Inl e)"
  by (cases "LINK R db"; cases "fst (LINK R db)") (auto simp: call_split split: prod.splits)

lemma call_Inr:
  "call R e db f = (db', Inr r) \<Longrightarrow>
     f (snd (LINK R db)) = (db', Inr r) \<and> fst (LINK R db) = Delivered"
  by (auto simp: call_split split: prod.splits delivery.splits)

lemma fst_call: "fst (call R e db f) = snd (LINK R db) \<or> fst (call R e db f) = fst (f (snd (LINK R db)))"
  by (auto simp: call_split split: prod.splits delivery.splits)

lemma fst_callI:
  "P (snd (LINK R db)) \<Longrightarrow> P (fst (f (snd (LINK R db)))) \<Longrightarrow> P (fst (call R e db f))"
  using fst_call [of R e db f] by auto

lemma snd_call_Inr:
  "snd (call R e db f) = Inr r \<Longrightarrow> call R e db f = f (snd (LINK R db))"
  by (auto simp: call_split split: prod.splits delivery.splits)

end
