(* ===== verification/Redis_Mem.thy ===== *)
theory Redis_Mem
  imports Redis_Api
begin

text \<open>
  A server that satisfies the laws of \<open>redis_server\<close>: an in-memory keyspace with sets, sorted
  sets, times to live and a wall clock, behind a link whose faults and delays follow a schedule.
  The witnesses of the properties run the model on it.
\<close>

record mem_entry =
  e_str :: "rvalue option"
  e_set :: "string list"
  e_zset :: "(string \<times> int) list"
  e_ttl :: int

record mem_db =
  m_keys :: "(string \<times> mem_entry) list"
  m_clock :: "int \<times> int"
  m_schedule :: "(delivery \<times> int \<times> (int \<times> int)) list"

definition no_entry :: mem_entry where
  "no_entry = \<lparr>e_str = None, e_set = [], e_zset = [], e_ttl = -2\<rparr>"

definition mem_empty :: mem_db where
  "mem_empty = \<lparr>m_keys = [], m_clock = (0, 0), m_schedule = []\<rparr>"

definition entry :: "mem_db \<Rightarrow> string \<Rightarrow> mem_entry" where
  "entry db k = (case map_of (m_keys db) k of None \<Rightarrow> no_entry | Some e \<Rightarrow> e)"

definition put :: "mem_db \<Rightarrow> string \<Rightarrow> mem_entry \<Rightarrow> mem_db" where
  "put db k e = db\<lparr>m_keys := (k, e) # filter (\<lambda>(x, _). x \<noteq> k) (m_keys db)\<rparr>"

definition m_str :: "mem_db \<Rightarrow> string \<Rightarrow> rvalue option" where "m_str db k = e_str (entry db k)"
definition m_set :: "mem_db \<Rightarrow> string \<Rightarrow> string list" where "m_set db k = e_set (entry db k)"
definition m_zset :: "mem_db \<Rightarrow> string \<Rightarrow> (string \<times> int) list" where "m_zset db k = e_zset (entry db k)"
definition m_ttl :: "mem_db \<Rightarrow> string \<Rightarrow> int" where "m_ttl db k = e_ttl (entry db k)"

lemma entry_put [simp]: "entry (put db k e) j = (if j = k then e else entry db j)"
proof -
  have "map_of (filter (\<lambda>(x, _). x \<noteq> k) kv) j = (if j = k then None else map_of kv j)" for kv :: "(string \<times> mem_entry) list"
    by (induction kv) auto
  then show ?thesis by (simp add: entry_def put_def)
qed

lemma put_rest [simp]: "m_clock (put db k e) = m_clock db" "m_schedule (put db k e) = m_schedule db"
  by (simp_all add: put_def)

lemma m_put [simp]:
  "m_str (put db k e) = (m_str db)(k := e_str e)" "m_set (put db k e) = (m_set db)(k := e_set e)"
  "m_zset (put db k e) = (m_zset db)(k := e_zset e)" "m_ttl (put db k e) = (m_ttl db)(k := e_ttl e)"
  by (simp_all add: fun_eq_iff m_str_def m_set_def m_zset_def m_ttl_def)

lemma e_entry [simp]:
  "e_str (entry db k) = m_str db k" "e_set (entry db k) = m_set db k"
  "e_zset (entry db k) = m_zset db k" "e_ttl (entry db k) = m_ttl db k"
  by (simp_all add: m_str_def m_set_def m_zset_def m_ttl_def)

lemma mem_empty_obs [simp]:
  "m_str mem_empty k = None" "m_set mem_empty k = []" "m_zset mem_empty k = []" "m_ttl mem_empty k = -2"
  by (simp_all add: m_str_def m_set_def m_zset_def m_ttl_def entry_def mem_empty_def no_entry_def)

definition z_del :: "string \<Rightarrow> (string \<times> int) list \<Rightarrow> (string \<times> int) list" where
  "z_del m z = filter (\<lambda>(x, _). x \<noteq> m) z"

definition z_put :: "string \<Rightarrow> int \<Rightarrow> (string \<times> int) list \<Rightarrow> (string \<times> int) list" where
  "z_put m s z = (m, s) # z_del m z"

definition z_keys :: "(string \<times> int) list \<Rightarrow> string list" where
  "z_keys z = remdups (map fst z)"

definition mem_set :: "mem_db \<Rightarrow> string \<Rightarrow> rvalue \<Rightarrow> int \<Rightarrow> mem_db" where
  "mem_set db k v ms = put db k \<lparr>e_str = Some v, e_set = [], e_zset = [], e_ttl = ms\<rparr>"

definition mem_del :: "mem_db \<Rightarrow> string \<Rightarrow> mem_db" where
  "mem_del db k = put db k no_entry"

definition age_entry :: "int \<Rightarrow> mem_entry \<Rightarrow> mem_entry" where
  "age_entry el e =
     (if 0 \<le> e_ttl e \<and> e_ttl e < el then no_entry
      else e\<lparr>e_ttl := (if e_ttl e < 0 then e_ttl e else e_ttl e - el)\<rparr>)"

definition mem_age :: "int \<Rightarrow> mem_db \<Rightarrow> mem_db" where
  "mem_age el db = db\<lparr>m_keys := map (\<lambda>(k, e). (k, age_entry el e)) (m_keys db)\<rparr>"

definition mem_link :: "mem_db \<Rightarrow> delivery \<times> mem_db" where
  "mem_link db = (case m_schedule db of
     [] \<Rightarrow> (Delivered, db)
   | (d, el, c) # rest \<Rightarrow> (d, (mem_age (max 0 el) db)\<lparr>m_clock := c, m_schedule := rest\<rparr>))"

definition mem_sadd :: "mem_db \<Rightarrow> string \<Rightarrow> string \<Rightarrow> mem_db" where
  "mem_sadd db k m = put db k ((entry db k)\<lparr>e_set := List.insert m (m_set db k),
     e_ttl := (if m_set db k = [] then -1 else m_ttl db k)\<rparr>)"

definition mem_srem :: "mem_db \<Rightarrow> string \<Rightarrow> string \<Rightarrow> mem_db" where
  "mem_srem db k m = put db k ((entry db k)\<lparr>e_set := removeAll m (m_set db k),
     e_ttl := (if m_set db k \<noteq> [] \<and> removeAll m (m_set db k) = [] then -2 else m_ttl db k)\<rparr>)"

definition mem_pexpire :: "mem_db \<Rightarrow> string \<Rightarrow> int \<Rightarrow> mem_db" where
  "mem_pexpire db k ms = put db k ((entry db k)\<lparr>e_ttl := (if m_ttl db k = -2 then -2 else ms)\<rparr>)"

definition mem_zadd :: "mem_db \<Rightarrow> string \<Rightarrow> int \<Rightarrow> string \<Rightarrow> mem_db" where
  "mem_zadd db k s m = put db k ((entry db k)\<lparr>e_zset := z_put m s (m_zset db k),
     e_ttl := (if m_zset db k = [] then -1 else m_ttl db k)\<rparr>)"

definition mem_zkeep :: "mem_db \<Rightarrow> string \<Rightarrow> (string \<times> int) list \<Rightarrow> mem_db" where
  "mem_zkeep db k z = put db k ((entry db k)\<lparr>e_zset := z,
     e_ttl := (if m_zset db k \<noteq> [] \<and> z = [] then -2 else m_ttl db k)\<rparr>)"

definition z_above :: "int \<Rightarrow> (string \<times> int) list \<Rightarrow> (string \<times> int) list" where
  "z_above s z = filter (\<lambda>(m, x). map_of z m = Some x \<and> s < x) z"

definition mem_incr :: "mem_db \<Rightarrow> string \<Rightarrow> mem_db" where
  "mem_incr db k = put db k ((entry db k)\<lparr>
     e_str := Some (VNum (case m_str db k of Some (VNum n) \<Rightarrow> n + 1 | _ \<Rightarrow> 1)),
     e_ttl := (if m_str db k = None then -1 else m_ttl db k)\<rparr>)"

definition mem_put :: "mem_db \<Rightarrow> string \<Rightarrow> rvalue \<Rightarrow> int \<Rightarrow> mem_db" where
  "mem_put db k v ms = mem_set db k v (if ms = 0 then -1 else ms)"

definition mem_put_keep :: "mem_db \<Rightarrow> string \<Rightarrow> rvalue \<Rightarrow> mem_db" where
  "mem_put_keep db k v = mem_set db k v (if m_ttl db k = -2 then -1 else m_ttl db k)"

definition mem_exists :: "mem_db \<Rightarrow> string \<Rightarrow> bool" where
  "mem_exists db k \<longleftrightarrow> m_str db k \<noteq> None \<or> m_set db k \<noteq> [] \<or> m_zset db k \<noteq> []"

definition mem_members :: "mem_db \<Rightarrow> string \<Rightarrow> string list" where
  "mem_members db k = remdups (m_set db k)"

definition mem_zrem :: "mem_db \<Rightarrow> string \<Rightarrow> string \<Rightarrow> mem_db" where
  "mem_zrem db k m = mem_zkeep db k (z_del m (m_zset db k))"

definition mem_zscore :: "mem_db \<Rightarrow> string \<Rightarrow> string \<Rightarrow> int option" where
  "mem_zscore db k = map_of (m_zset db k)"

definition mem_ztrim :: "mem_db \<Rightarrow> string \<Rightarrow> int \<Rightarrow> mem_db" where
  "mem_ztrim db k s = mem_zkeep db k (z_above s (m_zset db k))"

definition mem_zcard :: "mem_db \<Rightarrow> string \<Rightarrow> int" where
  "mem_zcard db k = int (length (z_keys (m_zset db k)))"

definition mem_redis :: "mem_db redis" where
  "mem_redis = \<lparr>
     GET = m_str, SET = mem_put, SETKEEP = mem_put_keep, DEL = mem_del, EXISTS = mem_exists,
     SADD = mem_sadd, SREM = mem_srem, SMEMBERS = mem_members, PEXPIRE = mem_pexpire, PTTL = m_ttl,
     ZADD = mem_zadd, ZREM = mem_zrem, ZSCORE = mem_zscore, ZREMRANGEBYSCORE = mem_ztrim,
     ZCARD = mem_zcard, INCR = mem_incr, TIME = m_clock, LINK = mem_link\<rparr>"

lemma mem_ops [simp]:
  "GET mem_redis = m_str"
  "SET mem_redis db k v ms = mem_set db k v (if ms = 0 then -1 else ms)"
  "SETKEEP mem_redis db k v = mem_set db k v (if m_ttl db k = -2 then -1 else m_ttl db k)"
  "DEL mem_redis = mem_del"
  "EXISTS mem_redis db k \<longleftrightarrow> m_str db k \<noteq> None \<or> m_set db k \<noteq> [] \<or> m_zset db k \<noteq> []"
  "SADD mem_redis = mem_sadd"
  "SREM mem_redis = mem_srem"
  "SMEMBERS mem_redis db k = remdups (m_set db k)"
  "PEXPIRE mem_redis = mem_pexpire"
  "PTTL mem_redis = m_ttl"
  "ZADD mem_redis = mem_zadd"
  "ZREM mem_redis db k m = mem_zkeep db k (z_del m (m_zset db k))"
  "ZSCORE mem_redis db k = map_of (m_zset db k)"
  "ZREMRANGEBYSCORE mem_redis db k s = mem_zkeep db k (z_above s (m_zset db k))"
  "ZCARD mem_redis db k = int (length (z_keys (m_zset db k)))"
  "INCR mem_redis = mem_incr"
  "TIME mem_redis = m_clock"
  "LINK mem_redis = mem_link"
  by (simp_all add: mem_redis_def mem_put_def mem_put_keep_def mem_exists_def mem_members_def mem_zrem_def
      mem_zscore_def mem_ztrim_def mem_zcard_def)

lemma map_of_z_del: "map_of (z_del m z) = (map_of z)(m := None)"
  by (induction z) (auto simp: z_del_def)

lemma map_of_empty_iff [simp]: "map_of z = Map.empty \<longleftrightarrow> z = []"
  by (cases z) (auto simp: fun_eq_iff split: if_splits)

lemma map_of_all_None [simp]: "(\<forall>x. map_of z x = None) \<longleftrightarrow> z = []"
  using map_of_empty_iff [of z] by (simp add: fun_eq_iff)

lemma z_del_Nil_iff: "dom (map_of z) = {m} \<longleftrightarrow> z \<noteq> [] \<and> z_del m z = []"
proof -
  have "z_del m z = [] \<longleftrightarrow> fst ` set z \<subseteq> {m}"
    by (auto simp: z_del_def filter_empty_conv)
  also have "\<dots> \<longleftrightarrow> fst ` set z = {} \<or> fst ` set z = {m}"
    by (rule subset_singleton_iff)
  finally show ?thesis by (auto simp: dom_map_of_conv_image_fst)
qed

lemma z_del_NilD: "z_del m z = [] \<Longrightarrow> x \<noteq> m \<Longrightarrow> map_of z x = None"
  using map_of_z_del [of m z] by (auto dest: fun_cong [of _ _ x])

lemma map_of_z_above:
  "map_of (z_above s z) m = (case map_of z m of None \<Rightarrow> None | Some x \<Rightarrow> if x \<le> s then None else Some x)"
proof (cases "map_of z m")
  case None
  then have "m \<notin> fst ` set z" by (simp add: map_of_eq_None_iff)
  then have "m \<notin> fst ` set (z_above s z)" by (auto simp: z_above_def)
  then have "map_of (z_above s z) m = None" by (simp add: map_of_eq_None_iff)
  with None show ?thesis by simp
next
  case (Some x)
  have only: "y = x \<and> s < x" if "(m, y) \<in> set (z_above s z)" for y
    using that Some by (auto simp: z_above_def)
  show ?thesis
  proof (cases "s < x")
    case True
    then have "(m, x) \<in> set (z_above s z)"
      using Some by (auto simp: z_above_def dest: map_of_SomeD)
    then obtain y where "map_of (z_above s z) m = Some y"
      by (metis map_of_eq_None_iff fst_conv image_eqI not_None_eq)
    with only [of y] show ?thesis using Some True by (auto dest: map_of_SomeD)
  next
    case False
    then have "map_of (z_above s z) m = None"
      using only by (auto simp: map_of_eq_None_iff)
    with Some False show ?thesis by simp
  qed
qed

lemma z_above_Nil_iff:
  "z_above s z = [] \<longleftrightarrow> (\<forall>x \<in> ran (map_of z). x \<le> s)"
  by (auto simp: z_above_def filter_empty_conv ran_def not_less dest: map_of_SomeD)

lemma mem_view: "view mem_redis db = \<lparr>strs = m_str db, sets = (\<lambda>k. set (m_set db k)),
    zsets = (\<lambda>k. map_of (m_zset db k)), ttls = m_ttl db, clock = m_clock db\<rparr>"
  by (simp add: view_def fun_eq_iff)

lemma entry_age: "entry (mem_age el db) k = age_entry el (entry db k)"
proof -
  have "map_of (map (\<lambda>(k, e). (k, age_entry el e)) kv) k = map_option (age_entry el) (map_of kv k)" for kv
    by (induction kv) auto
  then show ?thesis
    by (auto simp: entry_def mem_age_def age_entry_def no_entry_def split: option.splits)
qed

lemma mem_age_obs:
  assumes "d = (mem_age el db)\<lparr>m_clock := c, m_schedule := s\<rparr>"
  shows "m_str d k = (if 0 \<le> m_ttl db k \<and> m_ttl db k < el then None else m_str db k)"
    and "m_set d k = (if 0 \<le> m_ttl db k \<and> m_ttl db k < el then [] else m_set db k)"
    and "m_zset d k = (if 0 \<le> m_ttl db k \<and> m_ttl db k < el then [] else m_zset db k)"
    and "m_ttl d k = (if 0 \<le> m_ttl db k \<and> m_ttl db k < el then -2
      else if m_ttl db k < 0 then m_ttl db k else m_ttl db k - el)"
proof -
  have "entry d k = age_entry el (entry db k)" using entry_age [of el db k] by (simp add: assms entry_def)
  then show "m_str d k = (if 0 \<le> m_ttl db k \<and> m_ttl db k < el then None else m_str db k)"
    and "m_set d k = (if 0 \<le> m_ttl db k \<and> m_ttl db k < el then [] else m_set db k)"
    and "m_zset d k = (if 0 \<le> m_ttl db k \<and> m_ttl db k < el then [] else m_zset db k)"
    and "m_ttl d k = (if 0 \<le> m_ttl db k \<and> m_ttl db k < el then -2
      else if m_ttl db k < 0 then m_ttl db k else m_ttl db k - el)"
    by (simp_all add: m_str_def m_set_def m_zset_def m_ttl_def age_entry_def no_entry_def del: e_entry)
qed

lemma mem_aged: "0 \<le> el \<Longrightarrow> aged el (view mem_redis db)
    (view mem_redis ((mem_age el db)\<lparr>m_clock := c, m_schedule := s\<rparr>))"
  by (simp add: aged_def aged_key_def mem_view mem_age_obs [OF refl])

lemma mem_link_aged: "\<exists>el. aged el (view mem_redis db) (view mem_redis (snd (mem_link db)))"
proof (cases "m_schedule db")
  case Nil
  then have "aged 0 (view mem_redis db) (view mem_redis (snd (mem_link db)))"
    by (auto simp: aged_def aged_key_def mem_view mem_link_def)
  then show ?thesis ..
next
  case (Cons e rest)
  obtain d el c where e: "e = (d, el, c)" by (cases e)
  show ?thesis
    using mem_aged [of "max 0 el" db rest c] by (auto simp: mem_link_def Cons e)
qed

lemma removeAll_Nil_iff: "xs \<noteq> [] \<and> removeAll m xs = [] \<longleftrightarrow> set xs = {m}"
  by (cases xs) (auto simp: removeAll_filter_not_eq filter_empty_conv split: if_splits)

interpretation mem: redis_server mem_redis
proof unfold_locales
  fix db :: mem_db and k m :: string and s ms n :: int and v :: rvalue
  let ?V = "view mem_redis db"
  show "view mem_redis (ZREM mem_redis db k m) =
      ?V\<lparr>zsets := (zsets ?V)(k := (ZSCORE mem_redis db k)(m := None)),
         ttls := (ttls ?V)(k := (if dom (ZSCORE mem_redis db k) = {m} then -2 else PTTL mem_redis db k))\<rparr>"
    by (simp add: mem_view mem_zkeep_def map_of_z_del z_del_Nil_iff fun_eq_iff)
       (metis z_del_NilD)
  show "view mem_redis (ZREMRANGEBYSCORE mem_redis db k s) =
      ?V\<lparr>zsets := (zsets ?V)
           (k := (\<lambda>m. case ZSCORE mem_redis db k m of None \<Rightarrow> None | Some x \<Rightarrow> if x \<le> s then None else Some x)),
         ttls := (ttls ?V)
           (k := (if ZSCORE mem_redis db k \<noteq> Map.empty \<and> (\<forall>x \<in> ran (ZSCORE mem_redis db k). x \<le> s)
                  then -2 else PTTL mem_redis db k))\<rparr>"
    by (auto simp: mem_view mem_zkeep_def map_of_z_above z_above_Nil_iff fun_eq_iff)
  show "view mem_redis (SREM mem_redis db k m) =
      ?V\<lparr>sets := (sets ?V)(k := sets ?V k - {m}),
         ttls := (ttls ?V)(k := (if sets ?V k = {m} then -2 else PTTL mem_redis db k))\<rparr>"
    using removeAll_Nil_iff [of "m_set db k" m] by (auto simp: mem_view mem_srem_def fun_eq_iff)
  show "ZCARD mem_redis db k = int (card (dom (ZSCORE mem_redis db k)))"
    by (simp add: z_keys_def dom_map_of_conv_image_fst card_set length_remdups_card_conv)
qed (auto simp: mem_view mem_set_def mem_del_def no_entry_def mem_sadd_def mem_pexpire_def mem_zadd_def mem_incr_def
    map_of_z_del z_put_def fun_eq_iff intro: mem_link_aged [unfolded mem_view])

end
