(* ===== verification/Keyspace.thy ===== *)
theory Keyspace
  imports Redis_Mem
begin

text \<open>
  The keys of \<open>internal/session\<close> and \<open>internal/deviceauthorization\<close>: their prefixes, the
  class of a key (the prefix without the program's namespace), the type every class of keys
  has, and the frame calculus of the operations. \<open>typed\<close> says that every key holds the kind of
  value its class promises; \<open>writes K\<close> says that a script keeps the keyspace typed and leaves
  every key outside \<open>K\<close> alone; \<open>evolves K\<close> adds the time that passes on the link, which ages
  all keys outside \<open>K\<close> by the same amount.

  SHA-256 is outside the repository. Keys hold \<open>digest secret\<close>, the hexadecimal SHA-256 of a
  secret, for a parameter \<open>digest\<close>.
\<close>

section \<open>Prefixes\<close>

definition keyPrefix :: string where "keyPrefix = ''nyauth:''"
definition sessionPrefix :: string where "sessionPrefix = ''nyauth:session:''"
definition userSessionsPrefix :: string where "userSessionsPrefix = ''nyauth:user-sessions:''"
definition codePrefix :: string where "codePrefix = ''nyauth:code:''"
definition codeUsedPrefix :: string where "codeUsedPrefix = ''nyauth:code-used:''"
definition tokenPrefix :: string where "tokenPrefix = ''nyauth:token:''"
definition refreshPrefix :: string where "refreshPrefix = ''nyauth:refresh:''"
definition refreshUsedPrefix :: string where "refreshUsedPrefix = ''nyauth:refresh-used:''"
definition refreshFamilyPrefix :: string where "refreshFamilyPrefix = ''nyauth:refresh-family:''"
definition refreshRevokedPrefix :: string where "refreshRevokedPrefix = ''nyauth:refresh-revoked:''"
definition userRefreshFamiliesPrefix :: string where
  "userRefreshFamiliesPrefix = ''nyauth:user-refresh-families:''"
definition csrfPrefix :: string where "csrfPrefix = ''nyauth:csrf:''"
definition consentPrefix :: string where "consentPrefix = ''nyauth:consent:''"
definition authorizationClockPrefix :: string where
  "authorizationClockPrefix = ''nyauth:authorization-clock:''"
definition authorizationRevokedPrefix :: string where
  "authorizationRevokedPrefix = ''nyauth:authorization-revoked:''"
definition allSessionsKey :: string where "allSessionsKey = ''nyauth:sessions''"
definition oauthReauthenticationPrefix :: string where
  "oauthReauthenticationPrefix = ''nyauth:oauth-reauthentication:''"
definition mfaPendingPrefix :: string where "mfaPendingPrefix = ''nyauth:mfa-pending:''"
definition webAuthnCeremonyPrefix :: string where
  "webAuthnCeremonyPrefix = ''nyauth:webauthn-ceremony:''"
definition recordPrefix :: string where "recordPrefix = ''nyauth:device-authorization:device:''"
definition userCodePrefix :: string where "userCodePrefix = ''nyauth:device-authorization:user:''"
definition limitPrefix :: string where "limitPrefix = ''nyauth:device-authorization:limit:''"

lemmas prefix_defs = keyPrefix_def sessionPrefix_def userSessionsPrefix_def codePrefix_def
  codeUsedPrefix_def tokenPrefix_def refreshPrefix_def refreshUsedPrefix_def
  refreshFamilyPrefix_def refreshRevokedPrefix_def userRefreshFamiliesPrefix_def csrfPrefix_def
  consentPrefix_def authorizationClockPrefix_def authorizationRevokedPrefix_def allSessionsKey_def
  oauthReauthenticationPrefix_def mfaPendingPrefix_def webAuthnCeremonyPrefix_def
  recordPrefix_def userCodePrefix_def limitPrefix_def

definition secretKey :: "(string \<Rightarrow> string) \<Rightarrow> string \<Rightarrow> string \<Rightarrow> string" where
  "secretKey digest pre secret = pre @ digest secret"

section \<open>Classes of keys\<close>

definition key_class :: "string \<Rightarrow> string" where
  "key_class k =
     (let rest = drop 7 k; c = takeWhile (\<lambda>x. x \<noteq> CHR '':'') rest in
      if c = ''device-authorization'' then takeWhile (\<lambda>x. x \<noteq> CHR '':'') (drop 21 rest) else c)"

lemma key_class_prefix [simp]:
  "key_class (sessionPrefix @ s) = ''session''"
  "key_class (userSessionsPrefix @ s) = ''user-sessions''"
  "key_class (codePrefix @ s) = ''code''"
  "key_class (codeUsedPrefix @ s) = ''code-used''"
  "key_class (tokenPrefix @ s) = ''token''"
  "key_class (refreshPrefix @ s) = ''refresh''"
  "key_class (refreshUsedPrefix @ s) = ''refresh-used''"
  "key_class (refreshFamilyPrefix @ s) = ''refresh-family''"
  "key_class (refreshRevokedPrefix @ s) = ''refresh-revoked''"
  "key_class (userRefreshFamiliesPrefix @ s) = ''user-refresh-families''"
  "key_class (csrfPrefix @ s) = ''csrf''"
  "key_class (consentPrefix @ s) = ''consent''"
  "key_class (authorizationClockPrefix @ s) = ''authorization-clock''"
  "key_class (authorizationRevokedPrefix @ s) = ''authorization-revoked''"
  "key_class allSessionsKey = ''sessions''"
  "key_class (oauthReauthenticationPrefix @ s) = ''oauth-reauthentication''"
  "key_class (mfaPendingPrefix @ s) = ''mfa-pending''"
  "key_class (webAuthnCeremonyPrefix @ s) = ''webauthn-ceremony''"
  "key_class (recordPrefix @ s) = ''device''"
  "key_class (userCodePrefix @ s) = ''user''"
  "key_class (limitPrefix @ s) = ''limit''"
  by (simp_all add: key_class_def prefix_defs)

lemma key_class_neq: "key_class a \<noteq> key_class b \<Longrightarrow> a \<noteq> b"
  by auto

lemma secretKey_class [simp]: "key_class (secretKey digest pre s) = key_class (pre @ digest s)"
  by (simp add: secretKey_def)

lemma secretKey_eq [simp]: "secretKey digest pre s = secretKey digest pre t \<longleftrightarrow> digest s = digest t"
  by (simp add: secretKey_def)

lemma key_neqs [key_simps]:
  "key_class (p @ digest a) \<noteq> key_class (q @ digest b) \<Longrightarrow> secretKey digest p a \<noteq> secretKey digest q b"
  "key_class (p @ digest a) \<noteq> key_class (q @ y) \<Longrightarrow> secretKey digest p a \<noteq> q @ y"
  "key_class (p @ digest a) \<noteq> key_class (q @ y) \<Longrightarrow> q @ y \<noteq> secretKey digest p a"
  "key_class (p @ x) \<noteq> key_class (q @ y) \<Longrightarrow> p @ x \<noteq> q @ y"
  "key_class (p @ x) \<noteq> key_class allSessionsKey \<Longrightarrow> p @ x \<noteq> allSessionsKey"
  "key_class (p @ x) \<noteq> key_class allSessionsKey \<Longrightarrow> allSessionsKey \<noteq> p @ x"
  "key_class (p @ digest a) \<noteq> key_class allSessionsKey \<Longrightarrow> secretKey digest p a \<noteq> allSessionsKey"
  "key_class (p @ digest a) \<noteq> key_class allSessionsKey \<Longrightarrow> allSessionsKey \<noteq> secretKey digest p a"
  unfolding secretKey_def by (erule contrapos_nn; simp only:)+

section \<open>The type of the keyspace\<close>

definition value_ok :: "string \<Rightarrow> rvalue \<Rightarrow> bool" where
  "value_ok c v = (case v of
     VCode _ \<Rightarrow> c = ''code'' \<or> c = ''code-used''
   | VToken _ \<Rightarrow> c = ''token'' \<or> c = ''refresh'' \<or> c = ''refresh-used''
   | VSession _ \<Rightarrow> c = ''session''
   | VConsent _ \<Rightarrow> c = ''consent''
   | VReauth _ \<Rightarrow> c = ''oauth-reauthentication''
   | VMfa _ \<Rightarrow> c = ''mfa-pending''
   | VCeremony _ \<Rightarrow> c = ''webauthn-ceremony''
   | VDevice _ \<Rightarrow> c = ''device''
   | VCsrf _ \<Rightarrow> c = ''csrf''
   | VText _ \<Rightarrow> c = ''refresh-revoked'' \<or> c = ''user''
   | VNum _ \<Rightarrow> c = ''authorization-clock'' \<or> c = ''authorization-revoked'' \<or> c = ''limit'')"

definition member_ok :: "string \<Rightarrow> string \<Rightarrow> bool" where
  "member_ok c m \<longleftrightarrow>
     c = ''refresh-family'' \<and> (key_class m = ''refresh'' \<or> key_class m = ''token'') \<or>
     c = ''user-refresh-families'' \<or>
     c = ''user-sessions'' \<and> key_class m = ''session''"

definition typed_key :: "'db redis \<Rightarrow> 'db \<Rightarrow> string \<Rightarrow> bool" where
  "typed_key R db k \<longleftrightarrow>
     (\<forall>v. GET R db k = Some v \<longrightarrow> value_ok (key_class k) v) \<and>
     (\<forall>m \<in> members R db k. member_ok (key_class k) m) \<and>
     (\<forall>m s. ZSCORE R db k m = Some s \<longrightarrow> key_class k = ''sessions'' \<and> key_class m = ''session'') \<and>
     (PTTL R db k = -2 \<longrightarrow> GET R db k = None \<and> members R db k = {} \<and> ZSCORE R db k = Map.empty)"

lemma typed_keyI:
  assumes "\<And>v. GET R db k = Some v \<Longrightarrow> value_ok (key_class k) v"
    and "\<And>m. m \<in> members R db k \<Longrightarrow> member_ok (key_class k) m"
    and "\<And>m s. ZSCORE R db k m = Some s \<Longrightarrow> key_class k = ''sessions'' \<and> key_class m = ''session''"
    and "PTTL R db k = -2 \<Longrightarrow> GET R db k = None \<and> members R db k = {} \<and> ZSCORE R db k = Map.empty"
  shows "typed_key R db k"
  using assms unfolding typed_key_def by blast

lemma typed_keyD:
  assumes "typed_key R db k"
  shows "GET R db k = Some v \<Longrightarrow> value_ok (key_class k) v"
    and "m \<in> members R db k \<Longrightarrow> member_ok (key_class k) m"
    and "ZSCORE R db k m = Some s \<Longrightarrow> key_class k = ''sessions'' \<and> key_class m = ''session''"
    and "PTTL R db k = -2 \<Longrightarrow> GET R db k = None \<and> members R db k = {} \<and> ZSCORE R db k = Map.empty"
  using assms unfolding typed_key_def by blast+

lemma not_None_ex: "x \<noteq> None \<Longrightarrow> \<exists>y. x = Some y"
  by auto

lemma value_ok_string_class:
  "value_ok c v \<Longrightarrow> c \<notin> {''refresh-family'', ''user-refresh-families'', ''user-sessions'', ''sessions''}"
  by (cases v) (auto simp: value_ok_def)

lemma typed_key_set:
  assumes "typed_key R db k" and "m \<in> members R db k"
  shows "GET R db k = None" and "ZSCORE R db k = Map.empty"
proof -
  have c: "key_class k \<in> {''refresh-family'', ''user-refresh-families'', ''user-sessions''}"
    using typed_keyD(2) [OF assms] by (auto simp: member_ok_def)
  then show "GET R db k = None"
    using typed_keyD(1) [OF assms(1)] value_ok_string_class by (cases "GET R db k") blast+
  show "ZSCORE R db k = Map.empty"
    using typed_keyD(3) [OF assms(1)] c by (intro ext) (fastforce dest: not_None_ex)
qed

lemma typed_key_zset:
  assumes "typed_key R db k" and "ZSCORE R db k m = Some s"
  shows "GET R db k = None" and "members R db k = {}"
proof -
  show "members R db k = {}"
    using typed_key_set(2) [OF assms(1)] assms(2) by (metis all_not_in_conv option.distinct(1))
  have c: "key_class k = ''sessions''" using typed_keyD(3) [OF assms] ..
  then show "GET R db k = None"
    using typed_keyD(1) [OF assms(1)] value_ok_string_class by (cases "GET R db k") blast+
qed

definition typed :: "'db redis \<Rightarrow> 'db \<Rightarrow> bool" where
  "typed R db \<longleftrightarrow> (\<forall>k. typed_key R db k)"

lemma typed_GET: "typed R db \<Longrightarrow> GET R db k = Some v \<Longrightarrow> value_ok (key_class k) v"
  by (simp add: typed_def typed_key_def)

lemma typed_member: "typed R db \<Longrightarrow> m \<in> members R db k \<Longrightarrow> member_ok (key_class k) m"
  by (simp add: typed_def typed_key_def)

lemma typed_ZSCORE:
  "typed R db \<Longrightarrow> ZSCORE R db k m = Some s \<Longrightarrow> key_class k = ''sessions'' \<and> key_class m = ''session''"
  unfolding typed_def typed_key_def by blast

lemma typed_PTTL:
  "typed R db \<Longrightarrow> PTTL R db k = -2 \<Longrightarrow> GET R db k = None \<and> members R db k = {} \<and> ZSCORE R db k = Map.empty"
  unfolding typed_def typed_key_def by blast

lemma typed_no_string:
  assumes "typed R db"
    and "key_class k \<in> {''refresh-family'', ''user-refresh-families'', ''user-sessions'', ''sessions''}"
  shows "GET R db k = None"
proof (cases "GET R db k")
  case (Some v)
  then have "value_ok (key_class k) v" using typed_GET [OF assms(1)] by simp
  then show ?thesis using assms(2) by (auto simp: value_ok_def split: rvalue.splits)
qed

lemma typed_no_zset: "typed R db \<Longrightarrow> key_class k \<noteq> ''sessions'' \<Longrightarrow> ZSCORE R db k = Map.empty"
  using typed_ZSCORE [of R db k] by (fastforce simp: fun_eq_iff)

lemma typed_no_set:
  assumes "typed R db"
    and "key_class k \<notin> {''refresh-family'', ''user-refresh-families'', ''user-sessions''}"
  shows "SMEMBERS R db k = []"
proof -
  have "m \<notin> members R db k" for m
    using typed_member [OF assms(1), of m k] assms(2) by (auto simp: member_ok_def)
  then have "members R db k = {}" by (meson equals0I)
  then show ?thesis by simp
qed

section \<open>Frames\<close>

definition keeps :: "'db redis \<Rightarrow> string set \<Rightarrow> int \<Rightarrow> 'db \<Rightarrow> 'db \<Rightarrow> bool" where
  "keeps R K el db db' \<longleftrightarrow> 0 \<le> el \<and> (\<forall>k. k \<notin> K \<longrightarrow> aged_key el k (view R db) (view R db'))"

definition writes :: "'db redis \<Rightarrow> string set \<Rightarrow> 'db \<Rightarrow> 'db \<Rightarrow> bool" where
  "writes R K db db' \<longleftrightarrow> (typed R db \<longrightarrow> typed R db' \<and> keeps R K 0 db db')"

definition evolves :: "'db redis \<Rightarrow> string set \<Rightarrow> 'db \<Rightarrow> 'db \<Rightarrow> bool" where
  "evolves R K db db' \<longleftrightarrow> (typed R db \<longrightarrow> typed R db' \<and> (\<exists>el. keeps R K el db db'))"

lemma keeps_refl [intro, simp]: "keeps R K 0 db db"
  by (simp add: keeps_def aged_key_def)

lemma aged_key_trans:
  "aged_key a k u v \<Longrightarrow> aged_key b k v w \<Longrightarrow> 0 \<le> a \<Longrightarrow> 0 \<le> b \<Longrightarrow> aged_key (a + b) k u w"
  by (auto simp: aged_key_def split: if_splits)

lemma keeps_trans: "keeps R K a u v \<Longrightarrow> keeps R K b v w \<Longrightarrow> keeps R K (a + b) u w"
  unfolding keeps_def by (auto intro: aged_key_trans)

lemma keeps_mono: "keeps R K el u v \<Longrightarrow> K \<subseteq> L \<Longrightarrow> keeps R L el u v"
  by (auto simp: keeps_def)

lemma keeps0_obs:
  assumes "keeps R K 0 db db'" and "k \<notin> K"
  shows "GET R db' k = GET R db k" and "members R db' k = members R db k"
    and "ZSCORE R db' k = ZSCORE R db k" and "PTTL R db' k = PTTL R db k"
  using assms by (auto simp: keeps_def aged_key_def to_view)

lemma keeps_GET:
  "keeps R K el db db' \<Longrightarrow> k \<notin> K \<Longrightarrow> GET R db' k = GET R db k \<or> GET R db' k = None"
  by (auto simp: keeps_def aged_key_def to_view split: if_splits)

lemma keeps_alive:
  "keeps R K el db db' \<Longrightarrow> k \<notin> K \<Longrightarrow> PTTL R db k < 0 \<or> el \<le> PTTL R db k \<Longrightarrow>
   GET R db' k = GET R db k \<and> members R db' k = members R db k"
  by (auto simp: keeps_def aged_key_def to_view split: if_splits)

lemma writes_refl [intro, simp]: "writes R K db db"
  by (simp add: writes_def)

lemma writes_typed: "(typed R db \<Longrightarrow> writes R K db db') \<Longrightarrow> writes R K db db'"
  by (simp add: writes_def)

lemma writes_trans: "writes R K u v \<Longrightarrow> writes R K v w \<Longrightarrow> writes R K u w"
  unfolding writes_def using keeps_trans [of R K 0 u v 0 w] by auto

lemma writes_fold:
  "(\<And>x d. x \<in> set xs \<Longrightarrow> writes R K d (f x d)) \<Longrightarrow> writes R K db (fold f xs db)"
proof (induction xs arbitrary: db)
  case (Cons x xs)
  have "writes R K db (f x db)" using Cons.prems by simp
  moreover have "writes R K (f x db) (fold f xs (f x db))" using Cons by simp
  ultimately show ?case by (simp add: writes_trans [of R K _ "f x db"])
qed simp

lemma writes_fold_fst:
  assumes "\<And>x s. x \<in> set xs \<Longrightarrow> writes R K (fst s) (fst (f x s))"
  shows "writes R K (fst s) (fst (fold f xs s))"
  using assms
proof (induction xs arbitrary: s)
  case (Cons x xs)
  have "writes R K (fst s) (fst (f x s))" using Cons.prems by simp
  moreover have "writes R K (fst (f x s)) (fst (fold f xs (f x s)))" using Cons by simp
  ultimately show ?case by (simp add: writes_trans [of R K _ "fst (f x s)"])
qed simp

lemma writes_mono: "writes R K u v \<Longrightarrow> K \<subseteq> L \<Longrightarrow> writes R L u v"
  unfolding writes_def by (metis keeps_mono)

lemma evolves_trans: "evolves R K u v \<Longrightarrow> evolves R K v w \<Longrightarrow> evolves R K u w"
  unfolding evolves_def by (metis keeps_trans)

lemma evolves_mono: "evolves R K u v \<Longrightarrow> K \<subseteq> L \<Longrightarrow> evolves R L u v"
  unfolding evolves_def by (metis keeps_mono)

lemma evolves_refl [intro, simp]: "evolves R K db db"
  unfolding evolves_def by (metis keeps_refl)

lemma evolves_writes: "evolves R K u v \<Longrightarrow> writes R K v w \<Longrightarrow> evolves R K u w"
  unfolding evolves_def writes_def by (metis keeps_trans)

text \<open>A command that changes one key is framed by that key.\<close>

lemma writes_at:
  assumes "k \<in> K"
    and "\<And>j. j \<noteq> k \<Longrightarrow> GET R db' j = GET R db j \<and> members R db' j = members R db j \<and>
           ZSCORE R db' j = ZSCORE R db j \<and> PTTL R db' j = PTTL R db j"
    and "typed_key R db k \<Longrightarrow> typed_key R db' k"
  shows "writes R K db db'"
  unfolding writes_def
proof (intro impI conjI)
  assume t: "typed R db"
  have "typed_key R db' j" for j
  proof (cases "j = k")
    case True
    then show ?thesis using t assms(3) by (simp add: typed_def)
  next
    case False
    then have "typed_key R db' j = typed_key R db j" using assms(2) by (simp add: typed_key_def)
    then show ?thesis using t by (simp add: typed_def)
  qed
  then show "typed R db'" by (simp add: typed_def)
  have "aged_key 0 j (view R db) (view R db')" if "j \<notin> K" for j
    using assms(1) assms(2) [of j] that by (auto simp: aged_key_def to_view)
  then show "keeps R K 0 db db'" by (simp add: keeps_def)
qed

lemma evolves_and_then:
  "evolves R K db (fst m) \<Longrightarrow> (\<And>x. snd m = Inr x \<Longrightarrow> evolves R K (fst m) (fst (f (fst m) x))) \<Longrightarrow>
   evolves R K db (fst (and_then m f))"
  by (rule fst_and_thenI [of "evolves R K db"]) (auto intro: evolves_trans)

context redis_server
begin

lemma writes_SET:
  "0 \<le> ms \<Longrightarrow> k \<in> K \<Longrightarrow> value_ok (key_class k) v \<Longrightarrow> writes R K db (SET R db k v ms)"
  by (rule writes_at [of k]) (simp_all add: SET_obs typed_key_def)

lemma writes_SETKEEP:
  "k \<in> K \<Longrightarrow> value_ok (key_class k) v \<Longrightarrow> writes R K db (SETKEEP R db k v)"
  by (rule writes_at [of k]) (simp_all add: SETKEEP_obs typed_key_def)

lemma writes_DEL: "k \<in> K \<Longrightarrow> writes R K db (DEL R db k)"
  by (rule writes_at [of k]) (simp_all add: DEL_obs typed_key_def)

lemma writes_del_all: "set ks \<subseteq> K \<Longrightarrow> writes R K db (del_all R db ks)"
  unfolding del_all_def by (intro writes_fold writes_DEL) auto

lemma writes_del_if_empty: "k \<in> K \<Longrightarrow> writes R K db (del_if_empty R db k)"
  by (simp add: del_if_empty_def writes_DEL)

lemma writes_SADD:
  assumes "k \<in> K" and "member_ok (key_class k) m"
  shows "writes R K db (SADD R db k m)"
proof (rule writes_typed)
  assume t: "typed R db"
  have c: "key_class k \<in> {''refresh-family'', ''user-refresh-families'', ''user-sessions''}"
    using assms(2) by (auto simp: member_ok_def)
  have pre: "GET R db k = None" "ZSCORE R db k = Map.empty"
    using typed_no_string [OF t] typed_no_zset [OF t] c by auto
  have "typed_key R (SADD R db k m) k" if tk: "typed_key R db k"
  proof (rule typed_keyI)
    show "m' \<in> members R (SADD R db k m) k \<Longrightarrow> member_ok (key_class k) m'" for m'
      using typed_keyD(2) [OF tk] assms(2) by (auto simp: SADD_obs [OF pre])
    have "PTTL R (SADD R db k m) k \<noteq> -2"
      using typed_keyD(4) [OF tk] by (auto simp: SADD_obs [OF pre])
    then show "PTTL R (SADD R db k m) k = -2 \<Longrightarrow> GET R (SADD R db k m) k = None \<and>
        members R (SADD R db k m) k = {} \<and> ZSCORE R (SADD R db k m) k = Map.empty" by simp
  qed (use pre in \<open>simp_all add: SADD_obs\<close>)
  then show "writes R K db (SADD R db k m)"
    by (intro writes_at [of k]) (use assms in \<open>simp_all add: SADD_obs [OF pre]\<close>)
qed

lemma writes_SREM:
  assumes "k \<in> K"
  shows "writes R K db (SREM R db k m)"
proof -
  have "typed_key R (SREM R db k m) k" if tk: "typed_key R db k"
  proof (rule typed_keyI)
    show "GET R (SREM R db k m) k = Some v \<Longrightarrow> value_ok (key_class k) v" for v
      using typed_keyD(1) [OF tk] by (simp add: SREM_obs)
    show "m' \<in> members R (SREM R db k m) k \<Longrightarrow> member_ok (key_class k) m'" for m'
      using typed_keyD(2) [OF tk] by (simp add: SREM_obs)
    show "ZSCORE R (SREM R db k m) k m' = Some s \<Longrightarrow> key_class k = ''sessions'' \<and> key_class m' = ''session''" for m' s
      using typed_keyD(3) [OF tk] by (simp only: SREM_obs)
    assume "PTTL R (SREM R db k m) k = -2"
    then consider "members R db k = {m}" | "PTTL R db k = -2" by (auto simp: SREM_obs split: if_splits)
    then show "GET R (SREM R db k m) k = None \<and> members R (SREM R db k m) k = {} \<and>
        ZSCORE R (SREM R db k m) k = Map.empty"
    proof cases
      case 1
      then show ?thesis using typed_key_set [OF tk, of m] by (simp only: SREM_obs) simp
    next
      case 2
      then show ?thesis using typed_keyD(4) [OF tk] by (simp only: SREM_obs) simp
    qed
  qed
  then show ?thesis using assms by (intro writes_at [of k]) (simp_all add: SREM_obs)
qed

lemma writes_PEXPIRE: "0 < ms \<Longrightarrow> k \<in> K \<Longrightarrow> writes R K db (PEXPIRE R db k ms)"
  by (rule writes_at [of k]) (simp_all add: PEXPIRE_obs typed_key_def)

lemma writes_raise_ttl: "0 < ms \<Longrightarrow> k \<in> K \<Longrightarrow> writes R K db (raise_ttl R db k ms)"
  by (simp add: raise_ttl_def writes_PEXPIRE)

lemma writes_ZADD:
  assumes "k \<in> K" and "key_class k = ''sessions''" and "key_class m = ''session''"
  shows "writes R K db (ZADD R db k s m)"
proof (rule writes_typed)
  assume t: "typed R db"
  have pre: "GET R db k = None" "SMEMBERS R db k = []"
    using typed_no_string [OF t] typed_no_set [OF t] assms(2) by auto
  have "typed_key R (ZADD R db k s m) k" if tk: "typed_key R db k"
  proof (rule typed_keyI)
    show "ZSCORE R (ZADD R db k s m) k m' = Some s' \<Longrightarrow> key_class k = ''sessions'' \<and> key_class m' = ''session''" for m' s'
      using typed_keyD(3) [OF tk, of m'] assms by (auto simp: ZADD_obs [OF pre] split: if_splits)
    have "PTTL R (ZADD R db k s m) k \<noteq> -2"
      using typed_keyD(4) [OF tk] by (auto simp: ZADD_obs [OF pre])
    then show "PTTL R (ZADD R db k s m) k = -2 \<Longrightarrow> GET R (ZADD R db k s m) k = None \<and>
        members R (ZADD R db k s m) k = {} \<and> ZSCORE R (ZADD R db k s m) k = Map.empty" by simp
  qed (use pre in \<open>simp_all add: ZADD_obs\<close>)
  then show "writes R K db (ZADD R db k s m)"
    by (intro writes_at [of k]) (use assms in \<open>simp_all add: ZADD_obs [OF pre]\<close>)
qed

text \<open>A command that only removes entries of a sorted set, and the key when it removes the last.\<close>

lemma writes_zset_removal:
  assumes "k \<in> K" and same: "\<And>j. GET R db' j = GET R db j" "\<And>j. members R db' j = members R db j"
    and others: "\<And>j. j \<noteq> k \<Longrightarrow> ZSCORE R db' j = ZSCORE R db j" "\<And>j. j \<noteq> k \<Longrightarrow> PTTL R db' j = PTTL R db j"
    and sub: "\<And>m s. ZSCORE R db' k m = Some s \<Longrightarrow> ZSCORE R db k m = Some s"
    and ttl: "PTTL R db' k = -2 \<Longrightarrow> PTTL R db k = -2 \<or> ZSCORE R db k \<noteq> Map.empty \<and> ZSCORE R db' k = Map.empty"
  shows "writes R K db db'"
proof -
  have "typed_key R db' k" if tk: "typed_key R db k"
  proof (rule typed_keyI)
    show "GET R db' k = Some v \<Longrightarrow> value_ok (key_class k) v" for v using typed_keyD(1) [OF tk] same by simp
    show "m \<in> members R db' k \<Longrightarrow> member_ok (key_class k) m" for m using typed_keyD(2) [OF tk] same by simp
    show "ZSCORE R db' k m = Some s \<Longrightarrow> key_class k = ''sessions'' \<and> key_class m = ''session''" for m s
      using typed_keyD(3) [OF tk sub] by simp
    assume "PTTL R db' k = -2"
    from ttl [OF this] show "GET R db' k = None \<and> members R db' k = {} \<and> ZSCORE R db' k = Map.empty"
    proof (elim disjE conjE)
      assume "PTTL R db k = -2"
      note e = typed_keyD(4) [OF tk this]
      have "ZSCORE R db' k = Map.empty" using sub e by (intro ext) (metis not_None_ex option.distinct(1))
      with e show ?thesis by (simp only: same)
    next
      assume "ZSCORE R db k \<noteq> Map.empty" and z: "ZSCORE R db' k = Map.empty"
      then obtain m s where "ZSCORE R db k m = Some s" by (meson not_None_ex ext)
      from typed_key_zset [OF tk this] z show ?thesis by (simp only: same)
    qed
  qed
  then show ?thesis by (intro writes_at [OF assms(1)]) (simp_all add: same others)
qed

lemma writes_ZREM: "k \<in> K \<Longrightarrow> writes R K db (ZREM R db k m)"
proof (rule writes_zset_removal [of k])
  have "PTTL R (ZREM R db k m) k = (if dom (ZSCORE R db k) = {m} then -2 else PTTL R db k)"
    using view_ZREM [of db k m] by (simp add: to_view)
  moreover have "dom (ZSCORE R db k) = {m} \<Longrightarrow>
      ZSCORE R db k \<noteq> Map.empty \<and> (ZSCORE R db k)(m := None) = Map.empty"
    by (metis Diff_cancel dom_empty dom_eq_empty_conv dom_fun_upd insert_not_empty)
  ultimately show "PTTL R (ZREM R db k m) k = -2 \<Longrightarrow>
      PTTL R db k = -2 \<or> ZSCORE R db k \<noteq> Map.empty \<and> ZSCORE R (ZREM R db k m) k = Map.empty"
    by (simp only: ZREM_obs) (auto split: if_splits)
qed (simp_all add: ZREM_obs PTTL_ZREM split: if_splits)

lemma writes_ZREMRANGEBYSCORE: "k \<in> K \<Longrightarrow> writes R K db (ZREMRANGEBYSCORE R db k s)"
proof (rule writes_zset_removal [of k])
  have "PTTL R (ZREMRANGEBYSCORE R db k s) k =
      (if ZSCORE R db k \<noteq> Map.empty \<and> (\<forall>x \<in> ran (ZSCORE R db k). x \<le> s) then -2 else PTTL R db k)"
    using view_ZREMRANGEBYSCORE [of db k s] by (simp add: to_view)
  moreover have "\<forall>x \<in> ran (ZSCORE R db k). x \<le> s \<Longrightarrow>
      (\<lambda>m. case ZSCORE R db k m of None \<Rightarrow> None | Some x \<Rightarrow> if x \<le> s then None else Some x) = Map.empty"
    by (auto simp: fun_eq_iff ran_def split: option.splits)
  ultimately show "PTTL R (ZREMRANGEBYSCORE R db k s) k = -2 \<Longrightarrow>
      PTTL R db k = -2 \<or> ZSCORE R db k \<noteq> Map.empty \<and> ZSCORE R (ZREMRANGEBYSCORE R db k s) k = Map.empty"
    by (simp only: ZREMRANGEBYSCORE_obs) (auto split: if_splits)
qed (simp_all add: ZREMRANGEBYSCORE_obs PTTL_ZREMRANGEBYSCORE split: option.splits if_splits)

lemma typed_LINK:
  assumes "typed R db"
  shows "typed R (snd (LINK R db))"
proof -
  let ?d = "snd (LINK R db)"
  have "typed_key R ?d k" for k
  proof -
    have tk: "typed_key R db k" using assms by (simp add: typed_def)
    obtain el where a: "aged_key el k (view R db) (view R ?d)" "0 \<le> el"
      using view_LINK [of db] unfolding aged_def by blast
    show ?thesis
    proof (cases "0 \<le> PTTL R db k \<and> PTTL R db k < el")
      case True
      then have "GET R ?d k = None \<and> members R ?d k = {} \<and> ZSCORE R ?d k = Map.empty"
        using a(1) unfolding aged_key_def to_view by (simp only: if_True)
      then show ?thesis by (simp add: typed_key_def)
    next
      case False
      then have eqs: "GET R ?d k = GET R db k" "members R ?d k = members R db k"
          "ZSCORE R ?d k = ZSCORE R db k" "PTTL R ?d k = (if PTTL R db k < 0 then PTTL R db k else PTTL R db k - el)"
        using a(1) unfolding aged_key_def to_view by (simp_all only: if_False)
      have "PTTL R ?d k = -2 \<Longrightarrow> PTTL R db k = -2" using False a(2) unfolding eqs(4) by (simp split: if_splits)
      then show ?thesis using tk unfolding typed_key_def eqs(1-3) by blast
    qed
  qed
  then show ?thesis by (simp add: typed_def)
qed

lemma evolves_LINK: "evolves R K db (snd (LINK R db))"
proof -
  obtain el where "aged el (view R db) (view R (snd (LINK R db)))" using view_LINK by blast
  then have "keeps R K el db (snd (LINK R db))" by (simp add: keeps_def aged_def)
  then show ?thesis unfolding evolves_def using typed_LINK by blast
qed

lemma evolves_call:
  assumes "\<And>d. writes R K d (fst (f d))"
  shows "evolves R K db (fst (call R e db f))"
  by (rule fst_callI [of "\<lambda>d. evolves R K db d"]) (auto intro: evolves_LINK evolves_writes assms)

lemma typed_SADD:
  assumes "typed R db" and "key_class k \<in> {''refresh-family'', ''user-refresh-families'', ''user-sessions''}"
  shows "GET R (SADD R db k m) j = GET R db j"
    and "members R (SADD R db k m) j = (if j = k then insert m (members R db k) else members R db j)"
    and "PTTL R (SADD R db k m) j =
      (if j = k then (if members R db k = {} then -1 else PTTL R db k) else PTTL R db j)"
    and "PTTL R (SADD R db k m) k \<noteq> -2"
proof -
  have pre: "GET R db k = None" "ZSCORE R db k = Map.empty"
    using typed_no_string [OF assms(1)] typed_no_zset [OF assms(1)] assms(2) by auto
  show "GET R (SADD R db k m) j = GET R db j"
    and "members R (SADD R db k m) j = (if j = k then insert m (members R db k) else members R db j)"
    and "PTTL R (SADD R db k m) j =
      (if j = k then (if members R db k = {} then -1 else PTTL R db k) else PTTL R db j)"
    by (simp_all only: SADD_obs [OF pre])
  show "PTTL R (SADD R db k m) k \<noteq> -2"
    using typed_PTTL [OF assms(1), of k] by (auto simp: SADD_obs [OF pre])
qed

text \<open>The same rules for the outermost command of a chain.\<close>

lemmas writes_chain =
  writes_SET [THEN [2] writes_trans] writes_SETKEEP [THEN [2] writes_trans]
  writes_DEL [THEN [2] writes_trans] writes_del_all [THEN [2] writes_trans]
  writes_del_if_empty [THEN [2] writes_trans] writes_SADD [THEN [2] writes_trans]
  writes_SREM [THEN [2] writes_trans] writes_PEXPIRE [THEN [2] writes_trans]
  writes_raise_ttl [THEN [2] writes_trans] writes_ZADD [THEN [2] writes_trans]
  writes_ZREM [THEN [2] writes_trans] writes_ZREMRANGEBYSCORE [THEN [2] writes_trans]
  writes_refl

end

end
