(* ===== verification/Session_Base.thy ===== *)
theory Session_Base
  imports Keyspace
begin

text \<open>
  What the operations of \<open>internal/session\<close> share: the errors, the fields that the Lua scripts
  read from a decoded document, the conversion of times to live, and the helpers \<open>setJSON\<close>,
  \<open>getJSON\<close>, \<open>ttlMilliseconds\<close> and \<open>mapRedisNil\<close>.

  An operation takes the server \<open>R\<close>, the database, its Go arguments and the results of the
  calls that are not deterministic (\<open>randomSecret\<close>, \<^const>\<open>None\<close> when reading random bytes
  fails, and \<open>time.Now\<close>); it returns the database and an error or a result. Pointers that the
  callers always pass are values; a record that the operation updates through its pointer is
  part of the result.
\<close>

datatype store_error =
    ErrNotFound | ErrValueMismatch | ErrAuthorizationCodeReuse | ErrConsentUserMismatch
  | ErrRefreshTokenReuse | ErrRefreshFamilyRevoked | ErrTokenBindingMismatch | ErrInvalidTokenData
  | ErrRedis | ErrScript | ErrDecode | ErrRandom | ErrTTL | ErrVersion | ErrUnexpected int

type_synonym 'a result = "store_error + 'a"
type_synonym script_reply = "int \<times> rvalue option"

section \<open>Times to live\<close>

text \<open>go-redis sends a positive expiration in whole milliseconds, at least one; \<open>Expire\<close> sends
  whole seconds, at least one. \<open>redis.KeepTTL\<close> is the duration of minus one nanosecond.\<close>

definition px :: "duration \<Rightarrow> int" where
  "px ttl = max 1 (ttl div Millisecond)"

definition go_set :: "'db redis \<Rightarrow> 'db \<Rightarrow> string \<Rightarrow> rvalue \<Rightarrow> duration \<Rightarrow> 'db" where
  "go_set R db k v ttl =
     (if 0 < ttl then SET R db k v (px ttl)
      else if ttl = -1 then SETKEEP R db k v
      else SET R db k v 0)"

definition go_expire :: "'db redis \<Rightarrow> 'db \<Rightarrow> string \<Rightarrow> duration \<Rightarrow> 'db" where
  "go_expire R db k ttl =
     (if 0 < ttl then PEXPIRE R db k (max 1 (ttl div Second) * 1000) else DEL R db k)"

definition ttlMilliseconds :: "duration \<Rightarrow> int result" where
  "ttlMilliseconds ttl = (if ttl < Millisecond then Inl ErrTTL else Inr (ttl div Millisecond))"

lemma px_pos [simp]: "0 < px ttl" "0 \<le> px ttl"
  by (simp_all add: px_def)

lemma ttlMilliseconds_Inr:
  "ttlMilliseconds ttl = Inr ms \<longleftrightarrow> Millisecond \<le> ttl \<and> ms = ttl div Millisecond"
  by (auto simp: ttlMilliseconds_def)

lemma ttlMilliseconds_pos:
  "ttlMilliseconds ttl = Inr ms \<Longrightarrow> 0 < ms" "ttlMilliseconds ttl = Inr ms \<Longrightarrow> 0 \<le> ms"
  by (auto simp: ttlMilliseconds_Inr Millisecond_def pos_imp_zdiv_pos_iff pos_imp_zdiv_nonneg_iff)

lemma ttlMilliseconds_Inl: "ttlMilliseconds ttl = Inl e \<Longrightarrow> e = ErrTTL"
  by (simp add: ttlMilliseconds_def split: if_splits)

section \<open>Documents\<close>

definition setJSON :: "'db redis \<Rightarrow> 'db \<Rightarrow> string \<Rightarrow> rvalue \<Rightarrow> duration \<Rightarrow> 'db \<times> unit result" where
  "setJSON R db key v ttl =
     (if ttl \<le> 0 then (db, Inl ErrTTL)
      else call R ErrRedis db (\<lambda>d. (go_set R d key v ttl, Inr ())))"

definition getJSON :: "'db redis \<Rightarrow> 'db \<Rightarrow> string \<Rightarrow> (rvalue \<Rightarrow> 'a option) \<Rightarrow> 'db \<times> 'a result" where
  "getJSON R db key decode =
     call R ErrRedis db (\<lambda>d. (d, case GET R d key of
        None \<Rightarrow> Inl ErrNotFound
      | Some v \<Rightarrow> (case decode v of None \<Rightarrow> Inl ErrDecode | Some x \<Rightarrow> Inr x)))"

definition getDelJSON :: "'db redis \<Rightarrow> 'db \<Rightarrow> string \<Rightarrow> (rvalue \<Rightarrow> 'a option) \<Rightarrow> 'db \<times> 'a result" where
  "getDelJSON R db key decode =
     call R ErrRedis db (\<lambda>d. (case GETDEL R d key of (d', v) \<Rightarrow> (d', case v of
        None \<Rightarrow> Inl ErrNotFound
      | Some v \<Rightarrow> (case decode v of None \<Rightarrow> Inl ErrDecode | Some x \<Rightarrow> Inr x))))"

text \<open>\<open>DEL\<close> of one key, where a count of zero is \<open>ErrNotFound\<close>.\<close>

definition delCounted :: "'db redis \<Rightarrow> 'db \<Rightarrow> string \<Rightarrow> 'db \<times> unit result" where
  "delCounted R db key =
     call R ErrRedis db (\<lambda>d. (DEL R d key, if EXISTS R d key then Inr () else Inl ErrNotFound))"

text \<open>
  The fields a script reads from a decoded document. \<^const>\<open>None\<close> is Lua's \<open>nil\<close>: the document
  has no such field, which an \<open>omitempty\<close> field has not when it is empty.
\<close>

definition lua_text :: "string \<Rightarrow> string option" where
  "lua_text s = (if s = [] then None else Some s)"

definition lua_number :: "int \<Rightarrow> int option" where
  "lua_number n = (if n = 0 then None else Some n)"

definition lua_record_version :: "rvalue \<Rightarrow> string option" where
  "lua_record_version v = (case v of VCode d \<Rightarrow> Some (ad_RecordVersion d)
     | VDevice d \<Rightarrow> Some (dr_RecordVersion d) | _ \<Rightarrow> None)"

definition lua_user_id :: "rvalue \<Rightarrow> string option" where
  "lua_user_id v = (case v of VCode d \<Rightarrow> Some (ad_UserID d) | VToken d \<Rightarrow> Some (td_UserID d)
     | VSession d \<Rightarrow> Some (sd_UserID d) | VConsent d \<Rightarrow> Some (cd_UserID d)
     | VMfa d \<Rightarrow> Some (mp_UserID d) | VCeremony d \<Rightarrow> lua_text (wc_UserID d)
     | VDevice d \<Rightarrow> lua_text (dr_UserID d) | _ \<Rightarrow> None)"

definition lua_client_id :: "rvalue \<Rightarrow> string option" where
  "lua_client_id v = (case v of VCode d \<Rightarrow> Some (ad_ClientID d) | VToken d \<Rightarrow> Some (td_ClientID d)
     | VConsent d \<Rightarrow> Some (cd_ClientID d) | VDevice d \<Rightarrow> Some (dr_ClientID d) | _ \<Rightarrow> None)"

definition lua_token_use :: "rvalue \<Rightarrow> string option" where
  "lua_token_use v = (case v of VToken d \<Rightarrow> Some (td_TokenUse d) | _ \<Rightarrow> None)"

definition lua_family_key :: "rvalue \<Rightarrow> string option" where
  "lua_family_key v = (case v of VToken d \<Rightarrow> lua_text (td_FamilyKey d) | _ \<Rightarrow> None)"

definition lua_user_key :: "rvalue \<Rightarrow> string option" where
  "lua_user_key v = (case v of VToken d \<Rightarrow> lua_text (td_UserKey d)
     | VSession d \<Rightarrow> lua_text (sd_UserKey d) | _ \<Rightarrow> None)"

definition lua_auth_version :: "rvalue \<Rightarrow> int option" where
  "lua_auth_version v = (case v of VCode d \<Rightarrow> lua_number (ad_AuthVersion d)
     | VToken d \<Rightarrow> lua_number (td_AuthVersion d) | VSession d \<Rightarrow> Some (sd_AuthVersion d)
     | VConsent d \<Rightarrow> lua_number (cd_AuthVersion d) | VMfa d \<Rightarrow> Some (mp_AuthVersion d)
     | VCeremony d \<Rightarrow> lua_number (wc_AuthVersion d) | VDevice d \<Rightarrow> lua_number (dr_AuthVersion d)
     | _ \<Rightarrow> None)"

definition lua_session_version :: "rvalue \<Rightarrow> int option" where
  "lua_session_version v = (case v of VSession d \<Rightarrow> Some (sd_SessionVersion d)
     | VMfa d \<Rightarrow> Some (mp_SessionVersion d) | VCeremony d \<Rightarrow> lua_number (wc_SessionVersion d)
     | _ \<Rightarrow> None)"

definition lua_public_id :: "rvalue \<Rightarrow> string option" where
  "lua_public_id v = (case v of VSession d \<Rightarrow> Some (sd_PublicID d) | _ \<Rightarrow> None)"

definition lua_created :: "rvalue \<Rightarrow> int" where
  "lua_created v = (case v of VSession d \<Rightarrow> sd_CreatedAtUnixMilli d
     | VDevice d \<Rightarrow> dr_CreatedAtUnixMilli d | _ \<Rightarrow> 0)"

text \<open>Whether \<open>cjson.decode\<close> succeeds and gives a table: every document but texts and numbers.\<close>

definition lua_table :: "rvalue \<Rightarrow> bool" where
  "lua_table v = (case v of VText _ \<Rightarrow> False | VNum _ \<Rightarrow> False | _ \<Rightarrow> True)"

lemma lua_fields [simp]:
  "lua_record_version (VCode c) = Some (ad_RecordVersion c)"
  "lua_record_version (VDevice d) = Some (dr_RecordVersion d)"
  "lua_user_id (VConsent k) = Some (cd_UserID k)"
  "lua_client_id (VToken t) = Some (td_ClientID t)"
  "lua_client_id (VDevice d) = Some (dr_ClientID d)"
  "lua_token_use (VToken t) = Some (td_TokenUse t)"
  "lua_family_key (VToken t) = lua_text (td_FamilyKey t)"
  "lua_user_key (VToken t) = lua_text (td_UserKey t)"
  "lua_user_key (VSession s) = lua_text (sd_UserKey s)"
  "lua_auth_version (VToken t) = lua_number (td_AuthVersion t)"
  "lua_auth_version (VSession s) = Some (sd_AuthVersion s)"
  "lua_session_version (VSession s) = Some (sd_SessionVersion s)"
  "lua_public_id (VSession s) = Some (sd_PublicID s)"
  "lua_created (VSession s) = sd_CreatedAtUnixMilli s"
  "lua_table (VToken t)" "lua_table (VSession s)"
  by (simp_all add: lua_record_version_def lua_user_id_def lua_client_id_def lua_token_use_def
      lua_family_key_def lua_user_key_def lua_auth_version_def lua_session_version_def
      lua_public_id_def lua_created_def lua_table_def)

lemma lua_text_simps [simp]: "lua_text s = None \<longleftrightarrow> s = []" "lua_text s = Some t \<longleftrightarrow> s = t \<and> t \<noteq> []"
  by (auto simp: lua_text_def)

section \<open>Frames and results of the helpers\<close>

lemma value_ok_cases:
  "value_ok ''code'' v \<longleftrightarrow> (\<exists>d. v = VCode d)"
  "value_ok ''code-used'' v \<longleftrightarrow> (\<exists>d. v = VCode d)"
  "value_ok ''token'' v \<longleftrightarrow> (\<exists>d. v = VToken d)"
  "value_ok ''refresh'' v \<longleftrightarrow> (\<exists>d. v = VToken d)"
  "value_ok ''refresh-used'' v \<longleftrightarrow> (\<exists>d. v = VToken d)"
  "value_ok ''session'' v \<longleftrightarrow> (\<exists>d. v = VSession d)"
  "value_ok ''consent'' v \<longleftrightarrow> (\<exists>d. v = VConsent d)"
  "value_ok ''oauth-reauthentication'' v \<longleftrightarrow> (\<exists>d. v = VReauth d)"
  "value_ok ''mfa-pending'' v \<longleftrightarrow> (\<exists>d. v = VMfa d)"
  "value_ok ''webauthn-ceremony'' v \<longleftrightarrow> (\<exists>d. v = VCeremony d)"
  "value_ok ''device'' v \<longleftrightarrow> (\<exists>d. v = VDevice d)"
  "value_ok ''csrf'' v \<longleftrightarrow> (\<exists>d. v = VCsrf d)"
  "value_ok ''refresh-revoked'' v \<longleftrightarrow> (\<exists>d. v = VText d)"
  "value_ok ''user'' v \<longleftrightarrow> (\<exists>d. v = VText d)"
  "value_ok ''authorization-clock'' v \<longleftrightarrow> (\<exists>d. v = VNum d)"
  "value_ok ''authorization-revoked'' v \<longleftrightarrow> (\<exists>d. v = VNum d)"
  "value_ok ''limit'' v \<longleftrightarrow> (\<exists>d. v = VNum d)"
  by (cases v; simp add: value_ok_def)+

context redis_server
begin

lemma writes_go_set:
  "k \<in> K \<Longrightarrow> value_ok (key_class k) v \<Longrightarrow> writes R K db (go_set R db k v ttl)"
  by (simp add: go_set_def writes_SET writes_SETKEEP)

lemma writes_go_expire: "k \<in> K \<Longrightarrow> writes R K db (go_expire R db k ttl)"
  by (simp add: go_expire_def writes_PEXPIRE writes_DEL)

lemma evolves_setJSON:
  "k \<in> K \<Longrightarrow> value_ok (key_class k) v \<Longrightarrow> evolves R K db (fst (setJSON R db k v ttl))"
  by (simp add: setJSON_def evolves_call writes_go_set)

lemma evolves_getJSON: "evolves R K db (fst (getJSON R db k decode))"
  by (simp add: getJSON_def evolves_call)

lemma evolves_getDelJSON: "k \<in> K \<Longrightarrow> evolves R K db (fst (getDelJSON R db k decode))"
  by (simp add: getDelJSON_def evolves_call GETDEL_def writes_DEL)

lemma evolves_delCounted: "k \<in> K \<Longrightarrow> evolves R K db (fst (delCounted R db k))"
  by (simp add: delCounted_def evolves_call writes_DEL)

lemma getJSON_Inr:
  assumes "getJSON R db k decode = (db', Inr x)"
  obtains v where "GET R db k = Some v" and "decode v = Some x" and "GET R db' k = Some v"
    and "db' = snd (LINK R db)"
proof -
  have eq: "snd (LINK R db) = db'" "(case GET R (snd (LINK R db)) k of None \<Rightarrow> Inl ErrNotFound
      | Some v \<Rightarrow> (case decode v of None \<Rightarrow> Inl ErrDecode | Some x \<Rightarrow> Inr x)) = Inr x"
    using call_Inr [OF assms [unfolded getJSON_def]] by auto
  from eq(2) obtain v where v: "GET R (snd (LINK R db)) k = Some v" "decode v = Some x"
    by (simp split: option.splits)
  from v LINK_GET_Some [OF v(1)] eq(1) show ?thesis by (intro that [of v]) simp_all
qed

lemma getDelJSON_Inr:
  assumes "getDelJSON R db k decode = (db', Inr x)"
  obtains v where "GET R db k = Some v" and "decode v = Some x" and "GET R db' k = None"
proof -
  from call_Inr [OF assms [unfolded getDelJSON_def]]
  obtain v where "GET R (snd (LINK R db)) k = Some v" "decode v = Some x"
      "db' = DEL R (snd (LINK R db)) k"
    by (auto simp: GETDEL_def split: option.splits)
  with LINK_GET_Some [of db k v] show ?thesis by (intro that [of v]) (simp_all add: DEL_obs)
qed

lemma setJSON_Inr:
  "setJSON R db k v ttl = (db', Inr u) \<Longrightarrow>
     0 < ttl \<and> GET R db' k = Some v \<and> PTTL R db' k = px ttl"
  by (auto simp: setJSON_def go_set_def SET_obs px_def split: if_splits dest!: call_Inr)

end

end
