(* ===== verification/Session_Codes.thy ===== *)
theory Session_Codes
  imports Session_Base
begin

text \<open>
  The single-use records of \<open>internal/session\<close>: authorization codes, CSRF states and consent
  challenges of \<open>store.go\<close>, OAuth reauthentication states, pending MFA challenges and WebAuthn
  ceremonies of the files of their own. A successful consumption removes the record; a used
  authorization code leaves its record under the \<open>code-used\<close> key so that a replay is
  recognised.
\<close>

section \<open>Authorization codes\<close>

definition SaveAuthorizationCode ::
    "'db redis \<Rightarrow> (string \<Rightarrow> string) \<Rightarrow> 'db \<Rightarrow> string \<Rightarrow> authorization_data \<Rightarrow> duration \<Rightarrow> string option \<Rightarrow>
     'db \<times> unit result" where
  "SaveAuthorizationCode R digest db code data ttl random =
     (case random of
        None \<Rightarrow> (db, Inl ErrRandom)
      | Some version \<Rightarrow>
          setJSON R db (secretKey digest codePrefix code)
            (VCode (json_code (data\<lparr>ad_RecordVersion := version\<rparr>))) ttl)"

text \<open>The record of a live code, or of a used one (\<^const>\<open>True\<close>: \<open>ErrAuthorizationCodeReuse\<close>).\<close>

definition GetAuthorizationCode ::
    "'db redis \<Rightarrow> (string \<Rightarrow> string) \<Rightarrow> 'db \<Rightarrow> string \<Rightarrow> 'db \<times> (bool \<times> authorization_data) result" where
  "GetAuthorizationCode R digest db code =
     (case getJSON R db (secretKey digest codePrefix code) decode_code of
        (db1, Inr v) \<Rightarrow> (db1, Inr (False, v))
      | (db1, Inl e) \<Rightarrow>
          (if e \<noteq> ErrNotFound then (db1, Inl e)
           else case getJSON R db1 (secretKey digest codeUsedPrefix code) decode_code of
                  (db2, Inl e) \<Rightarrow> (db2, Inl e)
                | (db2, Inr v) \<Rightarrow> (db2, Inr (True, v))))"

definition consumeMatchingScript ::
    "'db redis \<Rightarrow> string \<Rightarrow> string \<Rightarrow> string \<Rightarrow> int \<Rightarrow> 'db \<Rightarrow> 'db \<times> script_reply result" where
  "consumeMatchingScript R key1 key2 version usedMillis db =
     (case GET R db key1 of
        None \<Rightarrow>
          (case GET R db key2 of
             None \<Rightarrow> (db, Inr (0, None))
           | Some used \<Rightarrow>
               (if lua_record_version used \<noteq> Some version then (db, Inr (-1, None))
                else (db, Inr (-2, Some used))))
      | Some current \<Rightarrow>
          (if lua_record_version current \<noteq> Some version then (db, Inr (-1, None))
           else (DEL R (SET R db key2 current usedMillis) key1, Inr (1, Some current))))"

text \<open>The payload of a successful script, decoded.\<close>

definition decoded_payload :: "(rvalue \<Rightarrow> 'a option) \<Rightarrow> rvalue option \<Rightarrow> 'a result" where
  "decoded_payload decode payload =
     (case payload of
        None \<Rightarrow> Inl ErrDecode
      | Some v \<Rightarrow> (case decode v of None \<Rightarrow> Inl ErrDecode | Some x \<Rightarrow> Inr x))"

definition consume_code_result :: "script_reply \<Rightarrow> authorization_data result" where
  "consume_code_result r =
     (case r of (status, payload) \<Rightarrow>
        (if status = 0 then Inl ErrNotFound
         else if status = -1 then Inl ErrValueMismatch
         else if status = -2 then Inl ErrAuthorizationCodeReuse
         else if status = 1 then decoded_payload decode_code payload
         else Inl (ErrUnexpected status)))"

definition ConsumeAuthorizationCodeIfMatch ::
    "'db redis \<Rightarrow> (string \<Rightarrow> string) \<Rightarrow> 'db \<Rightarrow> string \<Rightarrow> authorization_data \<Rightarrow> duration \<Rightarrow>
     'db \<times> authorization_data result" where
  "ConsumeAuthorizationCodeIfMatch R digest db code expected usedTTL =
     (if ad_RecordVersion expected = [] then (db, Inl ErrInvalidTokenData)
      else case ttlMilliseconds usedTTL of
             Inl e \<Rightarrow> (db, Inl e)
           | Inr usedMillis \<Rightarrow>
               on_result consume_code_result
                 (call R ErrRedis db
                    (consumeMatchingScript R (secretKey digest codePrefix code)
                       (secretKey digest codeUsedPrefix code) (ad_RecordVersion expected) usedMillis)))"

definition ConsumeAuthorizationCode ::
    "'db redis \<Rightarrow> (string \<Rightarrow> string) \<Rightarrow> 'db \<Rightarrow> string \<Rightarrow> 'db \<times> authorization_data result" where
  "ConsumeAuthorizationCode R digest db code =
     getDelJSON R db (secretKey digest codePrefix code) decode_code"

section \<open>CSRF states\<close>

definition SaveCSRFState ::
    "'db redis \<Rightarrow> (string \<Rightarrow> string) \<Rightarrow> 'db \<Rightarrow> string \<Rightarrow> (string \<times> string) list \<Rightarrow> duration \<Rightarrow>
     'db \<times> unit result" where
  "SaveCSRFState R digest db state data ttl =
     setJSON R db (secretKey digest csrfPrefix state) (VCsrf data) ttl"

definition ConsumeCSRFState ::
    "'db redis \<Rightarrow> (string \<Rightarrow> string) \<Rightarrow> 'db \<Rightarrow> string \<Rightarrow> 'db \<times> (string \<times> string) list result" where
  "ConsumeCSRFState R digest db state = getDelJSON R db (secretKey digest csrfPrefix state) decode_csrf"

section \<open>Consent challenges\<close>

definition SaveConsent ::
    "'db redis \<Rightarrow> (string \<Rightarrow> string) \<Rightarrow> 'db \<Rightarrow> string \<Rightarrow> consent_data \<Rightarrow> duration \<Rightarrow> 'db \<times> unit result" where
  "SaveConsent R digest db challenge data ttl =
     setJSON R db (secretKey digest consentPrefix challenge) (VConsent data) ttl"

definition GetConsent ::
    "'db redis \<Rightarrow> (string \<Rightarrow> string) \<Rightarrow> 'db \<Rightarrow> string \<Rightarrow> 'db \<times> consent_data result" where
  "GetConsent R digest db challenge =
     getJSON R db (secretKey digest consentPrefix challenge) decode_consent"

definition consumeConsentScript ::
    "'db redis \<Rightarrow> string \<Rightarrow> string \<Rightarrow> 'db \<Rightarrow> 'db \<times> script_reply result" where
  "consumeConsentScript R key userID db =
     (case GET R db key of
        None \<Rightarrow> (db, Inr (0, None))
      | Some current \<Rightarrow>
          (if lua_user_id current \<noteq> Some userID then (db, Inr (-1, None))
           else (DEL R db key, Inr (1, Some current))))"

definition consume_consent_result :: "script_reply \<Rightarrow> consent_data result" where
  "consume_consent_result r =
     (case r of (status, payload) \<Rightarrow>
        (if status = 0 then Inl ErrNotFound
         else if status = -1 then Inl ErrConsentUserMismatch
         else if status = 1 then decoded_payload decode_consent payload
         else Inl (ErrUnexpected status)))"

definition ConsumeConsentForUser ::
    "'db redis \<Rightarrow> (string \<Rightarrow> string) \<Rightarrow> 'db \<Rightarrow> string \<Rightarrow> string \<Rightarrow> 'db \<times> consent_data result" where
  "ConsumeConsentForUser R digest db challenge userID =
     on_result consume_consent_result
       (call R ErrRedis db (consumeConsentScript R (secretKey digest consentPrefix challenge) userID))"

definition ConsumeConsent ::
    "'db redis \<Rightarrow> (string \<Rightarrow> string) \<Rightarrow> 'db \<Rightarrow> string \<Rightarrow> 'db \<times> consent_data result" where
  "ConsumeConsent R digest db challenge =
     getDelJSON R db (secretKey digest consentPrefix challenge) decode_consent"

section \<open>OAuth reauthentication states\<close>

definition SaveOAuthReauthentication ::
    "'db redis \<Rightarrow> (string \<Rightarrow> string) \<Rightarrow> 'db \<Rightarrow> string \<Rightarrow> reauthentication_data \<Rightarrow> duration \<Rightarrow>
     'db \<times> unit result" where
  "SaveOAuthReauthentication R digest db token data ttl =
     (if token = [] \<or> rd_RequestURI data = [] \<or> rd_CreatedAt data = 0 then (db, Inl ErrInvalidTokenData)
      else if ttl \<le> 0 then (db, Inl ErrTTL)
      else setJSON R db (secretKey digest oauthReauthenticationPrefix token) (VReauth data) ttl)"

definition ConsumeOAuthReauthentication ::
    "'db redis \<Rightarrow> (string \<Rightarrow> string) \<Rightarrow> 'db \<Rightarrow> string \<Rightarrow> 'db \<times> reauthentication_data result" where
  "ConsumeOAuthReauthentication R digest db token =
     (if token = [] then (db, Inl ErrNotFound)
      else on_result (\<lambda>v. if rd_RequestURI v = [] \<or> rd_CreatedAt v = 0 then Inl ErrInvalidTokenData else Inr v)
             (getDelJSON R db (secretKey digest oauthReauthenticationPrefix token) decode_reauth))"

section \<open>Pending MFA challenges\<close>

definition SaveMFAPending ::
    "'db redis \<Rightarrow> (string \<Rightarrow> string) \<Rightarrow> 'db \<Rightarrow> string \<Rightarrow> mfa_pending_data \<Rightarrow> duration \<Rightarrow> string option \<Rightarrow>
     gotime \<Rightarrow> 'db \<times> mfa_pending_data result" where
  "SaveMFAPending R digest db token data ttl random now =
     (if token = [] \<or> mp_UserID data = [] \<or> mp_Username data = [] \<or> mp_Purpose data = [] \<or>
         mp_PrimaryMethod data = []
      then (db, Inl ErrInvalidTokenData)
      else if ttl \<le> 0 then (db, Inl ErrTTL)
      else if mp_CSRFToken data = [] \<and> random = None then (db, Inl ErrRandom)
      else
        let csrf = (if mp_CSRFToken data = [] then the random else mp_CSRFToken data);
            created = (if mp_CreatedAt data = 0 then now else mp_CreatedAt data);
            data' = data\<lparr>mp_CSRFToken := csrf, mp_CreatedAt := created, mp_ExpiresAt := created + ttl\<rparr>
        in on_result (\<lambda>_. Inr data')
             (setJSON R db (secretKey digest mfaPendingPrefix token) (VMfa data') ttl))"

definition GetMFAPending ::
    "'db redis \<Rightarrow> (string \<Rightarrow> string) \<Rightarrow> 'db \<Rightarrow> string \<Rightarrow> 'db \<times> mfa_pending_data result" where
  "GetMFAPending R digest db token = getJSON R db (secretKey digest mfaPendingPrefix token) decode_mfa"

definition ConsumeMFAPending ::
    "'db redis \<Rightarrow> (string \<Rightarrow> string) \<Rightarrow> 'db \<Rightarrow> string \<Rightarrow> 'db \<times> mfa_pending_data result" where
  "ConsumeMFAPending R digest db token =
     getDelJSON R db (secretKey digest mfaPendingPrefix token) decode_mfa"

definition DeleteMFAPending ::
    "'db redis \<Rightarrow> (string \<Rightarrow> string) \<Rightarrow> 'db \<Rightarrow> string \<Rightarrow> 'db \<times> unit result" where
  "DeleteMFAPending R digest db token = delCounted R db (secretKey digest mfaPendingPrefix token)"

section \<open>WebAuthn ceremonies\<close>

definition SaveWebAuthnCeremony ::
    "'db redis \<Rightarrow> (string \<Rightarrow> string) \<Rightarrow> 'db \<Rightarrow> string \<Rightarrow> webauthn_ceremony_data \<Rightarrow> duration \<Rightarrow> gotime \<Rightarrow>
     'db \<times> webauthn_ceremony_data result" where
  "SaveWebAuthnCeremony R digest db token data ttl now =
     (if token = [] \<or> length (wc_SessionData data) = 0 \<or> wc_Purpose data = []
      then (db, Inl ErrInvalidTokenData)
      else if ttl \<le> 0 then (db, Inl ErrTTL)
      else
        let created = (if wc_CreatedAt data = 0 then now else wc_CreatedAt data);
            data' = data\<lparr>wc_CreatedAt := created, wc_ExpiresAt := created + ttl\<rparr>
        in on_result (\<lambda>_. Inr data')
             (setJSON R db (secretKey digest webAuthnCeremonyPrefix token) (VCeremony data') ttl))"

definition GetWebAuthnCeremony ::
    "'db redis \<Rightarrow> (string \<Rightarrow> string) \<Rightarrow> 'db \<Rightarrow> string \<Rightarrow> 'db \<times> webauthn_ceremony_data result" where
  "GetWebAuthnCeremony R digest db token =
     getJSON R db (secretKey digest webAuthnCeremonyPrefix token) decode_ceremony"

definition ConsumeWebAuthnCeremony ::
    "'db redis \<Rightarrow> (string \<Rightarrow> string) \<Rightarrow> 'db \<Rightarrow> string \<Rightarrow> 'db \<times> webauthn_ceremony_data result" where
  "ConsumeWebAuthnCeremony R digest db token =
     getDelJSON R db (secretKey digest webAuthnCeremonyPrefix token) decode_ceremony"

definition DeleteWebAuthnCeremony ::
    "'db redis \<Rightarrow> (string \<Rightarrow> string) \<Rightarrow> 'db \<Rightarrow> string \<Rightarrow> 'db \<times> unit result" where
  "DeleteWebAuthnCeremony R digest db token =
     delCounted R db (secretKey digest webAuthnCeremonyPrefix token)"

definition consumeWebAuthnAndMFAPendingScript ::
    "'db redis \<Rightarrow> string \<Rightarrow> string \<Rightarrow> rvalue \<Rightarrow> rvalue \<Rightarrow> 'db \<Rightarrow> 'db \<times> int result" where
  "consumeWebAuthnAndMFAPendingScript R key1 key2 ceremonyJSON pendingJSON db =
     (let ceremony = GET R db key1; pending = GET R db key2 in
      if ceremony = None \<or> pending = None then (db, Inr 0)
      else if ceremony \<noteq> Some ceremonyJSON \<or> pending \<noteq> Some pendingJSON then (db, Inr (-1))
      else (del_all R db [key1, key2], Inr 1))"

definition ConsumeWebAuthnCeremonyAndMFAPending ::
    "'db redis \<Rightarrow> (string \<Rightarrow> string) \<Rightarrow> 'db \<Rightarrow> string \<Rightarrow> webauthn_ceremony_data \<Rightarrow> string \<Rightarrow>
     mfa_pending_data \<Rightarrow> 'db \<times> unit result" where
  "ConsumeWebAuthnCeremonyAndMFAPending R digest db ceremonyToken expectedCeremony pendingToken
       expectedPending =
     (if ceremonyToken = [] \<or> pendingToken = [] then (db, Inl ErrInvalidTokenData)
      else on_result (\<lambda>result. if result = 1 then Inr ()
                              else if result = 0 then Inl ErrNotFound
                              else Inl ErrValueMismatch)
             (call R ErrRedis db (consumeWebAuthnAndMFAPendingScript R
                (secretKey digest webAuthnCeremonyPrefix ceremonyToken)
                (secretKey digest mfaPendingPrefix pendingToken)
                (VCeremony expectedCeremony) (VMfa expectedPending))))"

section \<open>Frames\<close>

lemma decoded_payload_Inr: "decoded_payload decode p = Inr x \<longleftrightarrow> (\<exists>v. p = Some v \<and> decode v = Some x)"
  by (auto simp: decoded_payload_def split: option.splits)

context redis_server
begin

lemma writes_consumeMatching:
  assumes "key_class key1 = ''code''" and "key_class key2 = ''code-used''" and "0 < ms"
  shows "writes R {key1, key2} db (fst (consumeMatchingScript R key1 key2 version ms db))"
proof (rule writes_typed)
  assume t: "typed R db"
  have "writes R {key1, key2} db (DEL R (SET R db key2 v ms) key1)" if "GET R db key1 = Some v" for v
  proof (rule writes_trans [OF writes_SET writes_DEL])
    show "value_ok (key_class key2) v"
      using typed_GET [OF t that] assms(1,2) by (simp add: value_ok_cases)
  qed (use assms in simp_all)
  then show "writes R {key1, key2} db (fst (consumeMatchingScript R key1 key2 version ms db))"
    by (auto simp: consumeMatchingScript_def split: option.splits)
qed

lemma writes_consumeConsent: "writes R {key} db (fst (consumeConsentScript R key userID db))"
  by (auto simp: consumeConsentScript_def writes_DEL split: option.splits)

lemma writes_consumeWebAuthn:
  "writes R {key1, key2} db (fst (consumeWebAuthnAndMFAPendingScript R key1 key2 c p db))"
  by (auto simp: consumeWebAuthnAndMFAPendingScript_def Let_def writes_del_all)

lemma evolves_codes:
  "evolves R {secretKey digest codePrefix code} db
     (fst (SaveAuthorizationCode R digest db code data ttl random))"
  "evolves R {secretKey digest codePrefix code, secretKey digest codeUsedPrefix code} db
     (fst (ConsumeAuthorizationCodeIfMatch R digest db code expected ttl))"
  "evolves R {secretKey digest codePrefix code} db (fst (ConsumeAuthorizationCode R digest db code))"
  "evolves R {secretKey digest csrfPrefix state} db (fst (SaveCSRFState R digest db state cs ttl))"
  "evolves R {secretKey digest csrfPrefix state} db (fst (ConsumeCSRFState R digest db state))"
  "evolves R {secretKey digest consentPrefix ch} db (fst (SaveConsent R digest db ch cd ttl))"
  "evolves R {secretKey digest consentPrefix ch} db (fst (ConsumeConsentForUser R digest db ch uid))"
  "evolves R {secretKey digest consentPrefix ch} db (fst (ConsumeConsent R digest db ch))"
  by (auto simp: SaveAuthorizationCode_def ConsumeAuthorizationCodeIfMatch_def ConsumeAuthorizationCode_def
      SaveCSRFState_def ConsumeCSRFState_def SaveConsent_def ConsumeConsentForUser_def ConsumeConsent_def
      value_ok_cases intro!: evolves_setJSON evolves_getDelJSON evolves_call writes_consumeMatching
      writes_consumeConsent split: option.splits sum.splits dest: ttlMilliseconds_pos)

lemma evolves_ceremonies:
  "evolves R {secretKey digest oauthReauthenticationPrefix token} db
     (fst (SaveOAuthReauthentication R digest db token rd ttl))"
  "evolves R {secretKey digest mfaPendingPrefix token} db
     (fst (SaveMFAPending R digest db token mp ttl random now))"
  "evolves R {secretKey digest mfaPendingPrefix token} db (fst (ConsumeMFAPending R digest db token))"
  "evolves R {secretKey digest mfaPendingPrefix token} db (fst (DeleteMFAPending R digest db token))"
  "evolves R {secretKey digest webAuthnCeremonyPrefix token} db
     (fst (SaveWebAuthnCeremony R digest db token wc ttl now))"
  "evolves R {secretKey digest webAuthnCeremonyPrefix token} db
     (fst (ConsumeWebAuthnCeremony R digest db token))"
  "evolves R {secretKey digest webAuthnCeremonyPrefix token} db
     (fst (DeleteWebAuthnCeremony R digest db token))"
  by (simp_all add: SaveOAuthReauthentication_def SaveMFAPending_def ConsumeMFAPending_def
      DeleteMFAPending_def SaveWebAuthnCeremony_def ConsumeWebAuthnCeremony_def
      DeleteWebAuthnCeremony_def Let_def evolves_setJSON evolves_getDelJSON evolves_delCounted value_ok_cases)

lemma evolves_ceremony_pairs:
  "evolves R {secretKey digest oauthReauthenticationPrefix token} db
     (fst (ConsumeOAuthReauthentication R digest db token))"
  "evolves R {secretKey digest webAuthnCeremonyPrefix ct, secretKey digest mfaPendingPrefix pt} db
     (fst (ConsumeWebAuthnCeremonyAndMFAPending R digest db ct wc pt mp))"
  by (simp_all add: ConsumeOAuthReauthentication_def ConsumeWebAuthnCeremonyAndMFAPending_def
      evolves_getDelJSON evolves_call writes_consumeWebAuthn)

lemma evolves_code_reads:
  "evolves R K db (fst (GetConsent R digest db ch))"
  "evolves R K db (fst (GetMFAPending R digest db token))"
  "evolves R K db (fst (GetWebAuthnCeremony R digest db token))"
  by (simp_all add: GetConsent_def GetMFAPending_def GetWebAuthnCeremony_def evolves_getJSON)

lemma evolves_GetAuthorizationCode: "evolves R K db (fst (GetAuthorizationCode R digest db code))"
proof -
  obtain db1 r where 1: "getJSON R db (secretKey digest codePrefix code) decode_code = (db1, r)"
    by (cases "getJSON R db (secretKey digest codePrefix code) decode_code")
  obtain db2 r2 where 2: "getJSON R db1 (secretKey digest codeUsedPrefix code) decode_code = (db2, r2)"
    by (cases "getJSON R db1 (secretKey digest codeUsedPrefix code) decode_code")
  have e: "evolves R K db db1" "evolves R K db1 db2"
    using evolves_getJSON [of K] 1 2 by (metis fst_conv)+
  then show ?thesis
    using evolves_trans [OF e]
    by (simp add: GetAuthorizationCode_def 1 2 split: sum.splits)
qed

section \<open>Consumption\<close>

lemma consume_code_Inr:
  assumes "ConsumeAuthorizationCodeIfMatch R digest db code expected ttl = (db', Inr d)"
  shows "GET R db (secretKey digest codePrefix code) = Some (VCode d)"
    and "ad_RecordVersion d = ad_RecordVersion expected"
    and "GET R db' (secretKey digest codePrefix code) = None"
    and "GET R db' (secretKey digest codeUsedPrefix code) = Some (VCode d)"
proof -
  let ?c = "secretKey digest codePrefix code" and ?u = "secretKey digest codeUsedPrefix code"
  have ne: "?c \<noteq> ?u" by (simp add: key_simps)
  obtain ms st p where ms: "0 < ms" and
    run: "call R ErrRedis db (consumeMatchingScript R ?c ?u (ad_RecordVersion expected) ms) = (db', Inr (st, p))"
      "consume_code_result (st, p) = Inr d"
    using assms by (auto simp: ConsumeAuthorizationCodeIfMatch_def on_result_Inr
        split: if_splits sum.splits dest: ttlMilliseconds_pos)
  have st: "st = 1" "p = Some (VCode d)"
    using run(2) by (auto simp: consume_code_result_def decoded_payload_Inr split: if_splits)
  let ?db = "snd (LINK R db)"
  have g: "GET R ?db ?c = Some (VCode d)" "ad_RecordVersion d = ad_RecordVersion expected"
    "db' = DEL R (SET R ?db ?u (VCode d) ms) ?c"
    using call_Inr [OF run(1)] st by (auto simp: consumeMatchingScript_def split: option.splits if_splits)
  show "GET R db ?c = Some (VCode d)" using LINK_GET_Some g(1) .
  show "ad_RecordVersion d = ad_RecordVersion expected" by (rule g(2))
  show "GET R db' ?c = None" "GET R db' ?u = Some (VCode d)"
    using g(3) ms ne by (auto simp: DEL_obs SET_obs)
qed

lemma consent_outcome:
  assumes "ConsumeConsentForUser R h db ch u = (db', Inr d)"
  shows "GET R db (secretKey h consentPrefix ch) = Some (VConsent d)" and "cd_UserID d = u"
    and "GET R db' (secretKey h consentPrefix ch) = None"
proof -
  let ?k = "secretKey h consentPrefix ch" and ?d = "snd (LINK R db)"
  obtain st p where c: "consumeConsentScript R ?k u ?d = (db', Inr (st, p))" "consume_consent_result (st, p) = Inr d"
    using assms by (auto simp: ConsumeConsentForUser_def on_result_Inr dest!: call_Inr)
  then have "GET R ?d ?k = Some (VConsent d)" "cd_UserID d = u" "db' = DEL R ?d ?k"
    by (auto simp: consumeConsentScript_def consume_consent_result_def decoded_payload_Inr
        split: option.splits if_splits)
  then show "GET R db ?k = Some (VConsent d)" "cd_UserID d = u" "GET R db' ?k = None"
    using LINK_GET_Some [of db ?k] by (simp_all add: DEL_obs)
qed

end

end
