(* ===== verification/Session_Refresh.thy ===== *)
theory Session_Refresh
  imports Session_Base Session_Codes
begin

text \<open>
  Access and refresh token records of \<open>internal/session/store.go\<close>: storing, rotation, reuse
  detection and the revocation of token families. A family is the set of the keys of its live
  refresh and access records, under \<open>refresh-family:\<close> and its key; a user's families are listed
  under \<open>user-refresh-families:\<close>; a revoked family leaves a marker under
  \<open>refresh-revoked:\<close> that stops later writers.
\<close>

abbreviation family_set :: "string \<Rightarrow> string" where
  "family_set fk \<equiv> refreshFamilyPrefix @ fk"

abbreviation revoked_marker :: "string \<Rightarrow> string" where
  "revoked_marker fk \<equiv> refreshRevokedPrefix @ fk"

section \<open>Access token records\<close>

definition SaveToken ::
    "'db redis \<Rightarrow> (string \<Rightarrow> string) \<Rightarrow> 'db \<Rightarrow> string \<Rightarrow> token_data \<Rightarrow> duration \<Rightarrow> 'db \<times> unit result" where
  "SaveToken R digest db tokenID data ttl =
     setJSON R db (secretKey digest tokenPrefix tokenID) (VToken (json_token data)) ttl"

definition saveFamilyTokenScript ::
    "'db redis \<Rightarrow> string \<Rightarrow> string \<Rightarrow> string \<Rightarrow> rvalue \<Rightarrow> int \<Rightarrow> 'db \<Rightarrow> 'db \<times> int result" where
  "saveFamilyTokenScript R key1 key2 key3 encoded ms db =
     (if EXISTS R db key3 then (db, Inr 0)
      else (raise_ttl R (SADD R (SET R db key1 encoded ms) key2 key1) key2 ms, Inr 1))"

definition SaveTokenForRefreshFamily ::
    "'db redis \<Rightarrow> (string \<Rightarrow> string) \<Rightarrow> 'db \<Rightarrow> string \<Rightarrow> token_data \<Rightarrow> string \<Rightarrow> duration \<Rightarrow>
     'db \<times> unit result" where
  "SaveTokenForRefreshFamily R digest db tokenID data familyKey ttl =
     (if familyKey = [] then (db, Inl ErrInvalidTokenData)
      else case ttlMilliseconds ttl of
             Inl e \<Rightarrow> (db, Inl e)
           | Inr ms \<Rightarrow>
               on_result (\<lambda>result. if result = 0 then Inl ErrRefreshFamilyRevoked else Inr ())
                 (call R ErrRedis db
                    (saveFamilyTokenScript R (secretKey digest tokenPrefix tokenID)
                       (family_set familyKey) (revoked_marker familyKey)
                       (VToken (json_token (data\<lparr>td_FamilyKey := familyKey\<rparr>))) ms)))"

definition GetToken ::
    "'db redis \<Rightarrow> (string \<Rightarrow> string) \<Rightarrow> 'db \<Rightarrow> string \<Rightarrow> 'db \<times> token_data result" where
  "GetToken R digest db tokenID = getJSON R db (secretKey digest tokenPrefix tokenID) decode_token"

definition RevokeToken ::
    "'db redis \<Rightarrow> (string \<Rightarrow> string) \<Rightarrow> 'db \<Rightarrow> string \<Rightarrow> 'db \<times> unit result" where
  "RevokeToken R digest db tokenID = delCounted R db (secretKey digest tokenPrefix tokenID)"

section \<open>Refresh token records\<close>

text \<open>The record that \<open>SaveRefreshToken\<close> completes through the pointer it is given.\<close>

definition refresh_record :: "(string \<Rightarrow> string) \<Rightarrow> token_data \<Rightarrow> string option \<Rightarrow> token_data result" where
  "refresh_record digest data random =
     (if td_UserID data = [] then Inl ErrInvalidTokenData
      else if td_FamilyID data = [] \<and> random = None then Inl ErrRandom
      else
        let familyID = (if td_FamilyID data = [] then the random else td_FamilyID data);
            familyKey = (if td_FamilyKey data = [] then digest familyID else td_FamilyKey data)
        in Inr (data\<lparr>td_FamilyID := familyID, td_FamilyKey := familyKey,
                     td_UserKey := digest (td_UserID data), td_TokenUse := ''refresh''\<rparr>))"

definition save_refresh_tx ::
    "'db redis \<Rightarrow> string \<Rightarrow> string \<Rightarrow> string \<Rightarrow> string \<Rightarrow> rvalue \<Rightarrow> duration \<Rightarrow> 'db \<Rightarrow> 'db" where
  "save_refresh_tx R tokenKey familySet userFamilies familyKey encoded ttl db =
     (let db1 = go_set R db tokenKey encoded ttl;
          db2 = SADD R db1 familySet tokenKey;
          db3 = go_expire R db2 familySet ttl;
          db4 = SADD R db3 userFamilies familyKey
      in go_expire R db4 userFamilies ttl)"

definition SaveRefreshToken ::
    "'db redis \<Rightarrow> (string \<Rightarrow> string) \<Rightarrow> 'db \<Rightarrow> string \<Rightarrow> token_data \<Rightarrow> duration \<Rightarrow> string option \<Rightarrow>
     'db \<times> token_data result" where
  "SaveRefreshToken R digest db token data ttl random =
     (case refresh_record digest data random of
        Inl e \<Rightarrow> (db, Inl e)
      | Inr data' \<Rightarrow>
          call R ErrRedis db
            (committed
               (save_refresh_tx R (secretKey digest refreshPrefix token) (family_set (td_FamilyKey data'))
                  (userRefreshFamiliesPrefix @ digest (td_UserID data')) (td_FamilyKey data')
                  (VToken (json_token data')) ttl)
               data'))"

definition GetRefreshToken ::
    "'db redis \<Rightarrow> (string \<Rightarrow> string) \<Rightarrow> 'db \<Rightarrow> string \<Rightarrow> 'db \<times> token_data result" where
  "GetRefreshToken R digest db token = getJSON R db (secretKey digest refreshPrefix token) decode_token"

text \<open>The record of a live refresh token, or of a used one (\<^const>\<open>True\<close>).\<close>

definition GetRefreshTokenState ::
    "'db redis \<Rightarrow> (string \<Rightarrow> string) \<Rightarrow> 'db \<Rightarrow> string \<Rightarrow> 'db \<times> (token_data \<times> bool) result" where
  "GetRefreshTokenState R digest db token =
     (case getJSON R db (refreshPrefix @ digest token) decode_token of
        (db1, Inr v) \<Rightarrow> (db1, Inr (v, False))
      | (db1, Inl e) \<Rightarrow>
          (if e \<noteq> ErrNotFound then (db1, Inl e)
           else on_result (\<lambda>v. Inr (v, True))
                  (getJSON R db1 (refreshUsedPrefix @ digest token) decode_token)))"

section \<open>Rotation\<close>

text \<open>Deleting the live records of a family and its set.\<close>

definition drop_family :: "'db redis \<Rightarrow> 'db \<Rightarrow> string \<Rightarrow> 'db" where
  "drop_family R db familyKey =
     DEL R (del_all R db (SMEMBERS R db (family_set familyKey))) (family_set familyKey)"

text \<open>The local function \<open>revokeFamily\<close> of both rotation scripts.\<close>

definition revokeFamily ::
    "'db redis \<Rightarrow> string \<Rightarrow> int \<Rightarrow> rvalue \<Rightarrow> 'db \<Rightarrow> 'db \<times> script_reply result" where
  "revokeFamily R userFamilies ttl encoded db =
     (case lua_family_key encoded of
        None \<Rightarrow> (db, Inr (-2, None))
      | Some familyKey \<Rightarrow>
          let db1 = drop_family R db familyKey;
              db2 = SREM R db1 userFamilies familyKey;
              db3 = del_if_empty R db2 userFamilies
          in (SET R db3 (revoked_marker familyKey) (VText ''1'') ttl, Inr (-1, Some encoded)))"

definition rotateRefreshScript ::
    "'db redis \<Rightarrow> string \<Rightarrow> string \<Rightarrow> string \<Rightarrow> string \<Rightarrow> int \<Rightarrow> rvalue \<Rightarrow> 'db \<Rightarrow>
     'db \<times> script_reply result" where
  "rotateRefreshScript R key1 key2 key3 userFamilies ttl expected db =
     (case GET R db key1 of
        None \<Rightarrow>
          (case GET R db key3 of
             None \<Rightarrow> (db, Inr (0, None))
           | Some used \<Rightarrow>
               (if used \<noteq> expected then (db, Inr (-3, None))
                else revokeFamily R userFamilies ttl used db))
      | Some current \<Rightarrow>
          (if current \<noteq> expected then (db, Inr (-3, None))
           else case lua_family_key current of
                  None \<Rightarrow> (db, Inr (-2, None))
                | Some familyKey \<Rightarrow>
                    (if EXISTS R db (revoked_marker familyKey)
                     then revokeFamily R userFamilies ttl current db
                     else
                       let db1 = SET R db key2 current ttl;
                           db2 = SADD R db1 (family_set familyKey) key2;
                           db3 = SREM R db2 (family_set familyKey) key1;
                           db4 = PEXPIRE R db3 (family_set familyKey) ttl;
                           db5 = SADD R db4 userFamilies familyKey;
                           db6 = raise_ttl R db5 userFamilies ttl;
                           db7 = DEL R db6 key1
                       in (SET R db7 key3 current ttl, Inr (1, Some current)))))"

definition rotateRefreshWithAccessScript ::
    "'db redis \<Rightarrow> string \<Rightarrow> string \<Rightarrow> string \<Rightarrow> string \<Rightarrow> string \<Rightarrow> int \<Rightarrow> int \<Rightarrow> rvalue \<Rightarrow> rvalue \<Rightarrow> 'db \<Rightarrow>
     'db \<times> script_reply result" where
  "rotateRefreshWithAccessScript R key1 key2 key3 key4 userFamilies refreshTTL accessTTL expected access db =
     (case GET R db key1 of
        None \<Rightarrow>
          (case GET R db key3 of
             None \<Rightarrow> (db, Inr (0, None))
           | Some used \<Rightarrow>
               (if used \<noteq> expected then (db, Inr (-3, None))
                else revokeFamily R userFamilies refreshTTL used db))
      | Some current \<Rightarrow>
          (if current \<noteq> expected then (db, Inr (-3, None))
           else case lua_family_key current of
                  None \<Rightarrow> (db, Inr (-2, None))
                | Some familyKey \<Rightarrow>
                    (if EXISTS R db (revoked_marker familyKey)
                     then revokeFamily R userFamilies refreshTTL current db
                     else
                       let db1 = SET R db key2 current refreshTTL;
                           db2 = SET R db1 key4 access accessTTL;
                           db3 = SADD R (SADD R db2 (family_set familyKey) key2) (family_set familyKey) key4;
                           db4 = SREM R db3 (family_set familyKey) key1;
                           db5 = PEXPIRE R db4 (family_set familyKey) (max refreshTTL accessTTL);
                           db6 = SADD R db5 userFamilies familyKey;
                           db7 = raise_ttl R db6 userFamilies refreshTTL;
                           db8 = DEL R db7 key1
                       in (SET R db8 key3 current refreshTTL, Inr (1, Some current)))))"

definition decodeRefreshRotationResult :: "script_reply \<Rightarrow> token_data result" where
  "decodeRefreshRotationResult r =
     (case r of (status, payload) \<Rightarrow>
        (if status = 0 then Inl ErrNotFound
         else if status = -1 then Inl ErrRefreshTokenReuse
         else if status = -2 then Inl ErrInvalidTokenData
         else if status = -3 then Inl ErrTokenBindingMismatch
         else if status = 1 then decoded_payload decode_token payload
         else Inl (ErrUnexpected status)))"

definition RotateRefreshToken ::
    "'db redis \<Rightarrow> (string \<Rightarrow> string) \<Rightarrow> 'db \<Rightarrow> string \<Rightarrow> string \<Rightarrow> token_data \<Rightarrow> duration \<Rightarrow>
     'db \<times> token_data result" where
  "RotateRefreshToken R digest db oldToken newToken expected ttl =
     (if td_UserID expected = [] \<or> td_FamilyKey expected = [] \<or> oldToken = [] \<or> newToken = [] \<or>
         oldToken = newToken
      then (db, Inl ErrInvalidTokenData)
      else case ttlMilliseconds ttl of
             Inl e \<Rightarrow> (db, Inl e)
           | Inr ms \<Rightarrow>
               on_result decodeRefreshRotationResult
                 (call R ErrRedis db
                    (rotateRefreshScript R (refreshPrefix @ digest oldToken)
                       (secretKey digest refreshPrefix newToken) (refreshUsedPrefix @ digest oldToken)
                       (userRefreshFamiliesPrefix @ digest (td_UserID expected)) ms
                       (VToken (json_token expected)))))"

fun equalTokenScopes :: "string list \<Rightarrow> string list \<Rightarrow> bool" where
  "equalTokenScopes [] [] = True"
| "equalTokenScopes (l # ls) (r # rs) = (l = r \<and> equalTokenScopes ls rs)"
| "equalTokenScopes _ _ = False"

definition RotateRefreshTokenAndStoreAccess ::
    "'db redis \<Rightarrow> (string \<Rightarrow> string) \<Rightarrow> 'db \<Rightarrow> string \<Rightarrow> string \<Rightarrow> string \<Rightarrow> token_data \<Rightarrow> token_data \<Rightarrow>
     duration \<Rightarrow> duration \<Rightarrow> 'db \<times> token_data result" where
  "RotateRefreshTokenAndStoreAccess R digest db oldToken newToken accessTokenID expected access
       refreshTTL accessTTL =
     (if td_UserID expected = [] \<or> td_ClientID expected = [] \<or> td_FamilyKey expected = [] \<or>
         td_TokenUse expected \<noteq> ''refresh'' \<or> \<not> equalTokenScopes (td_Scopes access) (td_Scopes expected) \<or>
         oldToken = [] \<or> newToken = [] \<or> oldToken = newToken \<or> accessTokenID = [] \<or>
         td_UserID access \<noteq> td_UserID expected \<or> td_ClientID access \<noteq> td_ClientID expected \<or>
         td_AuthVersion access \<noteq> td_AuthVersion expected \<or>
         td_AuthorizationIssuedAt access \<noteq> td_AuthorizationIssuedAt expected
      then (db, Inl ErrInvalidTokenData)
      else case ttlMilliseconds refreshTTL of
             Inl e \<Rightarrow> (db, Inl e)
           | Inr refreshMillis \<Rightarrow>
               (case ttlMilliseconds accessTTL of
                  Inl e \<Rightarrow> (db, Inl e)
                | Inr accessMillis \<Rightarrow>
                    on_result decodeRefreshRotationResult
                      (call R ErrRedis db
                         (rotateRefreshWithAccessScript R (refreshPrefix @ digest oldToken)
                            (secretKey digest refreshPrefix newToken) (refreshUsedPrefix @ digest oldToken)
                            (secretKey digest tokenPrefix accessTokenID)
                            (userRefreshFamiliesPrefix @ digest (td_UserID expected))
                            refreshMillis accessMillis (VToken (json_token expected))
                            (VToken (json_token (access\<lparr>td_TokenUse := ''access'',
                                                        td_FamilyKey := td_FamilyKey expected\<rparr>)))))))"

section \<open>Revocation\<close>

definition revokeRefreshForClientScript ::
    "'db redis \<Rightarrow> string \<Rightarrow> string \<Rightarrow> int \<Rightarrow> string \<Rightarrow> 'db \<Rightarrow> 'db \<times> int result" where
  "revokeRefreshForClientScript R key1 key2 ttl expectedClient db =
     (case (case GET R db key1 of Some encoded \<Rightarrow> Some encoded | None \<Rightarrow> GET R db key2) of
        None \<Rightarrow> (db, Inr 0)
      | Some encoded \<Rightarrow>
          (if lua_client_id encoded \<noteq> Some expectedClient \<or> lua_token_use encoded \<noteq> Some ''refresh''
           then (db, Inr (-1))
           else case (lua_family_key encoded, lua_user_key encoded) of
                  (Some familyKey, Some userKey) \<Rightarrow>
                    let userFamilies = userRefreshFamiliesPrefix @ userKey;
                        db1 = drop_family R db familyKey;
                        db2 = SREM R db1 userFamilies familyKey;
                        db3 = del_if_empty R db2 userFamilies
                    in (SET R db3 (revoked_marker familyKey) (VText ''1'') ttl, Inr 1)
                | _ \<Rightarrow> (db, Inr (-2))))"

definition RevokeRefreshTokenForClient ::
    "'db redis \<Rightarrow> (string \<Rightarrow> string) \<Rightarrow> 'db \<Rightarrow> string \<Rightarrow> string \<Rightarrow> duration \<Rightarrow> 'db \<times> unit result" where
  "RevokeRefreshTokenForClient R digest db token clientID ttl =
     (case ttlMilliseconds ttl of
        Inl e \<Rightarrow> (db, Inl e)
      | Inr ms \<Rightarrow>
          on_result (\<lambda>result. if result = 0 then Inl ErrNotFound
                              else if result = -1 then Inl ErrTokenBindingMismatch
                              else if result = -2 then Inl ErrInvalidTokenData
                              else if result = 1 then Inr ()
                              else Inl (ErrUnexpected result))
            (call R ErrRedis db
               (revokeRefreshForClientScript R (refreshPrefix @ digest token)
                  (refreshUsedPrefix @ digest token) ms clientID)))"

definition revokeFamilyScript ::
    "'db redis \<Rightarrow> string \<Rightarrow> int \<Rightarrow> 'db \<Rightarrow> 'db \<times> int result" where
  "revokeFamilyScript R familyKey ms db =
     (SET R (drop_family R db familyKey) (revoked_marker familyKey) (VText ''1'') ms,
      Inr (int (length (SMEMBERS R db (family_set familyKey)))))"

definition revokeFamilyKey ::
    "'db redis \<Rightarrow> 'db \<Rightarrow> string \<Rightarrow> duration \<Rightarrow> 'db \<times> unit result" where
  "revokeFamilyKey R db familyKey ttl =
     (case ttlMilliseconds ttl of
        Inl e \<Rightarrow> (db, Inl e)
      | Inr ms \<Rightarrow> on_result (\<lambda>_. Inr ()) (call R ErrRedis db (revokeFamilyScript R familyKey ms)))"

definition RevokeRefreshFamily ::
    "'db redis \<Rightarrow> (string \<Rightarrow> string) \<Rightarrow> 'db \<Rightarrow> string \<Rightarrow> duration \<Rightarrow> 'db \<times> unit result" where
  "RevokeRefreshFamily R digest db familyID ttl = revokeFamilyKey R db (digest familyID) ttl"

definition revokeUserRefreshFamiliesScript ::
    "'db redis \<Rightarrow> string \<Rightarrow> int \<Rightarrow> 'db \<Rightarrow> 'db \<times> int result" where
  "revokeUserRefreshFamiliesScript R key ms db =
     (let families = SMEMBERS R db key;
          db1 = fold (\<lambda>familyKey d. SET R (drop_family R d familyKey) (revoked_marker familyKey) (VText ''1'') ms)
                  families db
      in (DEL R db1 key, Inr (int (length families))))"

definition RevokeRefreshFamiliesForUser ::
    "'db redis \<Rightarrow> (string \<Rightarrow> string) \<Rightarrow> 'db \<Rightarrow> string \<Rightarrow> duration \<Rightarrow> 'db \<times> int result" where
  "RevokeRefreshFamiliesForUser R digest db userID ttl =
     (if userID = [] then (db, Inl ErrInvalidTokenData)
      else case ttlMilliseconds ttl of
             Inl e \<Rightarrow> (db, Inl e)
           | Inr ms \<Rightarrow>
               call R ErrRedis db
                 (revokeUserRefreshFamiliesScript R (userRefreshFamiliesPrefix @ digest userID) ms))"

text \<open>The inner loop over the members of one family: expired members leave the set, and the
  first record issued before the minimum version ends the loop.\<close>

fun stale_member_loop ::
    "'db redis \<Rightarrow> string \<Rightarrow> int \<Rightarrow> string list \<Rightarrow> 'db \<Rightarrow> 'db \<times> bool" where
  "stale_member_loop R familySet minimum [] db = (db, False)"
| "stale_member_loop R familySet minimum (m # ms) db =
     (case GET R db m of
        Some encoded \<Rightarrow>
          (case lua_auth_version encoded of
             None \<Rightarrow> (db, True)
           | Some authVersion \<Rightarrow>
               (if authVersion < minimum then (db, True)
                else stale_member_loop R familySet minimum ms db))
      | None \<Rightarrow> stale_member_loop R familySet minimum ms (SREM R db familySet m))"

definition stale_family_step ::
    "'db redis \<Rightarrow> string \<Rightarrow> int \<Rightarrow> int \<Rightarrow> string \<Rightarrow> 'db \<times> int \<Rightarrow> 'db \<times> int" where
  "stale_family_step R key minimum ms familyKey st =
     (case st of (db, revoked) \<Rightarrow>
        let familySet = family_set familyKey; members = SMEMBERS R db familySet in
        if members = [] then (SREM R (DEL R db familySet) key familyKey, revoked)
        else case stale_member_loop R familySet minimum members db of
               (db1, True) \<Rightarrow>
                 (SET R (SREM R (drop_family R db1 familyKey) key familyKey)
                    (revoked_marker familyKey) (VText ''1'') ms, revoked + 1)
             | (db1, False) \<Rightarrow>
                 (if SCARD R db1 familySet = 0
                  then (SREM R (DEL R db1 familySet) key familyKey, revoked)
                  else (db1, revoked)))"

definition revokeUserRefreshFamiliesBeforeAuthVersionScript ::
    "'db redis \<Rightarrow> string \<Rightarrow> int \<Rightarrow> int \<Rightarrow> 'db \<Rightarrow> 'db \<times> int result" where
  "revokeUserRefreshFamiliesBeforeAuthVersionScript R key minimum ms db =
     (case fold (stale_family_step R key minimum ms) (SMEMBERS R db key) (db, 0) of
        (db1, revoked) \<Rightarrow> (del_if_empty R db1 key, Inr revoked))"

definition RevokeRefreshFamiliesBeforeAuthVersion ::
    "'db redis \<Rightarrow> (string \<Rightarrow> string) \<Rightarrow> 'db \<Rightarrow> string \<Rightarrow> int \<Rightarrow> duration \<Rightarrow> 'db \<times> int result" where
  "RevokeRefreshFamiliesBeforeAuthVersion R digest db userID minimumAuthVersion ttl =
     (if userID = [] \<or> minimumAuthVersion \<le> 0 then (db, Inl ErrInvalidTokenData)
      else case ttlMilliseconds ttl of
             Inl e \<Rightarrow> (db, Inl e)
           | Inr ms \<Rightarrow>
               call R ErrRedis db
                 (revokeUserRefreshFamiliesBeforeAuthVersionScript R
                    (userRefreshFamiliesPrefix @ digest userID) minimumAuthVersion ms))"

section \<open>Frames\<close>

definition refresh_keys :: "string set" where
  "refresh_keys = {k. key_class k \<in> {''token'', ''refresh'', ''refresh-used'', ''refresh-family'',
                                    ''refresh-revoked'', ''user-refresh-families''}}"

lemma in_refresh_keys [simp]: "k \<in> refresh_keys \<longleftrightarrow>
    key_class k = ''token'' \<or> key_class k = ''refresh'' \<or> key_class k = ''refresh-used'' \<or>
    key_class k = ''refresh-family'' \<or> key_class k = ''refresh-revoked'' \<or>
    key_class k = ''user-refresh-families''"
  by (simp add: refresh_keys_def)

context redis_server
begin

lemma writes_drop_family: "writes R refresh_keys db (drop_family R db fk)"
proof (rule writes_typed)
  assume t: "typed R db"
  have "m \<in> members R db (family_set fk) \<Longrightarrow> m \<in> refresh_keys" for m
    using typed_member [OF t, of m "family_set fk"] by (auto simp: member_ok_def)
  then show "writes R refresh_keys db (drop_family R db fk)"
    unfolding drop_family_def by (intro writes_chain) auto
qed

lemmas refresh_chain = writes_chain writes_drop_family [THEN [2] writes_trans]

lemma writes_marker: "0 < ms \<Longrightarrow> writes R refresh_keys db (SET R db (revoked_marker fk) (VText t) ms)"
  by (rule writes_SET) (simp_all add: value_ok_cases)

text \<open>Dropping a family, taking it off the user's list and marking it revoked.\<close>

lemma writes_revocation:
  assumes "0 < ms" and "key_class uf = ''user-refresh-families''"
  shows "writes R refresh_keys db
    (SET R (del_if_empty R (SREM R (drop_family R db fk) uf fk) uf) (revoked_marker fk) (VText t) ms)"
  by (intro refresh_chain) (use assms in \<open>simp_all add: value_ok_cases\<close>)

lemma writes_revokeFamily:
  "0 < ttl \<Longrightarrow> key_class uf = ''user-refresh-families'' \<Longrightarrow>
   writes R refresh_keys db (fst (revokeFamily R uf ttl enc db))"
  by (simp add: revokeFamily_def Let_def writes_revocation split: option.splits)

lemma writes_rotateRefresh:
  assumes cls: "key_class key1 = ''refresh''" "key_class key2 = ''refresh''" "key_class key3 = ''refresh-used''"
      "key_class uf = ''user-refresh-families''"
    and pos: "0 < rt" and expected: "expected = VToken t"
  shows "writes R refresh_keys db (fst (rotateRefreshScript R key1 key2 key3 uf rt expected db))"
proof -
  have "writes R refresh_keys db (SET R (DEL R (raise_ttl R (SADD R (PEXPIRE R (SREM R
      (SADD R (SET R db key2 expected rt) (family_set fk) key2)
        (family_set fk) key1) (family_set fk) rt) uf fk) uf rt) key1) key3 expected rt)" for fk
    by (intro refresh_chain) (use assms in \<open>simp_all add: value_ok_cases member_ok_def\<close>)
  then show ?thesis
    using writes_revokeFamily [OF pos cls(4)]
    by (simp add: rotateRefreshScript_def Let_def split: option.splits)
qed

lemma writes_rotateRefreshWithAccess:
  assumes cls: "key_class key1 = ''refresh''" "key_class key2 = ''refresh''" "key_class key3 = ''refresh-used''"
      "key_class key4 = ''token''" "key_class uf = ''user-refresh-families''"
    and pos: "0 < rt" "0 < at" and vals: "expected = VToken t" "access = VToken a"
  shows "writes R refresh_keys db
    (fst (rotateRefreshWithAccessScript R key1 key2 key3 key4 uf rt at expected access db))"
proof -
  have "writes R refresh_keys db (SET R (DEL R (raise_ttl R (SADD R (PEXPIRE R (SREM R
      (SADD R (SADD R (SET R (SET R db key2 expected rt) key4 access at) (family_set fk) key2)
        (family_set fk) key4) (family_set fk) key1) (family_set fk) (max rt at)) uf fk) uf rt) key1)
      key3 expected rt)" for fk
    by (intro refresh_chain) (use assms in \<open>simp_all add: value_ok_cases member_ok_def\<close>)
  then show ?thesis
    using writes_revokeFamily [OF pos(1) cls(5)]
    by (simp add: rotateRefreshWithAccessScript_def Let_def split: option.splits)
qed

lemma writes_revocations:
  assumes "0 < ms"
  shows "writes R refresh_keys db (fst (revokeRefreshForClientScript R key1 key2 ms c db))"
    and "writes R refresh_keys db (fst (revokeFamilyScript R fk ms db))"
    and "key_class uf = ''user-refresh-families'' \<Longrightarrow>
      writes R refresh_keys db (fst (revokeUserRefreshFamiliesScript R uf ms db))"
proof -
  show "writes R refresh_keys db (fst (revokeRefreshForClientScript R key1 key2 ms c db))"
    using writes_revocation [OF assms]
    by (simp add: revokeRefreshForClientScript_def Let_def split: option.splits)
  have drop: "writes R refresh_keys d (SET R (drop_family R d fk) (revoked_marker fk) (VText ''1'') ms)" for d fk
    by (intro refresh_chain) (use assms in \<open>simp_all add: value_ok_cases\<close>)
  then show "writes R refresh_keys db (fst (revokeFamilyScript R fk ms db))"
    by (simp add: revokeFamilyScript_def)
  assume "key_class uf = ''user-refresh-families''"
  then show "writes R refresh_keys db (fst (revokeUserRefreshFamiliesScript R uf ms db))"
    using drop
    by (auto simp: revokeUserRefreshFamiliesScript_def Let_def
        intro!: writes_trans [OF writes_fold writes_DEL])
qed

lemma writes_stale_member_loop:
  "key_class fs = ''refresh-family'' \<Longrightarrow> writes R refresh_keys db (fst (stale_member_loop R fs mn ms db))"
proof (induction ms arbitrary: db)
  case (Cons m ms)
  have "writes R refresh_keys db (SREM R db fs m)" using Cons.prems by (simp add: writes_SREM)
  then show ?case
    using Cons writes_trans [of R refresh_keys db "SREM R db fs m"]
    by (simp split: option.splits)
qed simp

lemma writes_stale_family_step:
  assumes "0 < ms" and "key_class uf = ''user-refresh-families''"
  shows "writes R refresh_keys (fst st) (fst (stale_family_step R uf mn ms fk st))"
proof -
  obtain db n where st: "st = (db, n)" by (cases st)
  obtain db1 b where loop:
    "stale_member_loop R (family_set fk) mn (SMEMBERS R db (family_set fk)) db = (db1, b)"
    by (cases "stale_member_loop R (family_set fk) mn (SMEMBERS R db (family_set fk)) db")
  have w: "writes R refresh_keys db db1"
    using writes_stale_member_loop [of "family_set fk" db mn "SMEMBERS R db (family_set fk)"]
    by (simp add: loop)
  have "writes R refresh_keys db
      (SET R (SREM R (drop_family R db1 fk) uf fk) (revoked_marker fk) (VText ''1'') ms)"
    by (intro refresh_chain w) (use assms in \<open>simp_all add: value_ok_cases\<close>)
  moreover have "writes R refresh_keys d (SREM R (DEL R d (family_set fk)) uf fk)" for d
    by (intro refresh_chain) (use assms in simp_all)
  ultimately show ?thesis
    using w writes_trans [OF w] by (cases b) (simp_all add: stale_family_step_def Let_def st loop)
qed

lemma writes_revokeBefore:
  assumes "0 < ms" and "key_class uf = ''user-refresh-families''"
  shows "writes R refresh_keys db
    (fst (revokeUserRefreshFamiliesBeforeAuthVersionScript R uf mn ms db))"
proof -
  let ?s = "fold (stale_family_step R uf mn ms) (SMEMBERS R db uf) (db, 0)"
  have "writes R refresh_keys (fst (db, 0 :: int)) (fst ?s)"
    by (rule writes_fold_fst) (rule writes_stale_family_step [OF assms])
  then have "writes R refresh_keys db (del_if_empty R (fst ?s) uf)"
    by (intro writes_trans [OF _ writes_del_if_empty]) (use assms in simp_all)
  then show ?thesis
    by (simp add: revokeUserRefreshFamiliesBeforeAuthVersionScript_def case_prod_unfold)
qed

lemma writes_save_refresh:
  assumes "key_class tk = ''refresh''" and "key_class uf = ''user-refresh-families''"
  shows "writes R refresh_keys db (save_refresh_tx R tk (family_set fk) uf fk (VToken t) ttl db)"
  unfolding save_refresh_tx_def Let_def
  by (intro refresh_chain writes_go_set [THEN [2] writes_trans] writes_go_expire [THEN [2] writes_trans])
     (use assms in \<open>simp_all add: value_ok_cases member_ok_def\<close>)

lemma writes_saveFamilyToken:
  assumes "key_class tk = ''token''" and "0 < ms"
  shows "writes R refresh_keys db (fst (saveFamilyTokenScript R tk (family_set fk) mk (VToken t) ms db))"
  unfolding saveFamilyTokenScript_def
  by (simp, intro conjI impI refresh_chain) (use assms in \<open>simp_all add: value_ok_cases member_ok_def\<close>)

lemma evolves_refresh:
  "evolves R refresh_keys db (fst (SaveToken R digest db tid data ttl))"
  "evolves R refresh_keys db (fst (SaveTokenForRefreshFamily R digest db tid data fk ttl))"
  "evolves R refresh_keys db (fst (RevokeToken R digest db tid))"
  "evolves R refresh_keys db (fst (SaveRefreshToken R digest db tok data ttl random))"
  "evolves R refresh_keys db (fst (RotateRefreshToken R digest db tok tok2 data ttl))"
  "evolves R refresh_keys db
     (fst (RotateRefreshTokenAndStoreAccess R digest db tok tok2 tid data access ttl ttl2))"
  "evolves R refresh_keys db (fst (RevokeRefreshTokenForClient R digest db tok c ttl))"
  "evolves R refresh_keys db (fst (RevokeRefreshFamily R digest db fid ttl))"
  "evolves R refresh_keys db (fst (RevokeRefreshFamiliesForUser R digest db uid ttl))"
  "evolves R refresh_keys db (fst (RevokeRefreshFamiliesBeforeAuthVersion R digest db uid mn ttl))"
  by (simp_all add: SaveToken_def SaveTokenForRefreshFamily_def RevokeToken_def SaveRefreshToken_def
      RotateRefreshToken_def RotateRefreshTokenAndStoreAccess_def RevokeRefreshTokenForClient_def
      RevokeRefreshFamily_def revokeFamilyKey_def RevokeRefreshFamiliesForUser_def
      RevokeRefreshFamiliesBeforeAuthVersion_def evolves_setJSON evolves_delCounted value_ok_cases
      evolves_call writes_saveFamilyToken writes_save_refresh writes_rotateRefresh
      writes_rotateRefreshWithAccess writes_revocations writes_revokeBefore ttlMilliseconds_pos
      split: sum.splits)

end

end
