(* ===== verification/Session_Families.thy ===== *)
theory Session_Families
  imports Session_Refresh
begin

text \<open>
  The invariant of token families: every live refresh or access record of a family is a member of
  the family's set, and the set lives at least as long as the record. It makes revocation
  complete, since the revocation scripts delete what the set lists. The invariant holds when the
  lifetimes the callers pass do not change: refresh records live for \<open>M\<close> milliseconds and access
  records at most as long, because rotation resets the lifetime of the set.
\<close>

definition family_live :: "'db redis \<Rightarrow> 'db \<Rightarrow> string \<Rightarrow> string \<Rightarrow> bool" where
  "family_live R db fk k \<longleftrightarrow> (key_class k = ''refresh'' \<or> key_class k = ''token'') \<and>
     (\<exists>d. GET R db k = Some (VToken d) \<and> td_FamilyKey d = fk)"

definition covered :: "'db redis \<Rightarrow> int \<Rightarrow> 'db \<Rightarrow> string \<Rightarrow> string \<Rightarrow> bool" where
  "covered R M db fk k \<longleftrightarrow> k \<in> members R db (family_set fk) \<and> 0 \<le> PTTL R db k \<and> PTTL R db k \<le> M \<and>
     PTTL R db k \<le> PTTL R db (family_set fk)"

text \<open>\<open>sound M X\<close>: the keyspace is typed and the invariant holds for all records outside \<open>X\<close>.\<close>

definition sound :: "'db redis \<Rightarrow> int \<Rightarrow> string set \<Rightarrow> 'db \<Rightarrow> bool" where
  "sound R M X db \<longleftrightarrow> typed R db \<and>
     (\<forall>fk k. fk \<noteq> [] \<longrightarrow> k \<notin> X \<longrightarrow> family_live R db fk k \<longrightarrow> covered R M db fk k)"

definition family_keys :: "string set" where
  "family_keys = {k. key_class k \<in> {''refresh'', ''token'', ''refresh-family''}}"

lemma in_family_keys [simp]: "k \<in> family_keys \<longleftrightarrow>
    key_class k = ''refresh'' \<or> key_class k = ''token'' \<or> key_class k = ''refresh-family''"
  by (simp add: family_keys_def)

lemma soundD: "sound R M X db \<Longrightarrow> fk \<noteq> [] \<Longrightarrow> k \<notin> X \<Longrightarrow> family_live R db fk k \<Longrightarrow> covered R M db fk k"
  by (simp add: sound_def)

lemma sound_typed: "sound R M X db \<Longrightarrow> typed R db"
  by (simp add: sound_def)

lemma sound_mono: "sound R M X db \<Longrightarrow> X \<subseteq> Y \<Longrightarrow> sound R M Y db"
  by (auto simp: sound_def)

lemma sound_add:
  "sound R M (insert k X) db \<Longrightarrow> (\<And>fk. fk \<noteq> [] \<Longrightarrow> family_live R db fk k \<Longrightarrow> covered R M db fk k) \<Longrightarrow>
   sound R M X db"
  unfolding sound_def by (metis insertE)

lemma live_class: "family_live R db fk k \<Longrightarrow> key_class k = ''refresh'' \<or> key_class k = ''token''"
  by (simp add: family_live_def)

lemma live_not_family_set: "family_live R db fk k \<Longrightarrow> k \<noteq> family_set f"
  by (auto dest!: live_class)

text \<open>Aging keeps the invariant: a record that is still there leaves its set there.\<close>

lemma keeps_covered:
  assumes k: "keeps R K el db db'" and disj: "K \<inter> family_keys = {}"
    and live: "family_live R db' fk k" and cov: "family_live R db fk k \<Longrightarrow> covered R M db fk k"
  shows "covered R M db' fk k"
proof -
  have out: "k \<notin> K" "family_set fk \<notin> K" using disj live_class [OF live] by auto
  then have ak: "aged_key el k (view R db) (view R db')"
    and af: "aged_key el (family_set fk) (view R db) (view R db')" and el: "0 \<le> el"
    using k by (auto simp: keeps_def)
  have "family_live R db fk k" using live ak by (auto simp: family_live_def aged_key_def to_view split: if_splits)
  from cov [OF this] have c: "k \<in> members R db (family_set fk)" "0 \<le> PTTL R db k" "PTTL R db k \<le> M"
      "PTTL R db k \<le> PTTL R db (family_set fk)"
    by (simp_all add: covered_def)
  have "el \<le> PTTL R db k"
    using live ak c(2) by (auto simp: family_live_def aged_key_def to_view split: if_splits)
  then show ?thesis
    using ak af c el by (auto simp: covered_def aged_key_def to_view split: if_splits)
qed

lemma sound_keeps:
  assumes "sound R M X db" and "typed R db'" and "keeps R K el db db'" and "K \<inter> family_keys = {}"
  shows "sound R M X db'"
  unfolding sound_def
  using assms keeps_covered [OF assms(3,4)] by (auto simp: sound_def)

lemma sound_writes:
  "writes R K db db' \<Longrightarrow> K \<inter> family_keys = {} \<Longrightarrow> sound R M X db \<Longrightarrow> sound R M X db'"
  using sound_keeps [of R M X db db' K 0] by (simp add: writes_def sound_typed)

lemma sound_evolves:
  "evolves R K db db' \<Longrightarrow> K \<inter> family_keys = {} \<Longrightarrow> sound R M X db \<Longrightarrow> sound R M X db'"
  using sound_keeps [of R M X db db' K] sound_typed [of R M X db] unfolding evolves_def by blast

text \<open>The part of the rotation scripts after the family's set has been extended.\<close>

definition rotation_tail ::
    "'db redis \<Rightarrow> string \<Rightarrow> string \<Rightarrow> string \<Rightarrow> string \<Rightarrow> int \<Rightarrow> int \<Rightarrow> rvalue \<Rightarrow> 'db \<Rightarrow> 'db" where
  "rotation_tail R key1 key3 uf fk rt ms v d =
     SET R (DEL R (raise_ttl R (SADD R (PEXPIRE R (SREM R d (family_set fk) key1) (family_set fk) ms)
       uf fk) uf rt) key1) key3 v rt"

context redis_server
begin

lemma sound_SET:
  assumes "sound R M X db" and "key_class k = ''refresh'' \<or> key_class k = ''token''" and "0 \<le> ms"
  shows "sound R M (insert k X) (SET R db k (VToken t) ms)"
proof -
  have "typed R (SET R db k (VToken t) ms)"
    using writes_SET [of ms k "{k}" "VToken t" db] assms sound_typed [OF assms(1)]
    by (auto simp: writes_def value_ok_cases)
  moreover have "covered R M (SET R db k (VToken t) ms) fk j"
    if "fk \<noteq> []" "j \<notin> insert k X" "family_live R (SET R db k (VToken t) ms) fk j" for fk j
  proof -
    have fs: "family_set fk \<noteq> k" using assms(2) by auto
    have "family_live R db fk j" using that assms(3) by (auto simp: family_live_def SET_obs)
    then have "covered R M db fk j" using soundD [OF assms(1)] that by simp
    then show ?thesis using that fs assms(3) by (simp add: covered_def SET_obs)
  qed
  ultimately show ?thesis by (simp add: sound_def)
qed

lemma sound_DEL:
  assumes "sound R M X db" and "key_class k = ''refresh'' \<or> key_class k = ''token''"
  shows "sound R M (X - {k}) (DEL R db k)"
proof -
  have "typed R (DEL R db k)"
    using writes_DEL [of k "{k}" db] sound_typed [OF assms(1)] by (simp add: writes_def)
  moreover have "covered R M (DEL R db k) fk j"
    if "fk \<noteq> []" "j \<notin> X - {k}" "family_live R (DEL R db k) fk j" for fk j
  proof -
    have fs: "family_set fk \<noteq> k" using assms(2) by auto
    have jk: "j \<noteq> k" and "family_live R db fk j"
      using that by (auto simp: family_live_def DEL_obs split: if_splits)
    then have "covered R M db fk j" using soundD [OF assms(1)] that by simp
    then show ?thesis using jk fs by (simp add: covered_def DEL_obs)
  qed
  ultimately show ?thesis by (simp add: sound_def)
qed

lemma sound_SADD:
  assumes "sound R M X db" and "key_class m = ''refresh'' \<or> key_class m = ''token''"
  shows "sound R M X (SADD R db (family_set f) m)"
proof -
  have t: "typed R db" using sound_typed [OF assms(1)] .
  have pre: "GET R db (family_set f) = None" "ZSCORE R db (family_set f) = Map.empty"
    using typed_no_string [OF t] typed_no_zset [OF t] by simp_all
  have "typed R (SADD R db (family_set f) m)"
    using writes_SADD [of "family_set f" "{family_set f}" m db] t assms(2)
    by (auto simp: writes_def member_ok_def)
  moreover have "covered R M (SADD R db (family_set f) m) fk j"
    if "fk \<noteq> []" "j \<notin> X" "family_live R (SADD R db (family_set f) m) fk j" for fk j
  proof -
    have "family_live R db fk j" using that by (simp add: family_live_def SADD_obs [OF pre])
    then have "covered R M db fk j" using soundD [OF assms(1)] that by simp
    then show ?thesis
      using live_not_family_set [OF \<open>family_live R db fk j\<close>]
      by (auto simp: covered_def SADD_obs [OF pre])
  qed
  ultimately show ?thesis by (simp add: sound_def)
qed

lemma sound_SREM:
  assumes "sound R M X db"
  shows "sound R M (insert m X) (SREM R db (family_set f) m)"
proof -
  have "typed R (SREM R db (family_set f) m)"
    using writes_SREM [of "family_set f" "{family_set f}" db m] sound_typed [OF assms] by (simp add: writes_def)
  moreover have "covered R M (SREM R db (family_set f) m) fk j"
    if "fk \<noteq> []" "j \<notin> insert m X" "family_live R (SREM R db (family_set f) m) fk j" for fk j
  proof -
    have l: "family_live R db fk j" using that by (simp add: family_live_def SREM_obs)
    then have "covered R M db fk j" using soundD [OF assms] that by simp
    then show ?thesis using live_not_family_set [OF l] that by (auto simp: covered_def SREM_obs)
  qed
  ultimately show ?thesis by (simp add: sound_def)
qed

lemma sound_PEXPIRE:
  assumes "sound R M X db" and "0 < ms" and "M \<le> ms \<or> PTTL R db (family_set f) \<le> ms"
  shows "sound R M X (PEXPIRE R db (family_set f) ms)"
proof -
  have "typed R (PEXPIRE R db (family_set f) ms)"
    using writes_PEXPIRE [of ms "family_set f" "{family_set f}" db] assms sound_typed [OF assms(1)]
    by (simp add: writes_def)
  moreover have "covered R M (PEXPIRE R db (family_set f) ms) fk j"
    if "fk \<noteq> []" "j \<notin> X" "family_live R (PEXPIRE R db (family_set f) ms) fk j" for fk j
  proof -
    have l: "family_live R db fk j" using that assms(2) by (simp add: family_live_def PEXPIRE_obs)
    then have "covered R M db fk j" using soundD [OF assms(1)] that by simp
    then show ?thesis using live_not_family_set [OF l] that assms(2,3) by (auto simp: covered_def PEXPIRE_obs)
  qed
  ultimately show ?thesis by (simp add: sound_def)
qed

lemma sound_raise_ttl:
  "sound R M X db \<Longrightarrow> 0 < ms \<Longrightarrow> sound R M X (raise_ttl R db (family_set f) ms)"
  by (simp add: raise_ttl_def sound_PEXPIRE)

lemma sound_drop_family:
  assumes s: "sound R M X db"
  shows "sound R M X (drop_family R db f)"
    and "f \<noteq> [] \<Longrightarrow> k \<notin> X \<Longrightarrow> \<not> family_live R (drop_family R db f) f k"
proof -
  let ?d = "del_all R db (SMEMBERS R db (family_set f))"
  have obs: "GET R (drop_family R db f) j =
      (if j = family_set f \<or> j \<in> members R db (family_set f) then None else GET R db j)" for j
    by (simp add: drop_family_def DEL_obs del_all_obs)
  have live: "family_live R db fk j \<and> j \<notin> members R db (family_set f)"
    if "family_live R (drop_family R db f) fk j" for fk j
    using that by (auto simp: family_live_def obs split: if_splits)
  show dead: "\<not> family_live R (drop_family R db f) f k" if "f \<noteq> []" "k \<notin> X" for k
    using live [of f k] soundD [OF s that] by (auto simp: covered_def)
  have "typed R (drop_family R db f)"
    using writes_drop_family [of db f] sound_typed [OF s] by (simp add: writes_def)
  moreover have "covered R M (drop_family R db f) fk j"
    if "fk \<noteq> []" "j \<notin> X" "family_live R (drop_family R db f) fk j" for fk j
  proof -
    have ne: "fk \<noteq> f" using dead that by auto
    have c: "covered R M db fk j" using soundD [OF s] that live by blast
    have cls: "family_set fk \<notin> members R db (family_set f)"
      using typed_member [OF sound_typed [OF s], of "family_set fk" "family_set f"]
      by (auto simp: member_ok_def)
    have jf: "j \<noteq> family_set f" "j \<notin> members R db (family_set f)"
      using live_not_family_set [OF that(3)] live [OF that(3)] by simp_all
    show ?thesis
      using c ne cls jf by (auto simp: covered_def drop_family_def DEL_obs del_all_obs)
  qed
  ultimately show "sound R M X (drop_family R db f)" by (simp add: sound_def)
qed

text \<open>The changes to other keys inside the scripts.\<close>

lemma sound_other:
  assumes "sound R M X db"
  shows "key_class k = ''user-refresh-families'' \<Longrightarrow> sound R M X (SREM R db k m)"
    and "key_class k = ''user-refresh-families'' \<Longrightarrow> sound R M X (SADD R db k m)"
    and "key_class k = ''user-refresh-families'' \<Longrightarrow> sound R M X (del_if_empty R db k)"
    and "key_class k = ''user-refresh-families'' \<Longrightarrow> sound R M X (DEL R db k)"
    and "key_class k = ''user-refresh-families'' \<Longrightarrow> 0 < ms \<Longrightarrow> sound R M X (raise_ttl R db k ms)"
    and "key_class k = ''user-refresh-families'' \<Longrightarrow> 0 < ms \<Longrightarrow> sound R M X (PEXPIRE R db k ms)"
    and "key_class k = ''refresh-revoked'' \<Longrightarrow> 0 < ms \<Longrightarrow> sound R M X (SET R db k (VText t) ms)"
    and "key_class k = ''refresh-used'' \<Longrightarrow> 0 < ms \<Longrightarrow> sound R M X (SET R db k (VToken d) ms)"
  by (auto intro!: sound_writes [where K = "{k}", OF _ _ assms] writes_SREM writes_SADD
      writes_del_if_empty writes_DEL writes_raise_ttl writes_PEXPIRE writes_SET
      simp: member_ok_def value_ok_cases)

lemma sound_revocation:
  assumes "sound R M X db" and "0 < ms" and "key_class uf = ''user-refresh-families''"
  shows "sound R M X (SET R (del_if_empty R (SREM R (drop_family R db fk) uf fk) uf)
    (revoked_marker fk) (VText t) ms)"
  using assms by (simp add: sound_other sound_drop_family)

lemma sound_revokeFamily:
  "sound R M X db \<Longrightarrow> 0 < ms \<Longrightarrow> key_class uf = ''user-refresh-families'' \<Longrightarrow>
   sound R M X (fst (revokeFamily R uf ms enc db))"
  by (simp add: revokeFamily_def Let_def sound_revocation split: option.splits)

text \<open>A record stored in its family's set with a lifetime within that of the set is covered.\<close>

lemma sound_store:
  assumes "sound R M (insert k X) db" and "GET R db k = Some (VToken t)" and "td_FamilyKey t = fk"
    and "k \<in> members R db (family_set fk)" and "0 \<le> PTTL R db k" and "PTTL R db k \<le> M"
    and "PTTL R db k \<le> PTTL R db (family_set fk)"
  shows "sound R M X db"
  by (rule sound_add [OF assms(1)]) (use assms in \<open>auto simp: family_live_def covered_def\<close>)

lemma sound_gone: "sound R M (insert k X) db \<Longrightarrow> GET R db k = None \<Longrightarrow> sound R M X db"
  by (erule sound_add) (simp add: family_live_def)

lemma rotation_tail_obs:
  assumes "typed R d" and cls: "key_class key1 = ''refresh''" "key_class key3 = ''refresh-used''"
      "key_class uf = ''user-refresh-families''"
    and pos: "0 < rt" "0 < ms" and k: "k \<noteq> key1" "key_class k = ''refresh'' \<or> key_class k = ''token''"
      "k \<in> members R d (family_set fk)"
  shows "GET R (rotation_tail R key1 key3 uf fk rt ms v d) k = GET R d k"
    and "k \<in> members R (rotation_tail R key1 key3 uf fk rt ms v d) (family_set fk)"
    and "PTTL R (rotation_tail R key1 key3 uf fk rt ms v d) k = PTTL R d k"
    and "PTTL R (rotation_tail R key1 key3 uf fk rt ms v d) (family_set fk) = ms"
proof -
  let ?e = "PEXPIRE R (SREM R d (family_set fk) key1) (family_set fk) ms"
  have "writes R refresh_keys d ?e" by (intro writes_chain) (use pos in simp_all)
  then have te: "typed R ?e" using assms(1) by (simp add: writes_def)
  note u = typed_SADD [OF te, of uf]
  have ne: "k \<noteq> family_set fk" "k \<noteq> uf" "k \<noteq> key3" "family_set fk \<noteq> uf" "family_set fk \<noteq> key1" "family_set fk \<noteq> key3"
    using k(2) cls by auto
  have set: "members R d (family_set fk) \<noteq> {key1}" using k(1,3) by auto
  have alive: "PTTL R d (family_set fk) \<noteq> -2" using typed_PTTL [OF assms(1)] k(3) by fastforce
  show "GET R (rotation_tail R key1 key3 uf fk rt ms v d) k = GET R d k"
    using ne k(1) pos cls by (simp add: rotation_tail_def SET_obs DEL_obs raise_ttl_obs u PEXPIRE_obs SREM_obs)
  show "PTTL R (rotation_tail R key1 key3 uf fk rt ms v d) k = PTTL R d k"
    using ne k(1) pos cls by (simp add: rotation_tail_def SET_obs DEL_obs raise_ttl_obs u PEXPIRE_obs SREM_obs)
  show "k \<in> members R (rotation_tail R key1 key3 uf fk rt ms v d) (family_set fk)"
    using ne k pos cls by (simp add: rotation_tail_def SET_obs DEL_obs raise_ttl_obs u PEXPIRE_obs SREM_obs)
  show "PTTL R (rotation_tail R key1 key3 uf fk rt ms v d) (family_set fk) = ms"
    using ne set alive pos cls
    by (simp add: rotation_tail_def SET_obs DEL_obs raise_ttl_obs u PEXPIRE_obs SREM_obs)
qed

lemma sound_rotation_tail:
  assumes "sound R M X d" and cls: "key_class key1 = ''refresh''" "key_class key3 = ''refresh-used''"
      "key_class uf = ''user-refresh-families''"
    and pos: "0 < rt" "0 < ms" "M \<le> ms"
  shows "sound R M (X - {key1}) (rotation_tail R key1 key3 uf fk rt ms (VToken t) d)"
proof -
  have "sound R M (insert key1 X) (PEXPIRE R (SREM R d (family_set fk) key1) (family_set fk) ms)"
    using sound_PEXPIRE [OF sound_SREM [OF assms(1)]] pos by simp
  then have "sound R M (insert key1 X) (raise_ttl R (SADD R
      (PEXPIRE R (SREM R d (family_set fk) key1) (family_set fk) ms) uf fk) uf rt)"
    using cls pos by (simp add: sound_other)
  from sound_DEL [OF this, of key1] show ?thesis
    using cls pos by (simp add: rotation_tail_def sound_other)
qed

lemma sound_save_refresh:
  assumes s: "sound R M {} db" and cls: "key_class tk = ''refresh''" "key_class uf = ''user-refresh-families''"
    and ttl: "0 < ttl" "Second dvd ttl" "M = ttl div Millisecond" and fk: "td_FamilyKey t = fk"
  shows "sound R M {} (save_refresh_tx R tk (family_set fk) uf fk (VToken t) ttl db)"
proof -
  have M: "px ttl = M" "max 1 (ttl div Second) * 1000 = M" "0 < M"
    using ttl by (auto simp: px_def Second_def Millisecond_def elim!: dvdE)
  define d1 where "d1 = SET R db tk (VToken t) M"
  define d3 where "d3 = PEXPIRE R (SADD R d1 (family_set fk) tk) (family_set fk) M"
  have s1: "sound R M {tk} d1" using sound_SET [OF s, of tk M t] cls M by (simp add: d1_def)
  note a = typed_SADD [OF sound_typed [OF s1], of "family_set fk"]
  have s3: "sound R M {tk} d3"
    unfolding d3_def by (intro sound_PEXPIRE sound_SADD s1) (use cls M in auto)
  have ne: "tk \<noteq> family_set fk" using cls by auto
  have o1: "GET R d1 tk = Some (VToken t)" "PTTL R d1 tk = M" using M by (simp_all add: d1_def SET_obs)
  have "sound R M {} d3"
    by (rule sound_store [OF s3, where t = t and fk = fk])
       (use ne M(3) fk o1 in \<open>simp_all add: d3_def PEXPIRE_obs a(1,2,4)\<close>, use ne o1 M in \<open>simp_all add: a(3)\<close>)
  moreover have "save_refresh_tx R tk (family_set fk) uf fk (VToken t) ttl db = PEXPIRE R (SADD R d3 uf fk) uf M"
    using ttl M by (simp add: save_refresh_tx_def go_set_def go_expire_def d3_def d1_def Let_def)
  ultimately show ?thesis using cls M by (simp add: sound_other)
qed

lemma sound_saveFamilyToken:
  assumes s: "sound R M {} db" and cls: "key_class tk = ''token''" and ms: "0 < ms" "ms \<le> M"
    and fk: "td_FamilyKey t = fk"
  shows "sound R M {} (fst (saveFamilyTokenScript R tk (family_set fk) mk (VToken t) ms db))"
proof -
  define d1 where "d1 = SET R db tk (VToken t) ms"
  define d3 where "d3 = raise_ttl R (SADD R d1 (family_set fk) tk) (family_set fk) ms"
  have s1: "sound R M {tk} d1" using sound_SET [OF s, of tk ms t] cls ms by (simp add: d1_def)
  note a = typed_SADD [OF sound_typed [OF s1], of "family_set fk"]
  have s3: "sound R M {tk} d3"
    unfolding d3_def by (intro sound_raise_ttl sound_SADD s1) (use cls ms in auto)
  have ne: "tk \<noteq> family_set fk" using cls by auto
  have o1: "GET R d1 tk = Some (VToken t)" "PTTL R d1 tk = ms" using ms by (simp_all add: d1_def SET_obs)
  have "sound R M {} d3"
    by (rule sound_store [OF s3, where t = t and fk = fk])
       (use ne ms fk o1 in \<open>simp_all add: d3_def raise_ttl_obs a(1,2,4)\<close>, use ne ms o1 in \<open>simp_all add: a(3)\<close>)
  then show ?thesis using s by (simp add: saveFamilyTokenScript_def d3_def d1_def)
qed

lemma sound_rotateRefresh:
  assumes s: "sound R M {} db" and cls: "key_class key1 = ''refresh''" "key_class key2 = ''refresh''"
      "key_class key3 = ''refresh-used''" "key_class uf = ''user-refresh-families''"
    and M: "0 < M"
  shows "sound R M {} (fst (rotateRefreshScript R key1 key2 key3 uf M (VToken t) db))"
proof -
  let ?fk = "td_FamilyKey t"
  define d1 where "d1 = SET R db key2 (VToken t) M"
  define d2 where "d2 = SADD R d1 (family_set ?fk) key2"
  let ?e = "rotation_tail R key1 key3 uf ?fk M M (VToken t) d2"
  have s1: "sound R M {key2} d1" using sound_SET [OF s, of key2 M t] cls M by (simp add: d1_def)
  have s2: "sound R M {key2} d2" unfolding d2_def by (rule sound_SADD [OF s1]) (use cls in simp)
  note a = typed_SADD [OF sound_typed [OF s1], of "family_set ?fk"]
  have se: "sound R M ({key2} - {key1}) ?e"
    by (rule sound_rotation_tail [OF s2]) (use cls M in simp_all)
  have "sound R M {} ?e"
  proof (cases "key2 = key1")
    case True
    then show ?thesis using se by simp
  next
    case False
    have ne: "key2 \<noteq> family_set ?fk" using cls by auto
    have o2: "GET R d2 key2 = Some (VToken t)" "PTTL R d2 key2 = M" "key2 \<in> members R d2 (family_set ?fk)"
      using ne M by (simp_all add: d2_def a) (simp_all add: d1_def SET_obs)
    note obs = rotation_tail_obs [OF sound_typed [OF s2] cls(1,3,4) M M False disjI1 [OF cls(2)] o2(3),
        where v = "VToken t"]
    show ?thesis
      by (rule sound_store [where k = key2 and t = t and fk = ?fk])
         (use False se obs o2 M in simp_all)
  qed
  moreover have "fst (rotateRefreshScript R key1 key2 key3 uf M (VToken t) db) \<in>
      {db, ?e, fst (revokeFamily R uf M (VToken t) db)}"
    by (auto simp: rotateRefreshScript_def Let_def rotation_tail_def d2_def d1_def split: option.splits)
  ultimately show ?thesis using s sound_revokeFamily [OF s M cls(4)] by auto
qed

lemma sound_rotateRefreshWithAccess:
  assumes s: "sound R M {} db" and cls: "key_class key1 = ''refresh''" "key_class key2 = ''refresh''"
      "key_class key3 = ''refresh-used''" "key_class key4 = ''token''" "key_class uf = ''user-refresh-families''"
    and M: "0 < M" "0 < at" "at \<le> M" and fk: "td_FamilyKey a = td_FamilyKey t"
  shows "sound R M {}
    (fst (rotateRefreshWithAccessScript R key1 key2 key3 key4 uf M at (VToken t) (VToken a) db))"
proof -
  let ?fk = "td_FamilyKey t"
  define d1 where "d1 = SET R db key2 (VToken t) M"
  define d2 where "d2 = SET R d1 key4 (VToken a) at"
  define d3 where "d3 = SADD R d2 (family_set ?fk) key2"
  define d4 where "d4 = SADD R d3 (family_set ?fk) key4"
  let ?e = "rotation_tail R key1 key3 uf ?fk M M (VToken t) d4"
  have s2: "sound R M {key4, key2} d2"
    using sound_SET [OF sound_SET [OF s, of key2 M t], of key4 at a] cls M by (simp add: d1_def d2_def)
  have s3: "sound R M {key4, key2} d3" unfolding d3_def by (rule sound_SADD [OF s2]) (use cls in simp)
  have s4: "sound R M {key4, key2} d4" unfolding d4_def by (rule sound_SADD [OF s3]) (use cls in simp)
  note a3 = typed_SADD [OF sound_typed [OF s2], of "family_set ?fk"]
  note a4 = typed_SADD [OF sound_typed [OF s3], of "family_set ?fk"]
  have ne: "key2 \<noteq> family_set ?fk" "key4 \<noteq> family_set ?fk" "key4 \<noteq> key2" "key4 \<noteq> key1" using cls by auto
  have o2: "GET R d2 key2 = Some (VToken t)" "PTTL R d2 key2 = M" "GET R d2 key4 = Some (VToken a)"
      "PTTL R d2 key4 = at"
    using ne M by (simp_all add: d2_def d1_def SET_obs)
  have o3: "GET R d3 key2 = Some (VToken t)" "PTTL R d3 key2 = M" "key2 \<in> members R d3 (family_set ?fk)"
      "GET R d3 key4 = Some (VToken a)" "PTTL R d3 key4 = at"
    using ne o2 by (simp_all add: d3_def a3)
  have o4: "GET R d4 key2 = Some (VToken t)" "PTTL R d4 key2 = M" "key2 \<in> members R d4 (family_set ?fk)"
      "GET R d4 key4 = Some (VToken a)" "PTTL R d4 key4 = at" "key4 \<in> members R d4 (family_set ?fk)"
    using ne o3 by (simp_all add: d4_def a4)
  have se: "sound R M ({key4, key2} - {key1}) ?e"
    by (rule sound_rotation_tail [OF s4]) (use cls M in simp_all)
  have o: "GET R ?e k = GET R d4 k" "k \<in> members R ?e (family_set ?fk)" "PTTL R ?e k = PTTL R d4 k"
      "PTTL R ?e (family_set ?fk) = M"
    if "k \<noteq> key1" "key_class k = ''refresh'' \<or> key_class k = ''token''" "k \<in> members R d4 (family_set ?fk)" for k
    using rotation_tail_obs [OF sound_typed [OF s4] cls(1,3,5) M(1) M(1) that, where v = "VToken t"] .
  have s24: "sound R M ({key2} - {key1}) ?e"
    by (rule sound_store [where k = key4 and t = a and fk = ?fk])
       (use se ne o [of key4] o4 cls M fk in \<open>simp_all add: insert_Diff_if\<close>)
  have "sound R M {} ?e"
  proof (cases "key2 = key1")
    case True
    then show ?thesis using s24 by simp
  next
    case False
    show ?thesis
      by (rule sound_store [where k = key2 and t = t and fk = ?fk])
         (use s24 False o [of key2] o4 cls M in simp_all)
  qed
  moreover have "fst (rotateRefreshWithAccessScript R key1 key2 key3 key4 uf M at (VToken t) (VToken a) db) \<in>
      {db, ?e, fst (revokeFamily R uf M (VToken t) db)}"
    using M(3) by (auto simp: rotateRefreshWithAccessScript_def Let_def rotation_tail_def d4_def d3_def
        d2_def d1_def max_absorb1 split: option.splits)
  ultimately show ?thesis using s sound_revokeFamily [OF s M(1) cls(5)] by auto
qed

lemma sound_revocations:
  assumes s: "sound R M {} db" and ms: "0 < ms"
  shows "sound R M {} (fst (revokeRefreshForClientScript R key1 key2 ms c db))"
    and "sound R M {} (fst (revokeFamilyScript R fk ms db))"
    and "key_class uf = ''user-refresh-families'' \<Longrightarrow>
      sound R M {} (fst (revokeUserRefreshFamiliesScript R uf ms db))"
proof -
  show "sound R M {} (fst (revokeRefreshForClientScript R key1 key2 ms c db))"
    using s sound_revocation [OF s ms]
    by (simp add: revokeRefreshForClientScript_def Let_def split: option.splits)
  have drop: "sound R M {} (SET R (drop_family R d f) (revoked_marker f) (VText ''1'') ms)"
    if "sound R M {} d" for d f
    using that ms by (simp add: sound_other sound_drop_family)
  show "sound R M {} (fst (revokeFamilyScript R fk ms db))"
    using drop [OF s] by (simp add: revokeFamilyScript_def)
  assume uf: "key_class uf = ''user-refresh-families''"
  have "sound R M {} (fold (\<lambda>f d. SET R (drop_family R d f) (revoked_marker f) (VText ''1'') ms) fs db)" for fs
    by (rule fold_invariant_on [where P = "sound R M {}"]) (use s drop in auto)
  then show "sound R M {} (fst (revokeUserRefreshFamiliesScript R uf ms db))"
    using uf by (simp add: revokeUserRefreshFamiliesScript_def Let_def sound_other)
qed

lemma sound_stale_member_loop:
  "sound R M {} db \<Longrightarrow> sound R M {} (fst (stale_member_loop R (family_set fk) mn ms db))"
proof (induction ms arbitrary: db)
  case (Cons m ms)
  have "sound R M {} (SREM R db (family_set fk) m)" if "GET R db m = None"
    by (rule sound_gone [OF sound_SREM [OF Cons.prems]]) (simp add: that SREM_obs)
  with Cons show ?case by (simp split: option.splits)
qed simp

lemma sound_empty_family:
  assumes "sound R M {} db" and "members R db (family_set fk) = {}" and "key_class uf = ''user-refresh-families''"
  shows "sound R M {} (SREM R (DEL R db (family_set fk)) uf fk)"
proof -
  have "sound R M {} (drop_family R db fk)" using sound_drop_family(1) [OF assms(1)] .
  then have "sound R M {} (DEL R db (family_set fk))"
    using assms(2) by (simp add: drop_family_def del_all_def)
  then show ?thesis using assms(3) by (simp add: sound_other)
qed

lemma sound_stale_family_step:
  assumes s: "sound R M {} (fst st)" and ms: "0 < ms" and uf: "key_class uf = ''user-refresh-families''"
  shows "sound R M {} (fst (stale_family_step R uf mn ms fk st))"
proof -
  obtain db n where st: "st = (db, n)" by (cases st)
  obtain db1 b where loop:
    "stale_member_loop R (family_set fk) mn (SMEMBERS R db (family_set fk)) db = (db1, b)"
    by (cases "stale_member_loop R (family_set fk) mn (SMEMBERS R db (family_set fk)) db")
  have s1: "sound R M {} db1"
    using sound_stale_member_loop [of M db fk mn "SMEMBERS R db (family_set fk)"] s st loop by simp
  have "sound R M {} (SET R (SREM R (drop_family R db1 fk) uf fk) (revoked_marker fk) (VText ''1'') ms)"
    using s1 ms uf by (simp add: sound_other sound_drop_family)
  then show ?thesis
    using s s1 uf sound_empty_family [of M _ fk uf]
    by (cases b) (auto simp: stale_family_step_def Let_def st loop SCARD_0)
qed

lemma sound_revokeBefore:
  assumes s: "sound R M {} db" and ms: "0 < ms" and uf: "key_class uf = ''user-refresh-families''"
  shows "sound R M {} (fst (revokeUserRefreshFamiliesBeforeAuthVersionScript R uf mn ms db))"
proof -
  let ?s = "fold (stale_family_step R uf mn ms) (SMEMBERS R db uf) (db, 0)"
  have "sound R M {} (fst ?s)"
    by (rule fold_invariant_on [where P = "\<lambda>st. sound R M {} (fst st)"])
       (use s sound_stale_family_step [OF _ ms uf] in auto)
  then show ?thesis
    using uf by (simp add: revokeUserRefreshFamiliesBeforeAuthVersionScript_def case_prod_unfold sound_other)
qed

lemma sound_call:
  assumes "sound R M {} db" and "\<And>d. sound R M {} d \<Longrightarrow> sound R M {} (fst (f d))"
  shows "sound R M {} (fst (call R e db f))"
proof -
  have "sound R M {} (snd (LINK R db))"
    using sound_evolves [OF evolves_LINK [where K = "{}"] _ assms(1)] by simp
  then show ?thesis by (intro fst_callI [of "sound R M {}"] assms(2))
qed

section \<open>Operations\<close>

lemma sound_SaveToken:
  assumes "sound R M {} db" and "td_FamilyKey data = []"
  shows "sound R M {} (fst (SaveToken R digest db tid data ttl))"
proof -
  let ?k = "secretKey digest tokenPrefix tid"
  have "sound R M {} (SET R d ?k (VToken (json_token data)) ms)" if "sound R M {} d" "0 \<le> ms" for d ms
    by (rule sound_add [OF sound_SET [OF that(1)]])
       (use that assms(2) in \<open>auto simp: family_live_def SET_obs\<close>)
  then show ?thesis
    using assms(1) by (auto simp: SaveToken_def setJSON_def go_set_def intro!: sound_call)
qed

lemma sound_RevokeToken: "sound R M {} db \<Longrightarrow> sound R M {} (fst (RevokeToken R digest db tid))"
  using sound_DEL [of M "{}"] by (auto simp: RevokeToken_def delCounted_def intro!: sound_call)

text \<open>
  The lifetimes under which the invariant holds: refresh records live \<open>rt\<close>, a whole number of
  seconds, and access records at most as long.
\<close>

lemma sound_refresh_ops:
  assumes s: "sound R M {} db" and rt: "0 < rt" "Second dvd rt" and M: "M = rt div Millisecond"
  shows "ttl \<le> rt \<Longrightarrow> sound R M {} (fst (SaveTokenForRefreshFamily R digest db tid data fk ttl))"
    and "sound R M {} (fst (SaveRefreshToken R digest db tok data rt random))"
    and "sound R M {} (fst (RotateRefreshToken R digest db tok tok2 data rt))"
    and "ttl \<le> rt \<Longrightarrow>
      sound R M {} (fst (RotateRefreshTokenAndStoreAccess R digest db tok tok2 tid data access rt ttl))"
proof -
  have M0: "0 < M" using rt M by (auto simp: Second_def Millisecond_def elim!: dvdE)
  have le: "ms \<le> M" if "ttlMilliseconds t = Inr ms" "t \<le> rt" for t ms
    using that M by (auto simp: ttlMilliseconds_Inr Millisecond_def intro: zdiv_mono1)
  have eq: "ttlMilliseconds rt = Inr ms \<Longrightarrow> ms = M" for ms
    using M by (simp add: ttlMilliseconds_Inr)
  show "sound R M {} (fst (SaveTokenForRefreshFamily R digest db tid data fk ttl))" if "ttl \<le> rt"
    using s le [OF _ that]
    by (auto simp: SaveTokenForRefreshFamily_def split: sum.splits
        intro!: sound_call sound_saveFamilyToken dest: ttlMilliseconds_pos)
  show "sound R M {} (fst (SaveRefreshToken R digest db tok data rt random))"
    using s rt M by (auto simp: SaveRefreshToken_def split: sum.splits intro!: sound_call sound_save_refresh)
  show "sound R M {} (fst (RotateRefreshToken R digest db tok tok2 data rt))"
    using s M0 by (auto simp: RotateRefreshToken_def split: sum.splits
        intro!: sound_call sound_rotateRefresh dest!: eq)
  show "sound R M {} (fst (RotateRefreshTokenAndStoreAccess R digest db tok tok2 tid data access rt ttl))"
    if "ttl \<le> rt"
    using s M0 le [OF _ that]
    by (auto simp: RotateRefreshTokenAndStoreAccess_def split: sum.splits
        intro!: sound_call sound_rotateRefreshWithAccess dest: ttlMilliseconds_pos dest!: eq)
qed

lemma sound_revocation_ops:
  assumes s: "sound R M {} db"
  shows "sound R M {} (fst (RevokeRefreshTokenForClient R digest db tok c ttl))"
    and "sound R M {} (fst (RevokeRefreshFamily R digest db fid ttl))"
    and "sound R M {} (fst (RevokeRefreshFamiliesForUser R digest db uid ttl))"
    and "sound R M {} (fst (RevokeRefreshFamiliesBeforeAuthVersion R digest db uid mn ttl))"
  using s by (auto simp: RevokeRefreshTokenForClient_def RevokeRefreshFamily_def revokeFamilyKey_def
      RevokeRefreshFamiliesForUser_def RevokeRefreshFamiliesBeforeAuthVersion_def split: sum.splits
      intro!: sound_call sound_revocations sound_revokeBefore dest: ttlMilliseconds_pos)

end

end
