(* ===== verification/Session_Revocation.thy ===== *)
theory Session_Revocation
  imports Session_Families
begin

text \<open>
  Absence of records. \<open>without R B\<close> says that no key holds a record satisfying \<open>B\<close>; commands
  that delete, expire or touch other kinds of keys keep it, and a \<open>SET\<close> keeps it when the record
  stored does not satisfy \<open>B\<close>. With \<open>B\<close> the records of one token family this is the notion of a
  dead family: detecting the reuse of a refresh token, and every revocation, leaves the family
  dead, and rotation cannot revive it, because it needs a live record of the family. With \<open>B\<close> the
  records under one key it says that the key stays absent.
\<close>

definition without :: "'db redis \<Rightarrow> (string \<Rightarrow> rvalue \<Rightarrow> bool) \<Rightarrow> 'db \<Rightarrow> bool" where
  "without R B db \<longleftrightarrow> typed R db \<and> (\<forall>k v. GET R db k = Some v \<longrightarrow> \<not> B k v)"

definition family_record :: "string \<Rightarrow> string \<Rightarrow> rvalue \<Rightarrow> bool" where
  "family_record fk k v \<longleftrightarrow> (key_class k = ''refresh'' \<or> key_class k = ''token'') \<and>
     (case v of VToken d \<Rightarrow> td_FamilyKey d = fk | _ \<Rightarrow> False)"

definition key_record :: "string \<Rightarrow> string \<Rightarrow> rvalue \<Rightarrow> bool" where
  "key_record k j v \<longleftrightarrow> j = k \<and> (key_class k = ''refresh'' \<or> key_class k = ''token'')"

abbreviation dead :: "'db redis \<Rightarrow> string \<Rightarrow> 'db \<Rightarrow> bool" where
  "dead R fk \<equiv> without R (family_record fk)"

lemma without_typed: "without R B db \<Longrightarrow> typed R db"
  by (simp add: without_def)

lemma without_GET: "without R B db \<Longrightarrow> GET R db k = Some v \<Longrightarrow> \<not> B k v"
  by (simp add: without_def)

lemma dead_iff: "dead R fk db \<longleftrightarrow> typed R db \<and> (\<forall>k. \<not> family_live R db fk k)"
  by (auto simp: without_def family_record_def family_live_def split: rvalue.splits)

lemma family_record_VToken [simp]:
  "family_record fk k (VToken d) \<longleftrightarrow> (key_class k = ''refresh'' \<or> key_class k = ''token'') \<and> td_FamilyKey d = fk"
  by (simp add: family_record_def)

text \<open>A change is harmless when records stay or go, and new ones are not of the kind.\<close>

lemma withoutI:
  assumes "without R B db" and "writes R K db db'"
    and "\<And>k v. GET R db' k = Some v \<Longrightarrow> GET R db k = Some v \<or> \<not> B k v"
  shows "without R B db'"
  using assms unfolding without_def writes_def by blast

lemma without_evolves:
  assumes w: "without R B db" and "evolves R K db db'" and B: "\<And>k v. B k v \<Longrightarrow> k \<notin> K"
  shows "without R B db'"
proof -
  obtain el where e: "keeps R K el db db'" and t: "typed R db'"
    using assms(1,2) by (auto simp: evolves_def without_def)
  have "\<not> B k v" if g: "GET R db' k = Some v" for k v
  proof
    assume b: "B k v"
    from keeps_GET [OF e B [OF b]] g have "GET R db k = Some v" by auto
    then show False using without_GET [OF w] b by blast
  qed
  with t show ?thesis by (simp add: without_def)
qed

locale record_ban = redis_server +
  fixes B :: "string \<Rightarrow> rvalue \<Rightarrow> bool"
begin

lemma without_commands:
  assumes d: "without R B db"
  shows "without R B (DEL R db k)" and "without R B (SREM R db k m)" and "without R B (del_all R db ks)"
    and "without R B (del_if_empty R db k)"
    and "0 < ms \<Longrightarrow> without R B (PEXPIRE R db k ms)" and "0 < ms \<Longrightarrow> without R B (raise_ttl R db k ms)"
    and "member_ok (key_class k) m \<Longrightarrow> without R B (SADD R db k m)"
    and "0 \<le> ms \<Longrightarrow> value_ok (key_class k) v \<Longrightarrow> \<not> B k v \<Longrightarrow> without R B (SET R db k v ms)"
    and "value_ok (key_class k) v \<Longrightarrow> \<not> B k v \<Longrightarrow> without R B (SETKEEP R db k v)"
proof -
  show "without R B (DEL R db k)"
    by (rule withoutI [OF d writes_DEL [of k UNIV]]) (auto simp: DEL_obs split: if_splits)
  show "without R B (SREM R db k m)"
    by (rule withoutI [OF d writes_SREM [of k UNIV]]) (auto simp: SREM_obs)
  show "without R B (del_all R db ks)"
    by (rule withoutI [OF d writes_del_all [of ks UNIV]]) (auto simp: del_all_obs split: if_splits)
  show "without R B (del_if_empty R db k)"
    by (rule withoutI [OF d writes_del_if_empty [of k UNIV]]) (auto simp: del_if_empty_obs split: if_splits)
  show "without R B (PEXPIRE R db k ms)" if "0 < ms"
    by (rule withoutI [OF d writes_PEXPIRE [of ms k UNIV]]) (use that in \<open>auto simp: PEXPIRE_obs\<close>)
  show "without R B (raise_ttl R db k ms)" if "0 < ms"
    by (rule withoutI [OF d writes_raise_ttl [of ms k UNIV]]) (use that in \<open>auto simp: raise_ttl_obs\<close>)
  show "without R B (SADD R db k m)" if m: "member_ok (key_class k) m"
  proof (rule withoutI [OF d writes_SADD [of k UNIV]])
    have "key_class k \<in> {''refresh-family'', ''user-refresh-families'', ''user-sessions''}"
      using m by (auto simp: member_ok_def)
    note o = typed_SADD [OF without_typed [OF d] this]
    show "GET R (SADD R db k m) j = Some v \<Longrightarrow> GET R db j = Some v \<or> \<not> B j v" for j v
      by (simp add: o)
  qed (use m in simp_all)
  show "without R B (SET R db k v ms)" if "0 \<le> ms" "value_ok (key_class k) v" "\<not> B k v"
    by (rule withoutI [OF d writes_SET [of ms k UNIV]]) (use that in \<open>auto simp: SET_obs split: if_splits\<close>)
  show "without R B (SETKEEP R db k v)" if "value_ok (key_class k) v" "\<not> B k v"
    by (rule withoutI [OF d writes_SETKEEP [of k UNIV]]) (use that in \<open>auto simp: SETKEEP_obs split: if_splits\<close>)
qed

lemma without_call:
  assumes "without R B db" and "\<And>d. without R B d \<Longrightarrow> without R B (fst (f d))"
  shows "without R B (fst (call R e db f))"
proof -
  have "without R B (snd (LINK R db))"
    using without_evolves [OF assms(1) evolves_LINK [where K = "{}"]] by simp
  then show ?thesis by (intro fst_callI [of "without R B"] assms(2))
qed

lemma without_go_set:
  "without R B db \<Longrightarrow> value_ok (key_class k) v \<Longrightarrow> \<not> B k v \<Longrightarrow> without R B (go_set R db k v ttl)"
  by (simp add: go_set_def without_commands)

lemma without_go_expire: "without R B db \<Longrightarrow> without R B (go_expire R db k ttl)"
  by (simp add: go_expire_def without_commands)

lemma without_setJSON:
  "without R B db \<Longrightarrow> value_ok (key_class k) v \<Longrightarrow> \<not> B k v \<Longrightarrow> without R B (fst (setJSON R db k v ttl))"
  by (auto simp: setJSON_def without_go_set intro!: without_call)

end

section \<open>Bans on token records\<close>

locale token_ban = record_ban +
  assumes banned_class: "B k v \<Longrightarrow> key_class k = ''refresh'' \<or> key_class k = ''token''"
begin

lemma without_drop_family: "without R B db \<Longrightarrow> without R B (drop_family R db f)"
  by (simp add: drop_family_def without_commands)

lemma without_marked: "without R B db \<Longrightarrow> 0 < ms \<Longrightarrow> without R B (SET R db (revoked_marker f) (VText t) ms)"
  by (rule without_commands(8)) (auto simp: value_ok_cases dest: banned_class)

lemma without_revokeFamily:
  "without R B db \<Longrightarrow> 0 < ms \<Longrightarrow> without R B (fst (revokeFamily R uf ms enc db))"
  by (simp add: revokeFamily_def Let_def without_marked without_commands without_drop_family split: option.splits)

lemma without_rotation_tail:
  assumes "without R B db" and "0 < ms" "0 < n" and "key_class uf = ''user-refresh-families''"
    and "key_class key3 = ''refresh-used''"
  shows "without R B (rotation_tail R key1 key3 uf f ms n (VToken t) db)"
proof -
  have "\<not> B key3 (VToken t)" using assms(5) by (auto dest: banned_class)
  then show ?thesis using assms by (simp add: rotation_tail_def without_commands value_ok_cases member_ok_def)
qed

lemma without_rotateRefresh:
  assumes d: "without R B db" and cls: "key_class key1 = ''refresh''" "key_class key2 = ''refresh''"
      "key_class key3 = ''refresh-used''" "key_class uf = ''user-refresh-families''" and ms: "0 < ms"
    and new: "GET R db key1 = Some (VToken t) \<Longrightarrow> \<not> B key2 (VToken t)"
  shows "without R B (fst (rotateRefreshScript R key1 key2 key3 uf ms (VToken t) db))"
proof (cases "GET R db key1 = Some (VToken t)")
  case True
  have "without R B (SADD R (SET R db key2 (VToken t) ms) (family_set f) key2)" for f
    using d ms cls new [OF True] by (simp add: without_commands value_ok_cases member_ok_def)
  from without_rotation_tail [OF this ms ms cls(4,3)]
  show ?thesis
    using True d without_revokeFamily [OF d ms]
    by (simp add: rotateRefreshScript_def rotation_tail_def Let_def split: option.splits)
next
  case False
  then show ?thesis
    using d without_revokeFamily [OF d ms] by (auto simp: rotateRefreshScript_def Let_def split: option.splits)
qed

lemma without_rotateRefreshWithAccess:
  assumes d: "without R B db" and cls: "key_class key1 = ''refresh''" "key_class key2 = ''refresh''"
      "key_class key3 = ''refresh-used''" "key_class key4 = ''token''" "key_class uf = ''user-refresh-families''"
    and ms: "0 < ms" "0 < at"
    and new: "GET R db key1 = Some (VToken t) \<Longrightarrow> \<not> B key2 (VToken t) \<and> \<not> B key4 (VToken a)"
  shows "without R B (fst (rotateRefreshWithAccessScript R key1 key2 key3 key4 uf ms at (VToken t) (VToken a) db))"
proof (cases "GET R db key1 = Some (VToken t)")
  case True
  have "without R B (SADD R (SADD R (SET R (SET R db key2 (VToken t) ms) key4 (VToken a) at) (family_set f) key2)
      (family_set f) key4)" for f
    using d ms cls new [OF True] by (simp add: without_commands value_ok_cases member_ok_def)
  from without_rotation_tail [OF this ms(1) _ cls(5,3), of "max ms at"] ms
  show ?thesis
    using True d without_revokeFamily [OF d ms(1)]
    by (simp add: rotateRefreshWithAccessScript_def rotation_tail_def Let_def split: option.splits)
next
  case False
  then show ?thesis
    using d without_revokeFamily [OF d ms(1)]
    by (auto simp: rotateRefreshWithAccessScript_def Let_def split: option.splits)
qed

lemma without_stale_member_loop:
  "without R B db \<Longrightarrow> without R B (fst (stale_member_loop R fs mn ms db))"
  by (induction ms arbitrary: db) (simp_all add: without_commands split: option.splits)

lemma without_stale_family_step:
  assumes "without R B (fst st)" and "0 < ms"
  shows "without R B (fst (stale_family_step R uf mn ms f st))"
proof -
  obtain db n where st: "st = (db, n)" by (cases st)
  obtain db1 b where loop:
    "stale_member_loop R (family_set f) mn (SMEMBERS R db (family_set f)) db = (db1, b)"
    by (cases "stale_member_loop R (family_set f) mn (SMEMBERS R db (family_set f)) db")
  have d1: "without R B db1"
    using without_stale_member_loop [of db "family_set f" mn "SMEMBERS R db (family_set f)"] assms st loop by simp
  then show ?thesis
    using assms d1
    by (cases b) (simp_all add: stale_family_step_def Let_def st loop without_commands without_drop_family without_marked)
qed

lemma without_revocations:
  assumes d: "without R B db" and ms: "0 < ms"
  shows "without R B (fst (revokeRefreshForClientScript R key1 key2 ms c db))"
    and "without R B (fst (revokeFamilyScript R f ms db))"
    and "without R B (fst (revokeUserRefreshFamiliesScript R uf ms db))"
    and "without R B (fst (revokeUserRefreshFamiliesBeforeAuthVersionScript R uf mn ms db))"
proof -
  show "without R B (fst (revokeRefreshForClientScript R key1 key2 ms c db))"
    using assms by (simp add: revokeRefreshForClientScript_def Let_def without_marked without_commands
        without_drop_family split: option.splits)
  show "without R B (fst (revokeFamilyScript R f ms db))"
    using assms by (simp add: revokeFamilyScript_def without_marked without_drop_family)
  have "without R B (fold (\<lambda>f d. SET R (drop_family R d f) (revoked_marker f) (VText ''1'') ms) fs db)" for fs
    by (rule fold_invariant_on [where P = "without R B"]) (use assms in \<open>simp_all add: without_marked without_drop_family\<close>)
  then show "without R B (fst (revokeUserRefreshFamiliesScript R uf ms db))"
    by (simp add: revokeUserRefreshFamiliesScript_def Let_def without_commands)
  have "without R B (fst (fold (stale_family_step R uf mn ms) fs (db, 0)))" for fs
    by (rule fold_invariant_on [where P = "\<lambda>st. without R B (fst st)"])
       (use d without_stale_family_step [OF _ ms] in auto)
  then show "without R B (fst (revokeUserRefreshFamiliesBeforeAuthVersionScript R uf mn ms db))"
    by (simp add: revokeUserRefreshFamiliesBeforeAuthVersionScript_def case_prod_unfold without_commands)
qed

lemma without_save_refresh:
  assumes d: "without R B db" and cls: "key_class tk = ''refresh''" "key_class uf = ''user-refresh-families''"
    and t: "\<not> B tk (VToken t)"
  shows "without R B (save_refresh_tx R tk (family_set f) uf f (VToken t) ttl db)"
  using assms
  by (simp add: save_refresh_tx_def Let_def without_go_set without_go_expire without_commands value_ok_cases
      member_ok_def)

text \<open>Every operation on tokens keeps the ban when what it would store is not banned.\<close>

lemma without_removals:
  assumes d: "without R B db"
  shows "without R B (fst (RevokeToken R digest db tid))"
    and "without R B (fst (RevokeRefreshTokenForClient R digest db tok c ttl))"
    and "without R B (fst (RevokeRefreshFamily R digest db fid ttl))"
    and "without R B (fst (RevokeRefreshFamiliesForUser R digest db uid ttl))"
    and "without R B (fst (RevokeRefreshFamiliesBeforeAuthVersion R digest db uid mn ttl))"
  using d by (auto simp: RevokeToken_def delCounted_def without_commands RevokeRefreshTokenForClient_def
      RevokeRefreshFamily_def revokeFamilyKey_def RevokeRefreshFamiliesForUser_def
      RevokeRefreshFamiliesBeforeAuthVersion_def split: sum.splits
      intro!: without_call without_revocations dest: ttlMilliseconds_pos)

lemma without_rotations:
  assumes d: "without R B db"
  shows "(\<And>d. without R B d \<Longrightarrow> GET R d (secretKey digest refreshPrefix tok) = Some (VToken (json_token data)) \<Longrightarrow>
        \<not> B (secretKey digest refreshPrefix tok2) (VToken (json_token data))) \<Longrightarrow>
      without R B (fst (RotateRefreshToken R digest db tok tok2 data ttl))"
    and "(\<And>d. without R B d \<Longrightarrow> GET R d (secretKey digest refreshPrefix tok) = Some (VToken (json_token data)) \<Longrightarrow>
        \<not> B (secretKey digest refreshPrefix tok2) (VToken (json_token data)) \<and>
        \<not> B (secretKey digest tokenPrefix tid)
          (VToken (json_token (access\<lparr>td_TokenUse := ''access'', td_FamilyKey := td_FamilyKey data\<rparr>)))) \<Longrightarrow>
      without R B (fst (RotateRefreshTokenAndStoreAccess R digest db tok tok2 tid data access ttl ttl2))"
  using d unfolding secretKey_def [of digest refreshPrefix tok]
  by (auto simp: RotateRefreshToken_def RotateRefreshTokenAndStoreAccess_def split: sum.splits
      intro!: without_call without_rotateRefresh without_rotateRefreshWithAccess dest: ttlMilliseconds_pos)

lemma without_stores:
  assumes d: "without R B db"
  shows "\<not> B (secretKey digest tokenPrefix tid) (VToken (json_token data)) \<Longrightarrow>
      without R B (fst (SaveToken R digest db tid data ttl))"
    and "\<not> B (secretKey digest tokenPrefix tid) (VToken (json_token (data\<lparr>td_FamilyKey := f\<rparr>))) \<Longrightarrow>
      without R B (fst (SaveTokenForRefreshFamily R digest db tid data f ttl))"
    and "(\<And>r. refresh_record digest data random = Inr r \<Longrightarrow>
        \<not> B (secretKey digest refreshPrefix tok) (VToken (json_token r))) \<Longrightarrow>
      without R B (fst (SaveRefreshToken R digest db tok data ttl random))"
proof -
  show "without R B (fst (SaveToken R digest db tid data ttl))"
    if "\<not> B (secretKey digest tokenPrefix tid) (VToken (json_token data))"
    using d that by (simp add: SaveToken_def without_setJSON value_ok_cases)
  show "without R B (fst (SaveTokenForRefreshFamily R digest db tid data f ttl))"
    if "\<not> B (secretKey digest tokenPrefix tid) (VToken (json_token (data\<lparr>td_FamilyKey := f\<rparr>)))"
    using d that ttlMilliseconds_pos [of ttl]
    by (auto simp: SaveTokenForRefreshFamily_def saveFamilyTokenScript_def value_ok_cases
        member_ok_def split: sum.splits intro!: without_call without_commands)
  show "without R B (fst (SaveRefreshToken R digest db tok data ttl random))"
    if "\<And>r. refresh_record digest data random = Inr r \<Longrightarrow>
        \<not> B (secretKey digest refreshPrefix tok) (VToken (json_token r))"
    using d that by (auto simp: SaveRefreshToken_def split: sum.splits intro!: without_call without_save_refresh)
qed

end

text \<open>The ban on the records of one family, and the ban on all records under one token key.\<close>

sublocale redis_server \<subseteq> family_ban: token_ban R "family_record fk" for fk
  by unfold_locales (simp add: family_record_def)

sublocale redis_server \<subseteq> key_ban: token_ban R "key_record k" for k
  by unfold_locales (auto simp: key_record_def)

lemma json_token_family [simp]: "td_FamilyKey (json_token d) = td_FamilyKey d"
  by (simp add: json_token_def)

context redis_server
begin

lemma dead_token_ops:
  assumes d: "dead R fk db"
  shows "dead R fk (fst (RotateRefreshToken R digest db tok tok2 data ttl))"
    and "dead R fk (fst (RotateRefreshTokenAndStoreAccess R digest db tok tok2 tid data access ttl ttl2))"
    and "td_FamilyKey data \<noteq> fk \<Longrightarrow> dead R fk (fst (SaveToken R digest db tid data ttl))"
    and "f \<noteq> fk \<Longrightarrow> dead R fk (fst (SaveTokenForRefreshFamily R digest db tid data f ttl))"
    and "(\<And>r. refresh_record digest data random = Inr r \<Longrightarrow> td_FamilyKey r \<noteq> fk) \<Longrightarrow>
      dead R fk (fst (SaveRefreshToken R digest db tok data ttl random))"
proof -
  have "td_FamilyKey data \<noteq> fk"
    if "dead R fk e" "GET R e (secretKey digest refreshPrefix tok) = Some (VToken (json_token data))" for e
    using without_GET [OF that] by (simp add: key_simps)
  then show "dead R fk (fst (RotateRefreshToken R digest db tok tok2 data ttl))"
    and "dead R fk (fst (RotateRefreshTokenAndStoreAccess R digest db tok tok2 tid data access ttl ttl2))"
    using family_ban.without_rotations [OF d] by simp_all
qed (use family_ban.without_stores [OF d] in simp_all)

section \<open>What kills a family\<close>

lemma sound_marked_dead:
  assumes "sound R M {} db" and "fk \<noteq> []" and "0 < ms"
  shows "dead R fk (SET R (drop_family R db fk) (revoked_marker fk) (VText t) ms)"
proof (rule family_ban.without_marked [OF _ assms(3)])
  show "dead R fk (drop_family R db fk)"
    using sound_typed [OF sound_drop_family(1) [OF assms(1)]] sound_drop_family(2) [OF assms(1,2)]
    by (simp add: dead_iff)
qed

lemma revokeFamily_kills:
  assumes s: "sound R M {} db" and "td_FamilyKey t \<noteq> []" and "0 < ms"
  shows "dead R (td_FamilyKey t) (fst (revokeFamily R uf ms (VToken t) db))"
    and "GET R (fst (revokeFamily R uf ms (VToken t) db)) (revoked_marker (td_FamilyKey t)) = Some (VText ''1'')"
    and "PTTL R (fst (revokeFamily R uf ms (VToken t) db)) (revoked_marker (td_FamilyKey t)) = ms"
proof -
  have "dead R (td_FamilyKey t) (drop_family R db (td_FamilyKey t))"
    using sound_typed [OF sound_drop_family(1) [OF s]] sound_drop_family(2) [OF s assms(2)]
    by (simp add: dead_iff)
  then show "dead R (td_FamilyKey t) (fst (revokeFamily R uf ms (VToken t) db))"
    using assms
    by (simp add: revokeFamily_def lua_text_def Let_def family_ban.without_marked family_ban.without_commands)
  show "GET R (fst (revokeFamily R uf ms (VToken t) db)) (revoked_marker (td_FamilyKey t)) = Some (VText ''1'')"
    "PTTL R (fst (revokeFamily R uf ms (VToken t) db)) (revoked_marker (td_FamilyKey t)) = ms"
    using assms by (simp_all add: revokeFamily_def lua_text_def Let_def SET_obs)
qed
lemma rotation_reuse_kills:
  assumes s: "sound R M {} db"
    and run: "RotateRefreshTokenAndStoreAccess R digest db tok tok2 tid data access ttl ttl2 =
      (db', Inl ErrRefreshTokenReuse)"
  shows "dead R (td_FamilyKey data) db'"
    and "GET R db' (revoked_marker (td_FamilyKey data)) = Some (VText ''1'')"
    and "PTTL R db' (revoked_marker (td_FamilyKey data)) = ttl div Millisecond"
proof -
  let ?d = "snd (LINK R db)" and ?t = "json_token data"
  have fk: "td_FamilyKey ?t \<noteq> []" and ms: "ttlMilliseconds ttl = Inr (ttl div Millisecond)"
    using run by (auto simp: RotateRefreshTokenAndStoreAccess_def ttlMilliseconds_def split: if_splits)
  note pos = ttlMilliseconds_pos(1) [OF ms]
  have sd: "sound R M {} ?d" using sound_evolves [OF evolves_LINK [where K = "{}"] _ s] by simp
  have "db' = fst (revokeFamily R (userRefreshFamiliesPrefix @ digest (td_UserID data))
      (ttl div Millisecond) (VToken ?t) ?d)"
    using run ms
    by (auto simp: RotateRefreshTokenAndStoreAccess_def on_result_def call_split
        rotateRefreshWithAccessScript_def decodeRefreshRotationResult_def revokeFamily_def
        decoded_payload_def Let_def split: if_splits sum.splits prod.splits delivery.splits option.splits
        dest!: ttlMilliseconds_Inl)
  then show "dead R (td_FamilyKey data) db'"
    and "GET R db' (revoked_marker (td_FamilyKey data)) = Some (VText ''1'')"
    and "PTTL R db' (revoked_marker (td_FamilyKey data)) = ttl div Millisecond"
    using revokeFamily_kills [OF sd fk pos] by simp_all
qed

end

end
