(* ===== verification/Session_Clock.thy ===== *)
theory Session_Clock
  imports Session_Base
begin

text \<open>
  The logical clock of a user's authorization of a client in \<open>internal/session/store.go\<close>:
  \<open>AuthorizationIssueTime\<close>, \<open>RevokeUserClientAuthorization\<close> and
  \<open>IsUserClientAuthorizationRevoked\<close>. Readings are microseconds of the Redis wall clock, pushed
  past the last reading and the last revocation of the pair. They stay below \<open>2 ^ 53\<close>, so that
  Lua's numbers hold them exactly.
\<close>

definition grant_pair :: "string \<Rightarrow> string \<Rightarrow> string" where
  "grant_pair userID clientID = userID @ [CHR 0x00] @ clientID"

definition authorizationRevocationKey :: "(string \<Rightarrow> string) \<Rightarrow> string \<Rightarrow> string \<Rightarrow> string" where
  "authorizationRevocationKey digest userID clientID =
     authorizationRevokedPrefix @ digest (grant_pair userID clientID)"

definition authorizationClockKey :: "(string \<Rightarrow> string) \<Rightarrow> string \<Rightarrow> string \<Rightarrow> string" where
  "authorizationClockKey digest userID clientID =
     authorizationClockPrefix @ digest (grant_pair userID clientID)"

definition redis_micros :: "'db redis \<Rightarrow> 'db \<Rightarrow> int" where
  "redis_micros R db = (case TIME R db of (s, us) \<Rightarrow> s * 1000000 + us)"

text \<open>\<open>if stored and tonumber(stored) >= micros then micros = tonumber(stored) + 1 end\<close>; a stored
  text that is no number makes the comparison raise.\<close>

definition past :: "rvalue option \<Rightarrow> int \<Rightarrow> int option" where
  "past stored micros =
     (case stored of
        None \<Rightarrow> Some micros
      | Some v \<Rightarrow> (case decode_num v of
                    None \<Rightarrow> None
                  | Some n \<Rightarrow> Some (if n \<ge> micros then n + 1 else micros)))"

definition next_micros :: "'db redis \<Rightarrow> string \<Rightarrow> string \<Rightarrow> 'db \<Rightarrow> int option" where
  "next_micros R key1 key2 db =
     (case past (GET R db key1) (redis_micros R db) of
        None \<Rightarrow> None
      | Some micros \<Rightarrow> past (GET R db key2) micros)"

definition authorizationIssueTimeScript ::
    "'db redis \<Rightarrow> string \<Rightarrow> string \<Rightarrow> int \<Rightarrow> 'db \<Rightarrow> 'db \<times> int result" where
  "authorizationIssueTimeScript R key1 key2 ms db =
     (case next_micros R key1 key2 db of
        None \<Rightarrow> (db, Inl ErrScript)
      | Some micros \<Rightarrow> (SET R db key1 (VNum micros) ms, Inr micros))"

definition AuthorizationIssueTime ::
    "'db redis \<Rightarrow> (string \<Rightarrow> string) \<Rightarrow> 'db \<Rightarrow> string \<Rightarrow> string \<Rightarrow> duration \<Rightarrow> 'db \<times> int result" where
  "AuthorizationIssueTime R digest db userID clientID ttl =
     (case ttlMilliseconds ttl of
        Inl e \<Rightarrow> (db, Inl e)
      | Inr ms \<Rightarrow>
          call R ErrRedis db
            (authorizationIssueTimeScript R (authorizationClockKey digest userID clientID)
               (authorizationRevocationKey digest userID clientID) ms))"

definition revokeAuthorizationScript ::
    "'db redis \<Rightarrow> string \<Rightarrow> string \<Rightarrow> int \<Rightarrow> 'db \<Rightarrow> 'db \<times> int result" where
  "revokeAuthorizationScript R key1 key2 ms db =
     (case next_micros R key1 key2 db of
        None \<Rightarrow> (db, Inl ErrScript)
      | Some micros \<Rightarrow>
          (SET R (SET R db key1 (VNum micros) ms) key2 (VNum micros) ms, Inr micros))"

definition RevokeUserClientAuthorization ::
    "'db redis \<Rightarrow> (string \<Rightarrow> string) \<Rightarrow> 'db \<Rightarrow> string \<Rightarrow> string \<Rightarrow> duration \<Rightarrow> 'db \<times> int result" where
  "RevokeUserClientAuthorization R digest db userID clientID ttl =
     (case ttlMilliseconds ttl of
        Inl e \<Rightarrow> (db, Inl e)
      | Inr ms \<Rightarrow>
          call R ErrRedis db
            (revokeAuthorizationScript R (authorizationClockKey digest userID clientID)
               (authorizationRevocationKey digest userID clientID) ms))"

definition IsUserClientAuthorizationRevoked ::
    "'db redis \<Rightarrow> (string \<Rightarrow> string) \<Rightarrow> 'db \<Rightarrow> string \<Rightarrow> string \<Rightarrow> int \<Rightarrow> 'db \<times> bool result" where
  "IsUserClientAuthorizationRevoked R digest db userID clientID authorizationIssuedAt =
     call R ErrRedis db (\<lambda>d. (d,
       case GET R d (authorizationRevocationKey digest userID clientID) of
         None \<Rightarrow> Inr False
       | Some v \<Rightarrow> (case decode_num v of
                     None \<Rightarrow> Inl ErrDecode
                   | Some n \<Rightarrow> Inr (authorizationIssuedAt \<le> n))))"

section \<open>Readings\<close>

lemma past_Some: "past stored micros = Some n \<Longrightarrow>
    micros \<le> n \<and> (\<forall>m. stored = Some (VNum m) \<longrightarrow> m < n)"
  by (auto simp: past_def split: option.splits if_splits)

lemma next_micros_Some:
  assumes "next_micros R key1 key2 db = Some n"
  shows "redis_micros R db \<le> n" and "GET R db key1 = Some (VNum m) \<Longrightarrow> m < n"
    and "GET R db key2 = Some (VNum m) \<Longrightarrow> m < n"
  using assms by (fastforce simp: next_micros_def split: option.splits dest!: past_Some)+

lemma clock_key_class [simp]:
  "key_class (authorizationClockKey digest u c) = ''authorization-clock''"
  "key_class (authorizationRevocationKey digest u c) = ''authorization-revoked''"
  by (simp_all add: authorizationClockKey_def authorizationRevocationKey_def)

lemma clock_keys_neq [simp]:
  "authorizationClockKey digest u c \<noteq> authorizationRevocationKey digest u' c'"
  "authorizationRevocationKey digest u c \<noteq> authorizationClockKey digest u' c'"
  by (simp_all add: authorizationClockKey_def authorizationRevocationKey_def key_simps)

context redis_server
begin

lemma writes_clock:
  assumes "0 < ms" and "key_class key1 = ''authorization-clock''" and "key_class key2 = ''authorization-revoked''"
  shows "writes R {key1} db (fst (authorizationIssueTimeScript R key1 key2 ms db))"
    and "writes R {key1, key2} db (fst (revokeAuthorizationScript R key1 key2 ms db))"
  using assms
  by (auto simp: authorizationIssueTimeScript_def revokeAuthorizationScript_def value_ok_cases
      split: option.splits intro!: writes_chain)

lemma evolves_clock:
  "evolves R {authorizationClockKey digest u c} db (fst (AuthorizationIssueTime R digest db u c ttl))"
  "evolves R {authorizationClockKey digest u c, authorizationRevocationKey digest u c} db
     (fst (RevokeUserClientAuthorization R digest db u c ttl))"
  "evolves R K db (fst (IsUserClientAuthorizationRevoked R digest db u c t))"
  by (simp_all add: AuthorizationIssueTime_def RevokeUserClientAuthorization_def
      IsUserClientAuthorizationRevoked_def evolves_call writes_clock ttlMilliseconds_pos split: sum.splits)

lemma AuthorizationIssueTime_Inr:
  assumes "AuthorizationIssueTime R digest db u c ttl = (db', Inr n)"
  shows "GET R db' (authorizationClockKey digest u c) = Some (VNum n)"
    and "PTTL R db' (authorizationClockKey digest u c) = ttl div Millisecond"
    and "next_micros R (authorizationClockKey digest u c) (authorizationRevocationKey digest u c)
           (snd (LINK R db)) = Some n"
    and "GET R db' (authorizationRevocationKey digest u c) =
           GET R (snd (LINK R db)) (authorizationRevocationKey digest u c)"
  using assms
  by (auto simp: AuthorizationIssueTime_def authorizationIssueTimeScript_def SET_obs ttlMilliseconds_Inr
      Millisecond_def split: sum.splits option.splits dest!: call_Inr)

lemma RevokeUserClientAuthorization_Inr:
  assumes "RevokeUserClientAuthorization R digest db u c ttl = (db', Inr n)"
  shows "GET R db' (authorizationClockKey digest u c) = Some (VNum n)"
    and "GET R db' (authorizationRevocationKey digest u c) = Some (VNum n)"
    and "PTTL R db' (authorizationRevocationKey digest u c) = ttl div Millisecond"
    and "next_micros R (authorizationClockKey digest u c) (authorizationRevocationKey digest u c)
           (snd (LINK R db)) = Some n"
  using assms
  by (auto simp: RevokeUserClientAuthorization_def revokeAuthorizationScript_def SET_obs
      ttlMilliseconds_Inr Millisecond_def split: sum.splits option.splits dest!: call_Inr)

lemma IsUserClientAuthorizationRevoked_Inr:
  assumes "IsUserClientAuthorizationRevoked R digest db u c t = (db', Inr b)"
  shows "db' = snd (LINK R db)"
    and "b \<longleftrightarrow> (\<exists>n. GET R db' (authorizationRevocationKey digest u c) = Some (VNum n) \<and> t \<le> n)"
proof -
  have eq: "snd (LINK R db) = db'"
      "(case GET R (snd (LINK R db)) (authorizationRevocationKey digest u c) of
         None \<Rightarrow> Inr False
       | Some v \<Rightarrow> (case decode_num v of None \<Rightarrow> Inl ErrDecode | Some n \<Rightarrow> Inr (t \<le> n))) = Inr b"
    using call_Inr [OF assms [unfolded IsUserClientAuthorizationRevoked_def]] by auto
  show "db' = snd (LINK R db)" using eq(1) by simp
  show "b \<longleftrightarrow> (\<exists>n. GET R db' (authorizationRevocationKey digest u c) = Some (VNum n) \<and> t \<le> n)"
    using eq(2) unfolding eq(1) by (auto split: option.splits)
qed

end

end
