(* ===== verification/Session_Browser.thy ===== *)
theory Session_Browser
  imports Session_Base
begin

text \<open>
  Browser sessions of \<open>internal/session/store.go\<close>: the session record under its digest, the set
  of a user's session keys under \<open>user-sessions:\<close>, and the sorted set of all session keys by
  expiry. Saving enforces the limit of concurrent sessions by evicting the oldest ones;
  revocation after a security change removes exactly the sessions of older versions.

  \<open>sort.Slice\<close> leaves the order of equal elements open; the model keeps the order of the
  members for sessions created at the same instant.
\<close>

section \<open>Saving\<close>

text \<open>Removing one session key from the record, the user's set and the global index.\<close>

definition drop_session :: "'db redis \<Rightarrow> string \<Rightarrow> string \<Rightarrow> string \<Rightarrow> 'db \<Rightarrow> 'db" where
  "drop_session R userSet allKey member db =
     ZREM R (SREM R (DEL R db member) userSet member) allKey member"

definition redis_millis :: "'db redis \<Rightarrow> 'db \<Rightarrow> int" where
  "redis_millis R db = (case TIME R db of (s, us) \<Rightarrow> s * 1000 + us div 1000)"

definition active_step ::
    "'db redis \<Rightarrow> string \<Rightarrow> string \<Rightarrow> string \<Rightarrow> 'db \<times> (int \<times> string) list \<Rightarrow> 'db \<times> (int \<times> string) list" where
  "active_step R userSet allKey member st =
     (case st of (db, active) \<Rightarrow>
        (case GET R db member of
           None \<Rightarrow> (ZREM R (SREM R db userSet member) allKey member, active)
         | Some v \<Rightarrow>
             (if \<not> lua_table v then (drop_session R userSet allKey member db, active)
              else (db, active @ [(lua_created v, member)]))))"

definition saveSessionScript ::
    "'db redis \<Rightarrow> string \<Rightarrow> string \<Rightarrow> string \<Rightarrow> rvalue \<Rightarrow> int \<Rightarrow> int \<Rightarrow> 'db \<Rightarrow> 'db \<times> int result" where
  "saveSessionScript R key1 key2 key3 encoded ms limit db =
     (let db1 = SET R db key1 encoded ms;
          db2 = raise_ttl R (SADD R db1 key2 key1) key2 ms;
          db3 = ZADD R db2 key3 (redis_millis R db2 + ms) key1
      in if limit \<le> 0 then (db3, Inr 0)
         else
           let (db4, active) = fold (active_step R key2 key3) (SMEMBERS R db3 key2) (db3, []);
               removeCount = int (length active) - limit;
               db5 = fold (\<lambda>e. drop_session R key2 key3 (snd e)) (take (nat removeCount) (sort active)) db4
           in (del_if_empty R db5 key2, Inr (max removeCount 0)))"

text \<open>The record \<open>SaveSessionWithLimit\<close> completes through the pointer it is given.\<close>

definition session_record ::
    "(string \<Rightarrow> string) \<Rightarrow> session_data \<Rightarrow> string option \<Rightarrow> string option \<Rightarrow> gotime \<Rightarrow> session_data result" where
  "session_record digest data csrfRandom idRandom now =
     (if sd_CSRFToken data = [] \<and> csrfRandom = None then Inl ErrRandom
      else if sd_PublicID data = [] \<and> idRandom = None then Inl ErrRandom
      else
        let csrf = (if sd_CSRFToken data = [] then the csrfRandom else sd_CSRFToken data);
            publicID = (if sd_PublicID data = [] then the idRandom else sd_PublicID data);
            created = (if sd_CreatedAt data = 0 then now else sd_CreatedAt data);
            millis = (if sd_CreatedAtUnixMilli data = 0 then UnixMilli created else sd_CreatedAtUnixMilli data);
            seen = (if sd_LastSeenAt data = 0 then created else sd_LastSeenAt data);
            authenticated = (if sd_AuthenticatedAt data = 0 then created else sd_AuthenticatedAt data)
        in Inr (data\<lparr>sd_CSRFToken := csrf, sd_PublicID := publicID, sd_CreatedAt := created,
                     sd_CreatedAtUnixMilli := millis, sd_LastSeenAt := seen,
                     sd_AuthenticatedAt := authenticated, sd_UserKey := digest (sd_UserID data)\<rparr>))"

definition SaveSessionWithLimit ::
    "'db redis \<Rightarrow> (string \<Rightarrow> string) \<Rightarrow> 'db \<Rightarrow> string \<Rightarrow> session_data \<Rightarrow> duration \<Rightarrow> int \<Rightarrow>
     string option \<Rightarrow> string option \<Rightarrow> gotime \<Rightarrow> 'db \<times> (session_data \<times> int) result" where
  "SaveSessionWithLimit R digest db sessionID data ttl maxSessions csrfRandom idRandom now =
     (if sd_UserID data = [] \<or> sessionID = [] \<or> maxSessions < 0 then (db, Inl ErrInvalidTokenData)
      else case session_record digest data csrfRandom idRandom now of
             Inl e \<Rightarrow> (db, Inl e)
           | Inr data' \<Rightarrow>
               (case ttlMilliseconds ttl of
                  Inl e \<Rightarrow> (db, Inl e)
                | Inr ttlMillis \<Rightarrow>
                    on_result (\<lambda>removed. Inr (data', removed))
                      (call R ErrRedis db
                         (saveSessionScript R (secretKey digest sessionPrefix sessionID)
                            (userSessionsPrefix @ sd_UserKey data') allSessionsKey (VSession data')
                            ttlMillis maxSessions))))"

definition SaveSession ::
    "'db redis \<Rightarrow> (string \<Rightarrow> string) \<Rightarrow> 'db \<Rightarrow> string \<Rightarrow> session_data \<Rightarrow> duration \<Rightarrow>
     string option \<Rightarrow> string option \<Rightarrow> gotime \<Rightarrow> 'db \<times> session_data result" where
  "SaveSession R digest db sessionID data ttl csrfRandom idRandom now =
     on_result (\<lambda>r. Inr (fst r))
       (SaveSessionWithLimit R digest db sessionID data ttl 0 csrfRandom idRandom now)"

definition updateSessionScript ::
    "'db redis \<Rightarrow> string \<Rightarrow> string \<Rightarrow> string \<Rightarrow> rvalue \<Rightarrow> int \<Rightarrow> string \<Rightarrow> int \<Rightarrow> int \<Rightarrow> 'db \<Rightarrow>
     'db \<times> int result" where
  "updateSessionScript R key1 key2 key3 encoded ms userKey authVersion sessionVersion db =
     (case GET R db key1 of
        None \<Rightarrow> (db, Inr 0)
      | Some current \<Rightarrow>
          (if lua_user_key current \<noteq> Some userKey then (db, Inr (-1))
           else if lua_auth_version current \<noteq> Some authVersion then (db, Inr (-1))
           else if lua_session_version current \<noteq> Some sessionVersion then (db, Inr (-1))
           else
             let db1 = SET R db key1 encoded ms;
                 db2 = raise_ttl R (SADD R db1 key2 key1) key2 ms
             in (ZADD R db2 key3 (redis_millis R db2 + ms) key1, Inr 1)))"

definition UpdateSession ::
    "'db redis \<Rightarrow> (string \<Rightarrow> string) \<Rightarrow> 'db \<Rightarrow> string \<Rightarrow> session_data \<Rightarrow> int \<Rightarrow> int \<Rightarrow> duration \<Rightarrow>
     'db \<times> unit result" where
  "UpdateSession R digest db sessionID data expectedAuthVersion expectedSessionVersion ttl =
     (if sessionID = [] \<or> sd_UserID data = [] \<or> sd_CSRFToken data = [] \<or> sd_PublicID data = []
      then (db, Inl ErrInvalidTokenData)
      else
        let userKey = digest (sd_UserID data); data' = data\<lparr>sd_UserKey := userKey\<rparr> in
        case ttlMilliseconds ttl of
          Inl e \<Rightarrow> (db, Inl e)
        | Inr ttlMillis \<Rightarrow>
            on_result (\<lambda>result. if result = 0 then Inl ErrNotFound
                                else if result = -1 then Inl ErrValueMismatch
                                else if result = 1 then Inr ()
                                else Inl (ErrUnexpected result))
              (call R ErrRedis db
                 (updateSessionScript R (secretKey digest sessionPrefix sessionID)
                    (userSessionsPrefix @ userKey) allSessionsKey (VSession data') ttlMillis userKey
                    expectedAuthVersion expectedSessionVersion)))"

definition GetSession ::
    "'db redis \<Rightarrow> (string \<Rightarrow> string) \<Rightarrow> 'db \<Rightarrow> string \<Rightarrow> 'db \<times> session_data result" where
  "GetSession R digest db sessionID =
     getJSON R db (secretKey digest sessionPrefix sessionID) decode_session"

section \<open>Deleting\<close>

definition deleteSessionScript ::
    "'db redis \<Rightarrow> string \<Rightarrow> string \<Rightarrow> 'db \<Rightarrow> 'db \<times> int result" where
  "deleteSessionScript R key1 allKey db =
     (case GET R db key1 of
        None \<Rightarrow> (db, Inr 0)
      | Some current \<Rightarrow>
          (case lua_user_key current of
             None \<Rightarrow> (db, Inl ErrScript)
           | Some userKey \<Rightarrow>
               let userSet = userSessionsPrefix @ userKey
               in (del_if_empty R (drop_session R userSet allKey key1 db) userSet, Inr 1)))"

text \<open>The integer replies of the deletion scripts, where 0 means that there was no session.\<close>

definition zero_not_found :: "int \<Rightarrow> unit result" where
  "zero_not_found result = (if result = 0 then Inl ErrNotFound else Inr ())"

definition DeleteSession ::
    "'db redis \<Rightarrow> (string \<Rightarrow> string) \<Rightarrow> 'db \<Rightarrow> string \<Rightarrow> 'db \<times> unit result" where
  "DeleteSession R digest db sessionID =
     on_result zero_not_found
       (call R ErrRedis db (deleteSessionScript R (secretKey digest sessionPrefix sessionID) allSessionsKey))"

definition deleteOtherSessionsScript ::
    "'db redis \<Rightarrow> string \<Rightarrow> string \<Rightarrow> string \<Rightarrow> 'db \<Rightarrow> 'db \<times> int result" where
  "deleteOtherSessionsScript R key1 keep allKey db =
     (let others = filter (\<lambda>m. m \<noteq> keep) (SMEMBERS R db key1);
          db1 = fold (drop_session R key1 allKey) others db
      in (del_if_empty R db1 key1, Inr (int (length others))))"

definition DeleteOtherUserSessions ::
    "'db redis \<Rightarrow> (string \<Rightarrow> string) \<Rightarrow> 'db \<Rightarrow> string \<Rightarrow> string \<Rightarrow> 'db \<times> int result" where
  "DeleteOtherUserSessions R digest db userID currentSessionID =
     (let keep = (if currentSessionID \<noteq> [] then secretKey digest sessionPrefix currentSessionID else [])
      in call R ErrRedis db
           (deleteOtherSessionsScript R (userSessionsPrefix @ digest userID) keep allSessionsKey))"

definition DeleteUserSessions ::
    "'db redis \<Rightarrow> (string \<Rightarrow> string) \<Rightarrow> 'db \<Rightarrow> string \<Rightarrow> 'db \<times> int result" where
  "DeleteUserSessions R digest db userID = DeleteOtherUserSessions R digest db userID []"

text \<open>The test of the security-version cleanup: the record is not a session of this user at the
  minimum versions or later.\<close>

definition outdated_session :: "int \<Rightarrow> int \<Rightarrow> string \<Rightarrow> rvalue \<Rightarrow> bool" where
  "outdated_session minAuth minSession userKey v =
     (\<not> lua_table v \<or>
      (case (lua_auth_version v, lua_session_version v) of
         (Some a, Some s) \<Rightarrow> lua_user_key v \<noteq> Some userKey \<or> a < minAuth \<or> s < minSession
       | _ \<Rightarrow> True))"

definition outdated_step ::
    "'db redis \<Rightarrow> string \<Rightarrow> string \<Rightarrow> int \<Rightarrow> int \<Rightarrow> string \<Rightarrow> string \<Rightarrow> 'db \<times> int \<Rightarrow> 'db \<times> int" where
  "outdated_step R userSet allKey minAuth minSession userKey member st =
     (case st of (db, deleted) \<Rightarrow>
        (case GET R db member of
           None \<Rightarrow> (ZREM R (SREM R db userSet member) allKey member, deleted)
         | Some v \<Rightarrow>
             (if outdated_session minAuth minSession userKey v
              then (drop_session R userSet allKey member db, deleted + 1)
              else (db, deleted))))"

definition deleteSessionsBeforeSecurityVersionScript ::
    "'db redis \<Rightarrow> string \<Rightarrow> int \<Rightarrow> int \<Rightarrow> string \<Rightarrow> string \<Rightarrow> 'db \<Rightarrow> 'db \<times> int result" where
  "deleteSessionsBeforeSecurityVersionScript R key1 minAuth minSession allKey userKey db =
     (case fold (outdated_step R key1 allKey minAuth minSession userKey) (SMEMBERS R db key1) (db, 0) of
        (db1, deleted) \<Rightarrow> (del_if_empty R db1 key1, Inr deleted))"

definition DeleteUserSessionsBeforeSecurityVersion ::
    "'db redis \<Rightarrow> (string \<Rightarrow> string) \<Rightarrow> 'db \<Rightarrow> string \<Rightarrow> int \<Rightarrow> int \<Rightarrow> 'db \<times> int result" where
  "DeleteUserSessionsBeforeSecurityVersion R digest db userID minimumAuthVersion minimumSessionVersion =
     (if userID = [] \<or> minimumAuthVersion \<le> 0 \<or> minimumSessionVersion \<le> 0 then (db, Inl ErrVersion)
      else
        let userKey = digest userID in
        call R ErrRedis db
          (deleteSessionsBeforeSecurityVersionScript R (userSessionsPrefix @ userKey)
             minimumAuthVersion minimumSessionVersion allSessionsKey userKey))"

definition DeleteUserSessionsBeforeVersion ::
    "'db redis \<Rightarrow> (string \<Rightarrow> string) \<Rightarrow> 'db \<Rightarrow> string \<Rightarrow> int \<Rightarrow> 'db \<times> int result" where
  "DeleteUserSessionsBeforeVersion R digest db userID minimumVersion =
     (if minimumVersion \<le> 0 then (db, Inl ErrVersion)
      else DeleteUserSessionsBeforeSecurityVersion R digest db userID 1 minimumVersion)"

text \<open>The loop of \<open>deleteSessionByPublicIDScript\<close>, which returns at the first match.\<close>

fun public_id_loop ::
    "'db redis \<Rightarrow> string \<Rightarrow> string \<Rightarrow> string \<Rightarrow> string list \<Rightarrow> 'db \<Rightarrow> 'db \<times> int" where
  "public_id_loop R userSet allKey publicID [] db = (del_if_empty R db userSet, 0)"
| "public_id_loop R userSet allKey publicID (m # ms) db =
     (case GET R db m of
        None \<Rightarrow> public_id_loop R userSet allKey publicID ms (SREM R db userSet m)
      | Some v \<Rightarrow>
          (if lua_public_id v = Some publicID
           then (del_if_empty R (drop_session R userSet allKey m db) userSet, 1)
           else public_id_loop R userSet allKey publicID ms db))"

definition deleteSessionByPublicIDScript ::
    "'db redis \<Rightarrow> string \<Rightarrow> string \<Rightarrow> string \<Rightarrow> 'db \<Rightarrow> 'db \<times> int result" where
  "deleteSessionByPublicIDScript R key1 key2 publicID db =
     (case public_id_loop R key1 key2 publicID (SMEMBERS R db key1) db of (db1, n) \<Rightarrow> (db1, Inr n))"

definition DeleteUserSessionByPublicID ::
    "'db redis \<Rightarrow> (string \<Rightarrow> string) \<Rightarrow> 'db \<Rightarrow> string \<Rightarrow> string \<Rightarrow> 'db \<times> unit result" where
  "DeleteUserSessionByPublicID R digest db userID publicID =
     (if publicID = [] then (db, Inl ErrNotFound)
      else on_result zero_not_found
             (call R ErrRedis db
                (deleteSessionByPublicIDScript R (userSessionsPrefix @ digest userID) allSessionsKey publicID)))"

section \<open>Reading, touching and counting\<close>

fun collect_sessions ::
    "(string \<times> rvalue option) list \<Rightarrow> session_data list \<Rightarrow> string list \<Rightarrow>
     (session_data list \<times> string list) result" where
  "collect_sessions [] items stale = Inr (items, stale)"
| "collect_sessions ((m, r) # rest) items stale =
     (case r of
        None \<Rightarrow> collect_sessions rest items (stale @ [m])
      | Some v \<Rightarrow> (case decode_session v of
                    None \<Rightarrow> Inl ErrDecode
                  | Some item \<Rightarrow> collect_sessions rest (items @ [item]) stale))"

definition ListUserSessions ::
    "'db redis \<Rightarrow> (string \<Rightarrow> string) \<Rightarrow> 'db \<Rightarrow> string \<Rightarrow> 'db \<times> session_data list result" where
  "ListUserSessions R digest db userID =
     (let setKey = userSessionsPrefix @ digest userID in
      and_then (call R ErrRedis db (\<lambda>d. (d, Inr (SMEMBERS R d setKey))))
        (\<lambda>db1 members.
           if members = [] then (db1, Inr [])
           else
             and_then
               (on_result (\<lambda>replies. collect_sessions (zip members replies) [] [])
                  (call R ErrRedis db1 (\<lambda>d. (d, Inr (map (GET R d) members)))))
               (\<lambda>db2 (items, stale).
                  (if stale = [] then db2
                   else fst (call R ErrRedis db2
                          (\<lambda>d. (fold (\<lambda>m d. SREM R d setKey m) stale d, Inr ()))),
                   Inr (sort_key (\<lambda>s. - sd_CreatedAt s) items)))))"

definition touchSessionScript ::
    "'db redis \<Rightarrow> string \<Rightarrow> gotime \<Rightarrow> 'db \<Rightarrow> 'db \<times> int result" where
  "touchSessionScript R key1 seenAt db =
     (case GET R db key1 of
        None \<Rightarrow> (db, Inr 0)
      | Some encoded \<Rightarrow>
          (case decode_session encoded of
             None \<Rightarrow> (db, Inl ErrScript)
           | Some s \<Rightarrow> (SETKEEP R db key1 (VSession (s\<lparr>sd_LastSeenAt := seenAt\<rparr>)), Inr 1)))"

definition TouchSession ::
    "'db redis \<Rightarrow> (string \<Rightarrow> string) \<Rightarrow> 'db \<Rightarrow> string \<Rightarrow> gotime \<Rightarrow> 'db \<times> unit result" where
  "TouchSession R digest db sessionID seenAt =
     on_result zero_not_found
       (call R ErrRedis db (touchSessionScript R (secretKey digest sessionPrefix sessionID) seenAt))"

definition countActiveSessionsScript :: "'db redis \<Rightarrow> string \<Rightarrow> 'db \<Rightarrow> 'db \<times> int result" where
  "countActiveSessionsScript R key db =
     (let db1 = ZREMRANGEBYSCORE R db key (redis_millis R db) in (db1, Inr (ZCARD R db1 key)))"

definition CountActiveSessions :: "'db redis \<Rightarrow> 'db \<Rightarrow> 'db \<times> int result" where
  "CountActiveSessions R db = call R ErrRedis db (countActiveSessionsScript R allSessionsKey)"

section \<open>Sweeping a user's set\<close>

text \<open>
  The loops of the saving and the cleanup scripts visit the members of a user's set, forget the
  members whose record has expired and drop those whose record satisfies a test.
\<close>

definition sweep :: "'db redis \<Rightarrow> string \<Rightarrow> string \<Rightarrow> (rvalue \<Rightarrow> bool) \<Rightarrow> string list \<Rightarrow> 'db \<Rightarrow> 'db" where
  "sweep R us all P ms db =
     fold (\<lambda>m d. case GET R d m of
         None \<Rightarrow> ZREM R (SREM R d us m) all m
       | Some v \<Rightarrow> if P v then drop_session R us all m d else d) ms db"

lemma sweep_simps [simp]:
  "sweep R us all P [] db = db"
  "sweep R us all P (m # ms) db = sweep R us all P ms (case GET R db m of
         None \<Rightarrow> ZREM R (SREM R db us m) all m
       | Some v \<Rightarrow> if P v then drop_session R us all m db else db)"
  by (simp_all add: sweep_def)

lemma fst_outdated_fold:
  "fst (fold (outdated_step R us all a s uk) ms st) = sweep R us all (outdated_session a s uk) ms (fst st)"
  by (induction ms arbitrary: st) (auto simp: outdated_step_def split: prod.splits option.splits)

lemma fst_active_fold:
  "fst (fold (active_step R us all) ms st) = sweep R us all (\<lambda>v. \<not> lua_table v) ms (fst st)"
  by (induction ms arbitrary: st) (auto simp: active_step_def split: prod.splits option.splits)

definition session_keys :: "string set" where
  "session_keys = {k. key_class k \<in> {''session'', ''user-sessions'', ''sessions''}}"

lemma in_session_keys [simp]: "k \<in> session_keys \<longleftrightarrow>
    key_class k = ''session'' \<or> key_class k = ''user-sessions'' \<or> key_class k = ''sessions''"
  by (simp add: session_keys_def)

context redis_server
begin

lemma drop_session_obs:
  assumes "us \<noteq> m" and "all \<noteq> m"
  shows "GET R (drop_session R us all m db) j = (if j = m then None else GET R db j)"
    and "members R (drop_session R us all m db) us = members R db us - {m}"
  using assms by (auto simp: drop_session_def ZREM_obs SREM_obs DEL_obs)

lemma writes_drop_session:
  "key_class m = ''session'' \<Longrightarrow> key_class us = ''user-sessions'' \<Longrightarrow> key_class all = ''sessions'' \<Longrightarrow>
   writes R session_keys db (drop_session R us all m db)"
  unfolding drop_session_def by (intro writes_chain) simp_all

lemma sweep_GET:
  assumes "us \<notin> set ms" and "all \<notin> set ms"
  shows "GET R (sweep R us all P ms db) j =
    (if j \<in> set ms \<and> (\<exists>v. GET R db j = Some v \<and> P v) then None else GET R db j)"
  using assms
proof (induction ms arbitrary: db)
  case (Cons m ms)
  let ?d = "case GET R db m of None \<Rightarrow> ZREM R (SREM R db us m) all m
       | Some v \<Rightarrow> if P v then drop_session R us all m db else db"
  have g: "GET R ?d i = (if i = m \<and> (\<exists>v. GET R db i = Some v \<and> P v) then None else GET R db i)" for i
    using Cons.prems drop_session_obs(1) [of us m all db i]
    by (cases "GET R db m") (auto simp: ZREM_obs SREM_obs)
  have "GET R (sweep R us all P ms ?d) j =
      (if j \<in> set ms \<and> (\<exists>v. GET R ?d j = Some v \<and> P v) then None else GET R ?d j)"
    using Cons by simp
  then show ?case unfolding g by (cases "j = m") auto
qed simp

text \<open>The entries that the loop of the saving script collects: the live sessions.\<close>

abbreviation live_entries :: "'db \<Rightarrow> string list \<Rightarrow> (int \<times> string) list" where
  "live_entries db ms \<equiv> map (\<lambda>m. (lua_created (the (GET R db m)), m))
     (filter (\<lambda>m. \<exists>v. GET R db m = Some v \<and> lua_table v) ms)"

lemma snd_active_fold:
  assumes "us \<notin> set ms" and "all \<notin> set ms"
  shows "snd (fold (active_step R us all) ms (db, acc)) = acc @ live_entries db ms"
  using assms
proof (induction ms arbitrary: db acc)
  case (Cons m ms)
  obtain d acc' where st: "active_step R us all m (db, acc) = (d, acc')"
    by (cases "active_step R us all m (db, acc)")
  have acc': "acc' = acc @ live_entries db [m]"
    using st by (auto simp: active_step_def split: option.splits if_splits)
  have g: "GET R d i = (if i = m \<and> (\<exists>v. GET R db i = Some v \<and> \<not> lua_table v) then None else GET R db i)" for i
    using st Cons.prems drop_session_obs(1) [of us m all db i]
    by (auto simp: active_step_def ZREM_obs SREM_obs split: option.splits if_splits)
  have live: "(\<exists>v. GET R d i = Some v \<and> lua_table v) \<longleftrightarrow> (\<exists>v. GET R db i = Some v \<and> lua_table v)" for i
    unfolding g by auto
  have "live_entries d ms = live_entries db ms"
    unfolding live by (rule map_cong [OF refl]) (auto simp: g)
  with Cons st acc' show ?case by simp
qed simp

lemma sweep_members:
  assumes "us \<notin> set ms" and "all \<notin> set ms"
  shows "members R (sweep R us all P ms db) us =
    {m \<in> members R db us. m \<in> set ms \<longrightarrow> (\<exists>v. GET R db m = Some v \<and> \<not> P v)}"
  using assms
proof (induction ms arbitrary: db)
  case (Cons m ms)
  let ?d = "case GET R db m of None \<Rightarrow> ZREM R (SREM R db us m) all m
       | Some v \<Rightarrow> if P v then drop_session R us all m db else db"
  have g: "GET R ?d i = (if i = m \<and> (\<exists>v. GET R db i = Some v \<and> P v) then None else GET R db i)" for i
    using Cons.prems drop_session_obs(1) [of us m all db i]
    by (cases "GET R db m") (auto simp: ZREM_obs SREM_obs)
  have u: "members R ?d us = members R db us - (if \<exists>v. GET R db m = Some v \<and> \<not> P v then {} else {m})"
    using Cons.prems drop_session_obs(2) [of us m all db]
    by (cases "GET R db m") (auto simp: ZREM_obs SREM_obs)
  have "members R (sweep R us all P ms ?d) us =
      {i \<in> members R ?d us. i \<in> set ms \<longrightarrow> (\<exists>v. GET R ?d i = Some v \<and> \<not> P v)}"
    using Cons by simp
  then show ?case unfolding g u by (auto split: if_splits)
qed simp

lemma writes_sweep:
  assumes "\<forall>m \<in> set ms. key_class m = ''session''" and "key_class us = ''user-sessions''"
    and "key_class all = ''sessions''"
  shows "writes R session_keys db (sweep R us all P ms db)"
  unfolding sweep_def
proof (rule writes_fold)
  fix m d assume "m \<in> set ms"
  then have c: "key_class m = ''session''" using assms by simp
  have "writes R session_keys d (ZREM R (SREM R d us m) all m)"
    by (intro writes_chain) (use assms in simp_all)
  with writes_drop_session [OF c assms(2,3)]
  show "writes R session_keys d (case GET R d m of None \<Rightarrow> ZREM R (SREM R d us m) all m
      | Some v \<Rightarrow> if P v then drop_session R us all m d else d)"
    by (simp split: option.splits)
qed

lemma user_set_classes:
  "typed R db \<Longrightarrow> key_class us = ''user-sessions'' \<Longrightarrow> \<forall>m \<in> members R db us. key_class m = ''session''"
  using typed_member [of R db _ us] by (auto simp: member_ok_def)

lemma writes_store_session:
  assumes "0 < ms" and "key_class k = ''session''" and "key_class us = ''user-sessions''"
    and "key_class all = ''sessions''"
  shows "writes R session_keys db (ZADD R (raise_ttl R (SADD R (SET R db k (VSession d) ms) us k) us ms) all sc k)"
  by (intro writes_chain) (use assms in \<open>simp_all add: value_ok_cases member_ok_def\<close>)

lemma writes_saveSession:
  assumes "0 < ms" and "key_class k = ''session''" and "key_class us = ''user-sessions''"
    and "key_class all = ''sessions''"
  shows "writes R session_keys db (fst (saveSessionScript R k us all (VSession d) ms limit db))"
proof (rule writes_typed)
  assume t: "typed R db"
  define db3 where "db3 = (let db2 = raise_ttl R (SADD R (SET R db k (VSession d) ms) us k) us ms
    in ZADD R db2 all (redis_millis R db2 + ms) k)"
  have w3: "writes R session_keys db db3"
    unfolding db3_def Let_def by (rule writes_store_session [OF assms])
  have t3: "typed R db3" using w3 t by (simp add: writes_def)
  let ?st = "fold (active_step R us all) (SMEMBERS R db3 us) (db3, [])"
  have c: "\<forall>m \<in> set (SMEMBERS R db3 us). key_class m = ''session''"
    using user_set_classes [OF t3 assms(3)] by simp
  have w4: "writes R session_keys db (fst ?st)"
    by (simp add: fst_active_fold writes_trans [OF w3 writes_sweep [OF c assms(3,4)]])
  have sets: "us \<notin> set (SMEMBERS R db3 us)" "all \<notin> set (SMEMBERS R db3 us)"
    using c assms(3,4) by auto
  have c5: "key_class (snd x) = ''session''" if "x \<in> set (take n (sort (snd ?st)))" for x n
    using that c by (auto simp: snd_active_fold [OF sets] dest!: in_set_takeD)
  have w5: "writes R session_keys db
      (fold (\<lambda>e. drop_session R us all (snd e)) (take n (sort (snd ?st))) (fst ?st))" for n
    by (rule writes_trans [OF w4 writes_fold]) (rule writes_drop_session [OF c5 assms(3,4)])
  have w6: "writes R session_keys db (del_if_empty R
      (fold (\<lambda>e. drop_session R us all (snd e)) (take n (sort (snd ?st))) (fst ?st)) us)" for n
    by (rule writes_trans [OF w5 writes_del_if_empty]) (simp add: assms)
  show "writes R session_keys db (fst (saveSessionScript R k us all (VSession d) ms limit db))"
    using w3 w6 unfolding saveSessionScript_def db3_def [symmetric] Let_def
    by (simp add: case_prod_unfold db3_def Let_def)
qed

lemma writes_updateSession:
  assumes "0 < ms" and "key_class k = ''session''" and "key_class us = ''user-sessions''"
    and "key_class all = ''sessions''"
  shows "writes R session_keys db (fst (updateSessionScript R k us all (VSession d) ms uk a s db))"
  using writes_store_session [OF assms]
  by (simp add: updateSessionScript_def Let_def split: option.splits)

lemma writes_drop_one:
  assumes "key_class m = ''session''" and "key_class us = ''user-sessions''" and "key_class all = ''sessions''"
  shows "writes R session_keys db (del_if_empty R (drop_session R us all m db) us)"
  by (rule writes_trans [OF writes_drop_session writes_del_if_empty]) (use assms in simp_all)

lemma writes_deleteSession:
  "key_class k = ''session'' \<Longrightarrow> key_class all = ''sessions'' \<Longrightarrow>
   writes R session_keys db (fst (deleteSessionScript R k all db))"
  by (simp add: deleteSessionScript_def Let_def writes_drop_one split: option.splits)

lemma writes_session_deletions:
  assumes "key_class us = ''user-sessions''" and "key_class all = ''sessions''"
  shows "writes R session_keys db (fst (deleteOtherSessionsScript R us keep all db))"
    and "writes R session_keys db
      (fst (deleteSessionsBeforeSecurityVersionScript R us a s all uk db))"
    and "writes R session_keys db (fst (deleteSessionByPublicIDScript R us all pid db))"
proof -
  show "writes R session_keys db (fst (deleteOtherSessionsScript R us keep all db))"
  proof (rule writes_typed)
    assume t: "typed R db"
    show "writes R session_keys db (fst (deleteOtherSessionsScript R us keep all db))"
      unfolding deleteOtherSessionsScript_def Let_def fst_conv
      by (rule writes_trans [OF writes_fold writes_del_if_empty])
         (use user_set_classes [OF t assms(1)] assms in \<open>simp_all add: writes_drop_session\<close>)
  qed
  show "writes R session_keys db (fst (deleteSessionsBeforeSecurityVersionScript R us a s all uk db))"
  proof (rule writes_typed)
    assume t: "typed R db"
    have "writes R session_keys db (sweep R us all P (SMEMBERS R db us) db)" for P
      by (rule writes_sweep) (use user_set_classes [OF t assms(1)] assms in simp_all)
    then have "writes R session_keys db (del_if_empty R (sweep R us all P (SMEMBERS R db us) db) us)" for P
      by (rule writes_trans [OF _ writes_del_if_empty]) (simp add: assms)
    then show "writes R session_keys db (fst (deleteSessionsBeforeSecurityVersionScript R us a s all uk db))"
      by (simp add: deleteSessionsBeforeSecurityVersionScript_def case_prod_unfold fst_outdated_fold)
  qed
  have loop: "\<forall>m \<in> set ms. key_class m = ''session'' \<Longrightarrow>
      writes R session_keys d (fst (public_id_loop R us all pid ms d))" for ms d
  proof (induction ms arbitrary: d)
    case Nil
    show ?case using writes_del_if_empty [of us session_keys d] assms by simp
  next
    case (Cons m ms)
    have us: "us \<in> session_keys" using assms by simp
    have "writes R session_keys d (fst (public_id_loop R us all pid ms (SREM R d us m)))"
      using Cons.IH [of "SREM R d us m"] Cons.prems by (simp add: writes_trans [OF writes_SREM [OF us]])
    then show ?case using Cons writes_drop_one [of m us all d] assms by (simp split: option.splits)
  qed
  show "writes R session_keys db (fst (deleteSessionByPublicIDScript R us all pid db))"
    by (rule writes_typed)
       (use loop user_set_classes assms in \<open>simp add: deleteSessionByPublicIDScript_def case_prod_unfold\<close>)
qed

lemma writes_touch: "key_class k = ''session'' \<Longrightarrow> writes R session_keys db (fst (touchSessionScript R k t db))"
  by (auto simp: touchSessionScript_def value_ok_cases split: option.splits intro!: writes_SETKEEP)

lemma writes_countActive:
  "key_class all = ''sessions'' \<Longrightarrow> writes R session_keys db (fst (countActiveSessionsScript R all db))"
  by (simp add: countActiveSessionsScript_def Let_def writes_ZREMRANGEBYSCORE)

lemma evolves_sessions:
  "evolves R session_keys db (fst (SaveSessionWithLimit R digest db sid data ttl limit r1 r2 now))"
  "evolves R session_keys db (fst (UpdateSession R digest db sid data a s ttl))"
  "evolves R session_keys db (fst (DeleteSession R digest db sid))"
  "evolves R session_keys db (fst (DeleteOtherUserSessions R digest db uid cur))"
  "evolves R session_keys db (fst (DeleteUserSessionsBeforeSecurityVersion R digest db uid a s))"
  "evolves R session_keys db (fst (DeleteUserSessionByPublicID R digest db uid pid))"
  "evolves R session_keys db (fst (TouchSession R digest db sid seen))"
  "evolves R session_keys db (fst (CountActiveSessions R db))"
  by (simp_all add: SaveSessionWithLimit_def UpdateSession_def DeleteSession_def
      DeleteOtherUserSessions_def DeleteUserSessionsBeforeSecurityVersion_def
      DeleteUserSessionByPublicID_def TouchSession_def CountActiveSessions_def Let_def evolves_call
      writes_saveSession writes_updateSession writes_deleteSession writes_session_deletions writes_touch
      writes_countActive ttlMilliseconds_pos split: sum.splits)

lemma evolves_ListUserSessions: "evolves R session_keys db (fst (ListUserSessions R digest db uid))"
proof -
  let ?k = "userSessionsPrefix @ digest uid"
  have w: "writes R session_keys d (fold (\<lambda>m d. SREM R d ?k m) ms d)" for ms d
    by (rule writes_fold) (simp add: writes_SREM)
  have e: "evolves R session_keys d (fst (call R ErrRedis d (\<lambda>d. (fold (\<lambda>m d. SREM R d ?k m) ms d, Inr ()))))"
    for ms d
    by (rule evolves_call) (simp add: w)
  show ?thesis
    unfolding ListUserSessions_def Let_def
    by (intro evolves_and_then) (auto intro!: evolves_call evolves_and_then e)
qed

section \<open>The limit of concurrent sessions\<close>

lemma drop_fold_obs:
  assumes "us \<notin> set ms" and "all \<notin> set ms"
  shows "GET R (fold (drop_session R us all) ms db) j = (if j \<in> set ms then None else GET R db j)"
    and "members R (fold (drop_session R us all) ms db) us = members R db us - set ms"
  using assms by (induction ms arbitrary: db) (auto simp: drop_session_obs)

lemma store_session_obs:
  fixes v sc
  assumes "typed R db" and "0 < ms" and "key_class k = ''session''" and "key_class us = ''user-sessions''"
    and "key_class all = ''sessions''"
  defines "db3 \<equiv> ZADD R (raise_ttl R (SADD R (SET R db k v ms) us k) us ms) all sc k"
  shows "GET R db3 j = (if j = k then Some v else GET R db j)"
    and "members R db3 us = insert k (members R db us)"
proof -
  have ne: "us \<noteq> k" "all \<noteq> k" "all \<noteq> us" using assms by auto
  have t: "GET R db us = None" "ZSCORE R db us = Map.empty" "GET R db all = None" "members R db all = {}"
    using typed_no_string [OF assms(1)] typed_no_zset [OF assms(1)] typed_no_set [OF assms(1)] assms
    by simp_all
  let ?d1 = "SET R db k v ms"
  have p1: "GET R ?d1 us = None" "ZSCORE R ?d1 us = Map.empty" using assms(2) ne t by (simp_all add: SET_obs)
  let ?d2 = "raise_ttl R (SADD R ?d1 us k) us ms"
  have m2: "members R ?d2 all = {}"
    using assms(2) ne t by (simp only: raise_ttl_obs SADD_obs [OF p1] SET_obs less_imp_le) simp
  have p2: "GET R ?d2 all = None"
    using assms(2) ne t by (simp add: raise_ttl_obs SADD_obs [OF p1] SET_obs)
  from m2 have p2': "SMEMBERS R ?d2 all = []" by (simp only: set_empty)
  note p2 = p2 p2'
  show "GET R db3 j = (if j = k then Some v else GET R db j)"
    using assms(2) by (simp add: db3_def ZADD_obs [OF p2] raise_ttl_obs SADD_obs [OF p1] SET_obs)
  have "members R db3 us = members R ?d2 us" unfolding db3_def by (rule ZADD_obs(2) [OF p2])
  also have "\<dots> = insert k (members R ?d1 us)"
    using assms(2) by (simp only: raise_ttl_obs SADD_obs [OF p1]) simp
  also have "members R ?d1 us = members R db us" using assms(2) ne by (simp only: SET_obs less_imp_le) simp
  finally show "members R db3 us = insert k (members R db us)" .
qed

text \<open>
  The effect of the saving script with a positive limit, in terms of the state \<open>db3\<close> after the new
  record is stored: the oldest live entries are evicted and exactly the youngest stay.
\<close>

lemma saveSession_evicts:
  assumes t: "typed R db" and pos: "0 < ms" "0 < limit" and cls: "key_class k = ''session''"
      "key_class us = ''user-sessions''" "key_class all = ''sessions''"
    and run: "saveSessionScript R k us all (VSession d) ms limit db = (db', Inr n)"
  defines "live \<equiv> {m \<in> insert k (members R db us). m = k \<or> GET R db m \<noteq> None}"
    and "age \<equiv> \<lambda>m. (if m = k then sd_CreatedAtUnixMilli d else lua_created (the (GET R db m)), m)"
  shows "\<exists>old. old \<subseteq> live \<and> members R db' us = live - old \<and> int (card old) = n \<and>
      n = max 0 (int (card live) - limit) \<and> (\<forall>o' \<in> old. \<forall>y \<in> live - old. age o' < age y) \<and>
      (\<forall>j. GET R db' j = (if j \<in> old then None else if j = k then Some (VSession d) else GET R db j))"
proof -
  let ?d2 = "raise_ttl R (SADD R (SET R db k (VSession d) ms) us k) us ms"
  define db3 where "db3 = ZADD R ?d2 all (redis_millis R ?d2 + ms) k"
  note obs3 = store_session_obs [OF t pos(1) cls, where v = "VSession d" and sc = "redis_millis R ?d2 + ms", folded db3_def]
  have t3: "typed R db3"
    using writes_store_session [OF pos(1) cls, of db d "redis_millis R ?d2 + ms"] t
    by (simp add: writes_def db3_def)
  let ?ms = "SMEMBERS R db3 us"
  have ms: "\<forall>m \<in> set ?ms. key_class m = ''session''" using user_set_classes [OF t3 cls(2)] by simp
  then have out: "us \<notin> set ?ms" "all \<notin> set ?ms" using cls by auto
  have val: "lua_table v" if "m \<in> set ?ms" "GET R db3 m = Some v" for m v
    using typed_GET [OF t3 that(2)] ms that(1) by (auto simp: value_ok_cases)
  let ?db4 = "sweep R us all (\<lambda>v. \<not> lua_table v) ?ms db3"
  let ?E = "live_entries db3 ?ms"
  have livelist: "filter (\<lambda>m. \<exists>v. GET R db3 m = Some v \<and> lua_table v) ?ms = filter (\<lambda>m. GET R db3 m \<noteq> None) ?ms"
    using val by (auto intro!: filter_cong)
  have live: "live = set (filter (\<lambda>m. GET R db3 m \<noteq> None) ?ms)"
    using obs3 by (auto simp: live_def)
  have E: "?E = map age (filter (\<lambda>m. GET R db3 m \<noteq> None) ?ms)"
    unfolding livelist age_def by (auto simp: obs3(1))
  have dE: "distinct ?E"
    unfolding E age_def distinct_map using distinct_SMEMBERS [of db3 us] by (auto intro!: inj_onI)
  let ?S = "sort ?E"
  let ?r = "nat (int (length ?E) - limit)"
  define gone where "gone = map snd (take ?r ?S)"
  have snd_S: "snd ` set ?S = live" unfolding E live by (force simp: age_def)
  have age_snd: "age (snd e) = e" if "e \<in> set ?S" for e using that unfolding set_sort E by (auto simp: age_def)
  have len: "length ?E = card live"
    unfolding E live length_map by (rule distinct_card [symmetric]) (simp add: distinct_SMEMBERS)
  have gone_live: "set gone \<subseteq> live" unfolding gone_def using snd_S by (auto dest!: in_set_takeD)
  have goneout: "us \<notin> set gone" "all \<notin> set gone"
    using gone_live out unfolding live by auto
  have fin: "db' = del_if_empty R (fold (drop_session R us all) gone ?db4) us" and n: "n = max (int (length ?E) - limit) 0"
    using run pos(2) unfolding saveSessionScript_def Let_def db3_def [symmetric] gone_def
    by (simp_all add: case_prod_unfold fst_active_fold snd_active_fold [OF out] fold_map comp_def)
  have G4: "GET R ?db4 j = GET R db3 j" for j
    using val by (auto simp: sweep_GET [OF out])
  have M4: "members R ?db4 us = live"
    unfolding sweep_members [OF out] live using val by fastforce
  have M': "members R db' us = live - set gone"
    unfolding fin del_if_empty_obs drop_fold_obs [OF goneout] M4 ..
  have us0: "GET R db us = None" "us \<noteq> k" using typed_no_string [OF t] cls by auto
  have G': "GET R db' j = (if j \<in> set gone then None else if j = k then Some (VSession d) else GET R db j)" for j
    using us0 unfolding fin by (simp add: del_if_empty_obs drop_fold_obs [OF goneout] G4 obs3)
  have dg: "distinct gone"
    unfolding gone_def distinct_map using dE age_snd by (auto intro!: inj_onI dest!: in_set_takeD)
  have cgone: "int (card (set gone)) = n"
  proof -
    have "int (min a (nat (int a - limit))) = max (int a - limit) 0" for a using pos(2) by linarith
    then show ?thesis
      unfolding distinct_card [OF dg] n by (simp only: gone_def length_map length_take length_sort)
  qed
  have ord: "age o' < age y" if o: "o' \<in> set gone" and y: "y \<in> live - set gone" for o' y
  proof -
    have yS: "age y \<in> set ?S" using y unfolding set_sort E live by auto
    have "age y \<in> set (take ?r ?S) \<Longrightarrow> y \<in> set gone"
      unfolding gone_def set_map by (rule image_eqI [of _ _ "age y"]) (simp_all add: age_def)
    then have "age y \<notin> set (take ?r ?S)" using y by blast
    then have yd: "age y \<in> set (drop ?r ?S)" using yS by (rule in_set_drop_not_take [rotated])
    obtain e where e: "e \<in> set (take ?r ?S)" "o' = snd e" using o unfolding gone_def set_map by blast
    then have od: "age o' \<in> set (take ?r ?S)" using age_snd [OF in_set_takeD [OF e(1)]] by (simp only:)
    have "distinct ?S" using dE by (simp only: distinct_sort)
    from sorted_take_drop_less [OF this sorted_sort od yd] show ?thesis .
  qed
  show ?thesis
    by (intro exI [of _ "set gone"] conjI gone_live M' cgone ballI allI ord G')
       (use n len in simp_all)
qed

end

end
