(* ===== verification/Device_Store.thy ===== *)
theory Device_Store
  imports Session_Base
begin

text \<open>
  \<open>internal/deviceauthorization/store.go\<close>: the records of the device authorization grant. A
  record is created pending under the digest of the device code, with the digest of the user code
  pointing to it; a decision replaces it by an approved or denied record and removes the user
  code; polling slows a client down and returns the record once it is approved; consuming removes
  an approved record.

  Poll and decision rewrite the record through \<open>cjson\<close>, which keeps every field: the record has
  no empty JSON array and its numbers are far below \<open>cjson\<close>'s 14 digits.
\<close>

datatype device_error =
    DevNotFound | DevValueMismatch | DevAuthorizationPending | DevSlowDown | DevAccessDenied
  | DevRateLimited | DevInvalid | DevRandom | DevRedis | DevScript | DevDecode | DevExhausted | DevUnknown

type_synonym 'a device_result = "device_error + 'a"

definition DefaultTTL :: duration where "DefaultTTL = 10 * Minute"
definition DefaultInterval :: duration where "DefaultInterval = 5 * Second"
definition SlowDownStep :: duration where "SlowDownStep = 5 * Second"

definition StatusPending :: string where "StatusPending = ''pending''"
definition StatusApproved :: string where "StatusApproved = ''approved''"
definition StatusDenied :: string where "StatusDenied = ''denied''"

lemmas status_defs = StatusPending_def StatusApproved_def StatusDenied_def

record create_input =
  ci_ClientID :: string
  ci_Scopes :: "string list"
  ci_OptionalScopes :: "string list"
  ci_ScopeClaims :: claim_map
  ci_ClientIdentityRevision :: int
  ci_ClientAuthorizationRevision :: int
  ci_TTL :: duration
  ci_Interval :: duration

record created_device =
  cr_DeviceCode :: string
  cr_UserCode :: string
  cr_Record :: device_record

definition recordKey :: "string \<Rightarrow> string" where "recordKey deviceID = recordPrefix @ deviceID"
definition userCodeKey :: "string \<Rightarrow> string" where "userCodeKey codeDigest = userCodePrefix @ codeDigest"

section \<open>User codes\<close>

text \<open>
  \<open>strings.ToUpper\<close>: the ASCII letters, and the two letters outside ASCII whose upper case is
  an ASCII letter (U+0131 and U+017F). The upper case of any other letter is outside ASCII, where
  no code of the alphabet is; the model leaves those bytes as they are.
\<close>

definition upper_byte :: "char \<Rightarrow> char" where
  "upper_byte c = (if 97 \<le> byte c \<and> byte c \<le> 122 then char_of (byte c - 32) else c)"

fun ToUpper :: "string \<Rightarrow> string" where
  "ToUpper [] = []"
| "ToUpper (a # s) =
     (case s of
        b # s' \<Rightarrow>
          (if byte a = 0xC4 \<and> byte b = 0xB1 then CHR ''I'' # ToUpper s'
           else if byte a = 0xC5 \<and> byte b = 0xBF then CHR ''S'' # ToUpper s'
           else upper_byte a # ToUpper s)
      | [] \<Rightarrow> [upper_byte a])"

definition NormalizeUserCode :: "string \<Rightarrow> string" where
  "NormalizeUserCode value0 =
     filter (\<lambda>c. c \<notin> {CHR ''-'', CHR '' '', CHR 0x09, CHR 0x0D, CHR 0x0A}) (ToUpper (TrimSpace value0))"

definition user_code_alphabet :: string where
  "user_code_alphabet = ''23456789BCDFGHJKMNPQRTVWXY''"

text \<open>\<open>randomUserCode\<close> on the eight draws of \<open>rand.Int\<close> below the length of the alphabet.\<close>

definition randomUserCode :: "nat option list \<Rightarrow> string option" where
  "randomUserCode draws =
     (if None \<in> set draws then None
      else
        let raw = map (\<lambda>i. user_code_alphabet ! (the i)) draws
        in Some (take 4 raw @ ''-'' @ drop 4 raw))"

lemma ToUpper_ascii: "\<forall>c \<in> set s. byte c < 0x80 \<Longrightarrow> ToUpper s = map upper_byte s"
  by (induction s rule: ToUpper.induct) (auto split: list.splits)

lemma user_code_letters:
  assumes "c \<in> set user_code_alphabet"
  shows "0x20 < byte c" and "byte c < 0x80" and "upper_byte (lower_byte c) = c" and "upper_byte c = c"
    and "0x20 < byte (lower_byte c)" and "byte (lower_byte c) < 0x80"
    and "c \<notin> {CHR ''-'', CHR '' '', CHR 0x09, CHR 0x0D, CHR 0x0A}"
proof -
  have "\<forall>c \<in> set user_code_alphabet. 0x20 < byte c \<and> byte c < 0x80 \<and> upper_byte (lower_byte c) = c \<and> upper_byte c = c \<and>
      0x20 < byte (lower_byte c) \<and> byte (lower_byte c) < 0x80 \<and>
      c \<notin> {CHR ''-'', CHR '' '', CHR 0x09, CHR 0x0D, CHR 0x0A}"
    by code_simp
  with assms show "0x20 < byte c" "byte c < 0x80" "upper_byte (lower_byte c) = c" "upper_byte c = c"
    "0x20 < byte (lower_byte c)" "byte (lower_byte c) < 0x80"
    "c \<notin> {CHR ''-'', CHR '' '', CHR 0x09, CHR 0x0D, CHR 0x0A}"
    by blast+
qed

section \<open>Creation\<close>

definition createScript ::
    "'db redis \<Rightarrow> string \<Rightarrow> string \<Rightarrow> rvalue \<Rightarrow> int \<Rightarrow> string \<Rightarrow> 'db \<Rightarrow> 'db \<times> int device_result" where
  "createScript R key1 key2 encoded ms deviceID db =
     (if EXISTS R db key1 \<or> EXISTS R db key2 then (db, Inr 0)
      else if ms \<le> 0 then (db, Inl DevScript)
      else (SET R (SET R db key1 encoded ms) key2 (VText deviceID) ms, Inr 1))"

definition cloneClaims :: "claim_map \<Rightarrow> claim_map" where
  "cloneClaims input =
     (case input of None \<Rightarrow> None | Some m \<Rightarrow> Some (map (\<lambda>(key, vs). (key, vs)) m))"

definition new_device_record ::
    "create_input \<Rightarrow> string \<Rightarrow> string \<Rightarrow> string \<Rightarrow> duration \<Rightarrow> duration \<Rightarrow> gotime \<Rightarrow> device_record" where
  "new_device_record input version deviceID userDigest ttl interval now =
     \<lparr>dr_RecordVersion = version, dr_DeviceID = deviceID, dr_UserCodeDigest = userDigest,
      dr_ClientID = ci_ClientID input, dr_Scopes = ci_Scopes input,
      dr_OptionalScopes = ci_OptionalScopes input, dr_ScopeClaims = cloneClaims (ci_ScopeClaims input),
      dr_ClientIdentityRevision = ci_ClientIdentityRevision input,
      dr_ClientAuthorizationRevision = ci_ClientAuthorizationRevision input,
      dr_Status = StatusPending, dr_CreatedAtUnixMilli = UnixMilli now,
      dr_ExpiresAtUnixMilli = UnixMilli (now + ttl),
      dr_IntervalSeconds = (interval + Second div 2) div Second,
      dr_NextPollAtUnixMilli = UnixMilli (now + interval),
      dr_UserID = [], dr_AuthVersion = 0, dr_GrantedScopes = [], dr_AllowedClaims = [],
      dr_AuthorizationIssuedAt = 0, dr_AuthenticationContext = [], dr_AuthenticationMethods = [],
      dr_AuthenticationTime = 0\<rparr>"

text \<open>What one attempt draws: the device code, the user code, the record version and the time.\<close>

record attempt_draw =
  at_DeviceCode :: "string option"
  at_UserCode :: "string option"
  at_Version :: "string option"
  at_Now :: gotime

fun create_loop ::
    "'db redis \<Rightarrow> (string \<Rightarrow> string) \<Rightarrow> create_input \<Rightarrow> duration \<Rightarrow> duration \<Rightarrow> (nat \<Rightarrow> attempt_draw) \<Rightarrow>
     nat \<Rightarrow> nat \<Rightarrow> 'db \<Rightarrow> 'db \<times> created_device device_result" where
  "create_loop R digest input ttl interval draw attempt 0 db = (db, Inl DevExhausted)"
| "create_loop R digest input ttl interval draw attempt (Suc left) db =
     (case (at_DeviceCode (draw attempt), at_UserCode (draw attempt), at_Version (draw attempt)) of
        (Some deviceCode, Some userCode, Some version) \<Rightarrow>
          (let deviceID = digest deviceCode;
               userDigest = digest (NormalizeUserCode userCode);
               record = new_device_record input version deviceID userDigest ttl interval (at_Now (draw attempt))
           in and_then
                (call R DevRedis db
                   (createScript R (recordKey deviceID) (userCodeKey userDigest)
                      (VDevice (json_device record)) (ttl div Millisecond) deviceID))
                (\<lambda>db1 result.
                   if result = 1
                   then (db1, Inr \<lparr>cr_DeviceCode = deviceCode, cr_UserCode = userCode, cr_Record = record\<rparr>)
                   else create_loop R digest input ttl interval draw (Suc attempt) left db1))
      | _ \<Rightarrow> (db, Inl DevRandom))"

definition Create ::
    "'db redis \<Rightarrow> (string \<Rightarrow> string) \<Rightarrow> 'db \<Rightarrow> create_input \<Rightarrow> (nat \<Rightarrow> attempt_draw) \<Rightarrow>
     'db \<times> created_device device_result" where
  "Create R digest db input draw =
     (if TrimSpace (ci_ClientID input) = [] then (db, Inl DevInvalid)
      else
        let ttl = (if ci_TTL input \<le> 0 then DefaultTTL else ci_TTL input);
            interval0 = (if ci_Interval input \<le> 0 then DefaultInterval else ci_Interval input);
            interval = (if interval0 < Second then Second else interval0)
        in create_loop R digest input ttl interval draw 0 8 db)"

section \<open>Lookup\<close>

definition getByID ::
    "'db redis \<Rightarrow> 'db \<Rightarrow> string \<Rightarrow> gotime \<Rightarrow> 'db \<times> device_record device_result" where
  "getByID R db deviceID now =
     call R DevRedis db (\<lambda>d. (d,
       case GET R d (recordKey deviceID) of
         None \<Rightarrow> Inl DevNotFound
       | Some raw \<Rightarrow>
           (case decode_device raw of
              None \<Rightarrow> Inl DevDecode
            | Some record \<Rightarrow>
                (if dr_DeviceID record \<noteq> deviceID \<or> dr_RecordVersion record = [] \<or>
                    dr_ExpiresAtUnixMilli record \<le> UnixMilli now
                 then Inl DevNotFound else Inr record))))"

definition FindPendingByUserCode ::
    "'db redis \<Rightarrow> (string \<Rightarrow> string) \<Rightarrow> 'db \<Rightarrow> string \<Rightarrow> gotime \<Rightarrow> 'db \<times> device_record device_result" where
  "FindPendingByUserCode R digest db userCode now =
     (let normalized = NormalizeUserCode userCode in
      if length normalized \<noteq> 8 then (db, Inl DevNotFound)
      else
        and_then
          (call R DevRedis db (\<lambda>d. (d,
             case GET R d (userCodeKey (digest normalized)) of
               None \<Rightarrow> Inl DevNotFound
             | Some v \<Rightarrow> (case decode_text v of None \<Rightarrow> Inl DevDecode | Some deviceID \<Rightarrow> Inr deviceID))))
          (\<lambda>db1 deviceID.
             on_result (\<lambda>record. if dr_Status record \<noteq> StatusPending \<or> dr_UserCodeDigest record \<noteq> digest normalized
                                 then Inl DevNotFound else Inr record)
               (getByID R db1 deviceID now)))"

definition GetPending ::
    "'db redis \<Rightarrow> 'db \<Rightarrow> string \<Rightarrow> string \<Rightarrow> gotime \<Rightarrow> 'db \<times> device_record device_result" where
  "GetPending R db deviceID version now =
     on_result (\<lambda>record. if dr_Status record \<noteq> StatusPending \<or> dr_RecordVersion record \<noteq> version
                         then Inl DevValueMismatch else Inr record)
       (getByID R db deviceID now)"

section \<open>Decision\<close>

text \<open>The fields of the stored document that the scripts compare.\<close>

definition lua_status :: "rvalue \<Rightarrow> string option" where
  "lua_status v = (case v of VDevice d \<Rightarrow> Some (dr_Status d) | _ \<Rightarrow> None)"

definition decideScript ::
    "'db redis \<Rightarrow> string \<Rightarrow> string \<Rightarrow> string \<Rightarrow> device_record \<Rightarrow> 'db \<Rightarrow> 'db \<times> int device_result" where
  "decideScript R key1 key2 version replacement db =
     (case GET R db key1 of
        None \<Rightarrow> (db, Inr 0)
      | Some raw \<Rightarrow>
          (case decode_device raw of
             None \<Rightarrow> (db, Inr (-1))
           | Some v \<Rightarrow>
               (if dr_RecordVersion v \<noteq> version \<or> dr_Status v \<noteq> StatusPending then (db, Inr (-1))
                else if dr_RecordVersion replacement \<noteq> dr_RecordVersion v \<or>
                        dr_DeviceID replacement \<noteq> dr_DeviceID v \<or>
                        dr_UserCodeDigest replacement \<noteq> dr_UserCodeDigest v \<or>
                        (dr_Status replacement \<noteq> StatusApproved \<and> dr_Status replacement \<noteq> StatusDenied)
                then (db, Inr (-1))
                else
                  let ttl = PTTL R db key1 in
                  if ttl \<le> 0 then (del_all R db [key1, key2], Inr 0)
                  else (DEL R (SET R db key1 (VDevice replacement) ttl) key2, Inr 1))))"

definition runDecision ::
    "'db redis \<Rightarrow> 'db \<Rightarrow> device_record \<Rightarrow> device_record \<Rightarrow> 'db \<times> unit device_result" where
  "runDecision R db current decision =
     on_result (\<lambda>result. if result = 1 then Inr ()
                         else if result = 0 then Inl DevNotFound
                         else Inl DevValueMismatch)
       (call R DevRedis db
          (decideScript R (recordKey (dr_DeviceID current)) (userCodeKey (dr_UserCodeDigest current))
             (dr_RecordVersion current) (json_device decision)))"

definition ApproveWithAuthentication ::
    "'db redis \<Rightarrow> 'db \<Rightarrow> device_record \<Rightarrow> string \<Rightarrow> int \<Rightarrow> string list \<Rightarrow> string list \<Rightarrow> int \<Rightarrow> string \<Rightarrow>
     string list \<Rightarrow> int \<Rightarrow> 'db \<times> unit device_result" where
  "ApproveWithAuthentication R db current userID authVersion scopes claims authorizationIssuedAt
       authenticationContext authenticationMethods authenticationTime =
     (if userID = [] \<or> authVersion \<le> 0 \<or> authorizationIssuedAt \<le> 0 then (db, Inl DevInvalid)
      else runDecision R db current
        (current\<lparr>dr_Status := StatusApproved, dr_UserID := userID, dr_AuthVersion := authVersion,
                 dr_GrantedScopes := scopes, dr_AllowedClaims := claims,
                 dr_AuthorizationIssuedAt := authorizationIssuedAt,
                 dr_AuthenticationContext := authenticationContext,
                 dr_AuthenticationMethods := authenticationMethods,
                 dr_AuthenticationTime := authenticationTime\<rparr>))"

definition Approve ::
    "'db redis \<Rightarrow> 'db \<Rightarrow> device_record \<Rightarrow> string \<Rightarrow> int \<Rightarrow> string list \<Rightarrow> string list \<Rightarrow> int \<Rightarrow>
     'db \<times> unit device_result" where
  "Approve R db current userID authVersion scopes claims authorizationIssuedAt =
     ApproveWithAuthentication R db current userID authVersion scopes claims authorizationIssuedAt [] [] 0"

definition Deny :: "'db redis \<Rightarrow> 'db \<Rightarrow> device_record \<Rightarrow> 'db \<times> unit device_result" where
  "Deny R db current = runDecision R db current (current\<lparr>dr_Status := StatusDenied\<rparr>)"

section \<open>Polling and consumption\<close>

text \<open>The reply of the poll script: a code, the interval in seconds, the approved record.\<close>

definition pollScript ::
    "'db redis \<Rightarrow> string \<Rightarrow> string \<Rightarrow> int \<Rightarrow> int \<Rightarrow> 'db \<Rightarrow>
     'db \<times> (int \<times> int \<times> device_record option) device_result" where
  "pollScript R key1 clientID now slowDown db =
     (case GET R db key1 of
        None \<Rightarrow> (db, Inr (0, 0, None))
      | Some raw \<Rightarrow>
          (case decode_device raw of
             None \<Rightarrow> (db, Inr (-1, 0, None))
           | Some v \<Rightarrow>
               (if dr_ClientID v \<noteq> clientID then (db, Inr (-1, 0, None))
                else if dr_Status v = StatusDenied then (DEL R db key1, Inr (3, 0, None))
                else if dr_Status v = StatusApproved then (db, Inr (4, 0, Some v))
                else if dr_Status v \<noteq> StatusPending then (db, Inr (-1, 0, None))
                else
                  let early = now < dr_NextPollAtUnixMilli v;
                      interval = dr_IntervalSeconds v + (if early then slowDown else 0);
                      v' = v\<lparr>dr_IntervalSeconds := interval,
                             dr_NextPollAtUnixMilli := now + interval * 1000\<rparr>;
                      ttl = PTTL R db key1
                  in if ttl \<le> 0 then (DEL R db key1, Inr (0, 0, None))
                     else (SET R db key1 (VDevice v') ttl, Inr (if early then 2 else 1, interval, None)))))"

text \<open>\<open>Poll\<close>: an error together with the interval to wait, or the approved record and its interval.\<close>

definition Poll ::
    "'db redis \<Rightarrow> (string \<Rightarrow> string) \<Rightarrow> 'db \<Rightarrow> string \<Rightarrow> string \<Rightarrow> gotime \<Rightarrow>
     'db \<times> ((device_error \<times> duration) + (device_record \<times> duration))" where
  "Poll R digest db deviceCode clientID now =
     (case call R DevRedis db
             (pollScript R (recordKey (digest deviceCode)) clientID (UnixMilli now) (SlowDownStep div Second)) of
        (db1, Inl e) \<Rightarrow> (db1, Inl (e, 0))
      | (db1, Inr (code, interval, record)) \<Rightarrow>
          (db1,
           if code = 0 \<or> code = -1 then Inl (DevNotFound, 0)
           else if code = 1 then Inl (DevAuthorizationPending, interval * Second)
           else if code = 2 then Inl (DevSlowDown, interval * Second)
           else if code = 3 then Inl (DevAccessDenied, 0)
           else if code = 4 then
             (case record of
                None \<Rightarrow> Inl (DevInvalid, 0)
              | Some r \<Rightarrow> Inr (r, dr_IntervalSeconds r * Second))
           else Inl (DevUnknown, 0)))"

definition consumeScript ::
    "'db redis \<Rightarrow> string \<Rightarrow> string \<Rightarrow> string \<Rightarrow> 'db \<Rightarrow> 'db \<times> int device_result" where
  "consumeScript R key1 key2 version db =
     (case GET R db key1 of
        None \<Rightarrow> (db, Inr 0)
      | Some raw \<Rightarrow>
          (if lua_record_version raw \<noteq> Some version \<or> lua_status raw \<noteq> Some StatusApproved
           then (db, Inr (-1))
           else (del_all R db [key1, key2], Inr 1)))"

definition ConsumeApproved ::
    "'db redis \<Rightarrow> 'db \<Rightarrow> device_record \<Rightarrow> 'db \<times> unit device_result" where
  "ConsumeApproved R db current =
     on_result (\<lambda>result. if result = 1 then Inr ()
                         else if result = 0 then Inl DevNotFound
                         else Inl DevValueMismatch)
       (call R DevRedis db
          (consumeScript R (recordKey (dr_DeviceID current)) (userCodeKey (dr_UserCodeDigest current))
             (dr_RecordVersion current)))"

section \<open>Rate limits\<close>

definition counter_value :: "rvalue option \<Rightarrow> int" where
  "counter_value v = (case v of Some (VNum n) \<Rightarrow> n | _ \<Rightarrow> 0)"

text \<open>\<open>INCR\<close> of a window counter, which starts the window at its first increment.\<close>

definition incr_window :: "'db redis \<Rightarrow> string \<Rightarrow> int \<Rightarrow> 'db \<Rightarrow> 'db \<times> int" where
  "incr_window R key ms db =
     (let db1 = INCR R db key; n = counter_value (GET R db1 key)
      in (if n = 1 then PEXPIRE R db1 key ms else db1, n))"

definition limitScript ::
    "'db redis \<Rightarrow> string \<Rightarrow> string \<Rightarrow> int \<Rightarrow> int \<Rightarrow> int \<Rightarrow> 'db \<Rightarrow> 'db \<times> (int \<times> int) device_result" where
  "limitScript R key1 key2 window subjectLimit ipLimit db =
     (let (db1, subject) = incr_window R key1 window db;
          (db2, ip) = incr_window R key2 window db1;
          ttl = max (PTTL R db2 key1) (PTTL R db2 key2)
      in (db2, Inr (if subject > subjectLimit \<or> ip > ipLimit then 0 else 1, ttl)))"

text \<open>The window to wait on a refusal, in nanoseconds.\<close>

definition reserve ::
    "'db redis \<Rightarrow> (string \<Rightarrow> string) \<Rightarrow> 'db \<Rightarrow> string \<Rightarrow> string \<Rightarrow> string \<Rightarrow> duration \<Rightarrow> int \<Rightarrow> int \<Rightarrow>
     'db \<times> ((device_error \<times> duration) + unit)" where
  "reserve R digest db action subject ip window subjectLimit ipLimit =
     (case call R DevRedis db
             (limitScript R (limitPrefix @ action @ '':subject:'' @ digest subject)
                (limitPrefix @ action @ '':ip:'' @ digest ip) (window div Millisecond) subjectLimit ipLimit) of
        (db1, Inl e) \<Rightarrow> (db1, Inl (e, 0))
      | (db1, Inr (allowed, ttl)) \<Rightarrow>
          (db1, if allowed \<noteq> 1 then Inl (DevRateLimited, max 0 ttl * Millisecond) else Inr ()))"

definition ReserveInitiation ::
    "'db redis \<Rightarrow> (string \<Rightarrow> string) \<Rightarrow> 'db \<Rightarrow> string \<Rightarrow> string \<Rightarrow> 'db \<times> ((device_error \<times> duration) + unit)" where
  "ReserveInitiation R digest db clientID ip = reserve R digest db ''init'' clientID ip Minute 30 120"

definition ReserveVerification ::
    "'db redis \<Rightarrow> (string \<Rightarrow> string) \<Rightarrow> 'db \<Rightarrow> string \<Rightarrow> string \<Rightarrow> 'db \<times> ((device_error \<times> duration) + unit)" where
  "ReserveVerification R digest db userID ip =
     reserve R digest db ''verify'' userID ip (10 * Minute) 10 30"

section \<open>Frames\<close>

lemma device_key_class [simp]:
  "key_class (recordKey i) = ''device''" "key_class (userCodeKey u) = ''user''"
  by (simp_all add: recordKey_def userCodeKey_def)

lemma device_key_eq [simp]:
  "recordKey i = recordKey j \<longleftrightarrow> i = j" "userCodeKey u = userCodeKey v \<longleftrightarrow> u = v"
  "recordKey i \<noteq> userCodeKey u" "userCodeKey u \<noteq> recordKey i"
  by (auto simp: recordKey_def userCodeKey_def key_simps)

definition device_keys :: "string set" where
  "device_keys = {k. key_class k \<in> {''device'', ''user''}}"

definition limit_keys :: "string set" where
  "limit_keys = {k. key_class k = ''limit''}"

lemma in_device_keys [simp]:
  "k \<in> device_keys \<longleftrightarrow> key_class k = ''device'' \<or> key_class k = ''user''"
  "k \<in> limit_keys \<longleftrightarrow> key_class k = ''limit''"
  by (simp_all add: device_keys_def limit_keys_def)

lemma json_device_simps [simp]:
  "dr_RecordVersion (json_device d) = dr_RecordVersion d" "dr_DeviceID (json_device d) = dr_DeviceID d"
  "dr_UserCodeDigest (json_device d) = dr_UserCodeDigest d" "dr_Status (json_device d) = dr_Status d"
  "dr_ClientID (json_device d) = dr_ClientID d" "dr_UserID (json_device d) = dr_UserID d"
  by (simp_all add: json_device_def)

lemma status_distinct [simp]:
  "StatusPending \<noteq> StatusApproved" "StatusApproved \<noteq> StatusPending" "StatusPending \<noteq> StatusDenied"
  "StatusDenied \<noteq> StatusPending" "StatusApproved \<noteq> StatusDenied" "StatusDenied \<noteq> StatusApproved"
  by (simp_all add: status_defs)

lemma fst_Poll: "fst (Poll R digest db dc c now) = fst (call R DevRedis db
    (pollScript R (recordKey (digest dc)) c (UnixMilli now) (SlowDownStep div Second)))"
  by (auto simp: Poll_def split: prod.splits sum.splits)

lemma fst_reserve: "fst (reserve R digest db a s ip w sl il) = fst (call R DevRedis db
    (limitScript R (limitPrefix @ a @ '':subject:'' @ digest s)
       (limitPrefix @ a @ '':ip:'' @ digest ip) (w div Millisecond) sl il))"
  by (auto simp: reserve_def split: prod.splits sum.splits)

context redis_server
begin

lemma writes_INCR:
  assumes "k \<in> K" and "key_class k = ''limit''"
  shows "writes R K db (INCR R db k)"
proof (rule writes_typed)
  assume t: "typed R db"
  have s: "SMEMBERS R db k = []" "ZSCORE R db k = Map.empty"
    using typed_no_set [OF t, of k] typed_no_zset [OF t, of k] assms(2) by auto
  obtain n where n: "GET R db k = None \<or> GET R db k = Some (VNum n)"
    using typed_GET [OF t, of k] assms(2) by (cases "GET R db k") (auto simp: value_ok_cases)
  note o = INCR_obs [OF s n]
  have "typed_key R (INCR R db k) k" if tk: "typed_key R db k"
    using typed_keyD(4) [OF tk] s assms(2)
    by (intro typed_keyI) (auto simp: o value_ok_cases split: if_splits)
  then show "writes R K db (INCR R db k)"
    by (intro writes_at [OF assms(1)]) (simp_all add: o)
qed

lemma writes_createScript:
  "key_class key1 = ''device'' \<Longrightarrow> key_class key2 = ''user'' \<Longrightarrow>
   writes R {key1, key2} db (fst (createScript R key1 key2 (VDevice v) ms dID db))"
  by (auto simp: createScript_def value_ok_cases intro!: writes_chain)

lemma writes_decideScript:
  "key_class key1 = ''device'' \<Longrightarrow> writes R {key1, key2} db (fst (decideScript R key1 key2 version v db))"
  by (auto simp: decideScript_def Let_def value_ok_cases split: option.splits intro!: writes_chain)

lemma writes_pollScript:
  "key_class key1 = ''device'' \<Longrightarrow> writes R {key1} db (fst (pollScript R key1 c now slow db))"
  by (auto simp: pollScript_def Let_def value_ok_cases split: option.splits intro!: writes_chain)

lemma writes_consumeScript: "writes R {key1, key2} db (fst (consumeScript R key1 key2 version db))"
  by (auto simp: consumeScript_def split: option.splits intro!: writes_chain)

lemma writes_incr_window:
  "0 < ms \<Longrightarrow> key_class k = ''limit'' \<Longrightarrow> writes R limit_keys db (fst (incr_window R k ms db))"
  using writes_INCR [of k limit_keys db] writes_trans [OF _ writes_PEXPIRE, of limit_keys db "INCR R db k" ms k]
  by (simp add: incr_window_def Let_def)

lemma writes_limitScript:
  assumes "0 < ms" and "key_class key1 = ''limit''" and "key_class key2 = ''limit''"
  shows "writes R limit_keys db (fst (limitScript R key1 key2 ms sl il db))"
  using writes_trans [OF writes_incr_window [OF assms(1,2)] writes_incr_window [OF assms(1,3)], of db]
  by (simp add: limitScript_def Let_def case_prod_unfold)

lemma evolves_create_loop:
  "evolves R device_keys db (fst (create_loop R digest input ttl interval draw n left db))"
proof (induction left arbitrary: n db)
  case (Suc left)
  show ?case
    by (auto split: option.splits simp: Let_def
        intro!: evolves_and_then evolves_call Suc.IH
          writes_mono [OF writes_createScript, where L = device_keys])
qed simp

lemma evolves_device:
  "evolves R device_keys db (fst (Create R digest db input draw))"
  "evolves R {recordKey (dr_DeviceID cur), userCodeKey (dr_UserCodeDigest cur)} db
     (fst (ApproveWithAuthentication R db cur uid av sc cl ia ac am at))"
  "evolves R {recordKey (dr_DeviceID cur), userCodeKey (dr_UserCodeDigest cur)} db (fst (Deny R db cur))"
  "evolves R {recordKey (digest dc)} db (fst (Poll R digest db dc c now))"
  "evolves R {recordKey (dr_DeviceID cur), userCodeKey (dr_UserCodeDigest cur)} db
     (fst (ConsumeApproved R db cur))"
  by (simp_all add: Create_def Let_def evolves_create_loop ApproveWithAuthentication_def Deny_def
      runDecision_def fst_Poll ConsumeApproved_def evolves_call writes_decideScript writes_pollScript
      writes_consumeScript)

lemma evolves_limits:
  "evolves R limit_keys db (fst (ReserveInitiation R digest db c ip))"
  "evolves R limit_keys db (fst (ReserveVerification R digest db c ip))"
  by (simp_all add: ReserveInitiation_def ReserveVerification_def fst_reserve evolves_call
      writes_limitScript Minute_def Second_def Millisecond_def)

lemma evolves_device_reads:
  "evolves R K db (fst (getByID R db i now))" "evolves R K db (fst (GetPending R db i v now))"
  "evolves R K db (fst (FindPendingByUserCode R digest db uc now))"
  by (auto simp: getByID_def GetPending_def FindPendingByUserCode_def Let_def
      intro!: evolves_call evolves_and_then)

section \<open>Outcomes\<close>

lemma runDecision_Inr:
  assumes "runDecision R db cur dec = (db', Inr ())"
  obtains v where "GET R db (recordKey (dr_DeviceID cur)) = Some (VDevice v)"
    and "dr_RecordVersion v = dr_RecordVersion cur" and "dr_Status v = StatusPending"
    and "dr_Status dec = StatusApproved \<or> dr_Status dec = StatusDenied"
    and "GET R db' (recordKey (dr_DeviceID cur)) = Some (VDevice (json_device dec))"
    and "GET R db' (userCodeKey (dr_UserCodeDigest cur)) = None"
proof -
  let ?k = "recordKey (dr_DeviceID cur)" and ?d = "snd (LINK R db)"
  have run: "decideScript R ?k (userCodeKey (dr_UserCodeDigest cur)) (dr_RecordVersion cur) (json_device dec) ?d
      = (db', Inr 1)"
    using assms by (auto simp: runDecision_def on_result_Inr split: if_splits dest!: call_Inr)
  then obtain v where v: "GET R ?d ?k = Some (VDevice v)" "dr_RecordVersion v = dr_RecordVersion cur"
      "dr_Status v = StatusPending" "dr_Status dec = StatusApproved \<or> dr_Status dec = StatusDenied"
      "0 < PTTL R ?d ?k"
      "db' = DEL R (SET R ?d ?k (VDevice (json_device dec)) (PTTL R ?d ?k)) (userCodeKey (dr_UserCodeDigest cur))"
    by (auto simp: decideScript_def Let_def split: option.splits if_splits)
  show ?thesis
    by (rule that [of v]) (use v LINK_GET_Some [OF v(1)] in \<open>simp_all add: DEL_obs SET_obs\<close>)
qed

lemma Poll_Inr:
  assumes "Poll R digest db dc c now = (db', Inr (r, w))"
  shows "GET R db (recordKey (digest dc)) = Some (VDevice r)" and "dr_Status r = StatusApproved"
    and "dr_ClientID r = c" and "db' = snd (LINK R db)"
proof -
  let ?d = "snd (LINK R db)"
  obtain i where run: "pollScript R (recordKey (digest dc)) c (UnixMilli now) (SlowDownStep div Second) ?d
      = (db', Inr (4, i, Some r))"
    using assms by (auto simp: Poll_def split: prod.splits sum.splits if_splits option.splits dest!: call_Inr)
  then have v: "GET R ?d (recordKey (digest dc)) = Some (VDevice r)" "dr_Status r = StatusApproved"
      "dr_ClientID r = c" "db' = ?d"
    by (auto simp: pollScript_def Let_def split: option.splits if_splits)
  then show "GET R db (recordKey (digest dc)) = Some (VDevice r)" "dr_Status r = StatusApproved"
      "dr_ClientID r = c" "db' = snd (LINK R db)"
    using LINK_GET_Some [OF v(1)] by blast+
qed

lemma ConsumeApproved_Inr:
  assumes "ConsumeApproved R db cur = (db', Inr ())"
  shows "\<exists>v. GET R db (recordKey (dr_DeviceID cur)) = Some (VDevice v) \<and>
      dr_RecordVersion v = dr_RecordVersion cur \<and> dr_Status v = StatusApproved"
    and "GET R db' (recordKey (dr_DeviceID cur)) = None"
    and "GET R db' (userCodeKey (dr_UserCodeDigest cur)) = None"
proof -
  let ?k = "recordKey (dr_DeviceID cur)" and ?d = "snd (LINK R db)"
  have run: "consumeScript R ?k (userCodeKey (dr_UserCodeDigest cur)) (dr_RecordVersion cur) ?d = (db', Inr 1)"
    using assms by (auto simp: ConsumeApproved_def on_result_Inr split: if_splits dest!: call_Inr)
  then obtain raw where raw: "GET R ?d ?k = Some raw" "lua_record_version raw = Some (dr_RecordVersion cur)"
      "lua_status raw = Some StatusApproved" "db' = del_all R ?d [?k, userCodeKey (dr_UserCodeDigest cur)]"
    by (auto simp: consumeScript_def split: option.splits if_splits)
  then obtain v where "raw = VDevice v" "dr_RecordVersion v = dr_RecordVersion cur" "dr_Status v = StatusApproved"
    by (cases raw) (auto simp: lua_status_def)
  then show "\<exists>v. GET R db ?k = Some (VDevice v) \<and> dr_RecordVersion v = dr_RecordVersion cur \<and>
      dr_Status v = StatusApproved"
    using LINK_GET_Some [OF raw(1)] by blast
  show "GET R db' ?k = None" "GET R db' (userCodeKey (dr_UserCodeDigest cur)) = None"
    using raw(4) by (simp_all add: del_all_obs)
qed

end

end
