(* ===== verification/Session_Store.thy ===== *)
theory Session_Store
  imports Session_Codes Session_Revocation Session_Clock Session_Browser Device_Store
begin

text \<open>
  All operations that the program runs on the session and device stores, as one type of steps.
  Requests are served concurrently, and every step is one call of an operation with its round
  trips; a sequence of steps is an interleaving of requests, in which any round trip may fail or
  be delayed. The theory proves what every step keeps (the frame of each operation) and what
  holds along any sequence.
\<close>

datatype code_op =
    Save_code string authorization_data duration "string option"
  | Consume_code_if_match string authorization_data duration
  | Consume_code string
  | Save_csrf string "(string \<times> string) list" duration
  | Consume_csrf string
  | Save_consent string consent_data duration
  | Consume_consent_for_user string string
  | Consume_consent string

datatype ceremony_op =
    Save_reauthentication string reauthentication_data duration
  | Consume_reauthentication string
  | Save_mfa string mfa_pending_data duration "string option" gotime
  | Consume_mfa string
  | Delete_mfa string
  | Save_ceremony string webauthn_ceremony_data duration gotime
  | Consume_ceremony string
  | Delete_ceremony string
  | Consume_ceremony_and_mfa string webauthn_ceremony_data string mfa_pending_data

datatype token_op =
    Save_token string token_data duration
  | Save_family_token string token_data string duration
  | Revoke_token string
  | Save_refresh string token_data duration "string option"
  | Rotate_refresh string string token_data duration
  | Rotate_refresh_with_access string string string token_data token_data duration duration
  | Revoke_refresh_for_client string string duration
  | Revoke_family string duration
  | Revoke_user_families string duration
  | Revoke_families_before string int duration

datatype clock_op =
    Issue_time string string duration
  | Revoke_authorization string string duration

datatype session_op =
    Save_session string session_data duration int "string option" "string option" gotime
  | Update_session string session_data int int duration
  | Delete_session string
  | Delete_other_sessions string string
  | Delete_sessions_before string int int
  | Delete_session_by_public_id string string
  | List_sessions string
  | Touch_session string gotime
  | Count_sessions

datatype device_op =
    Create_device create_input "nat \<Rightarrow> attempt_draw"
  | Approve_device device_record string int "string list" "string list" int string "string list" int
  | Deny_device device_record
  | Poll_device string string gotime
  | Consume_device device_record
  | Reserve_initiation string string
  | Reserve_verification string string

text \<open>A step is one of these operations, or a read.\<close>

datatype store_op =
    Code_op code_op
  | Ceremony_op ceremony_op
  | Token_op token_op
  | Clock_op clock_op
  | Session_op session_op
  | Device_op device_op
  | Read

primrec exec_code :: "'db redis \<Rightarrow> (string \<Rightarrow> string) \<Rightarrow> code_op \<Rightarrow> 'db \<Rightarrow> 'db" where
  "exec_code R h (Save_code c d ttl r) db = fst (SaveAuthorizationCode R h db c d ttl r)"
| "exec_code R h (Consume_code_if_match c d ttl) db = fst (ConsumeAuthorizationCodeIfMatch R h db c d ttl)"
| "exec_code R h (Consume_code c) db = fst (ConsumeAuthorizationCode R h db c)"
| "exec_code R h (Save_csrf s d ttl) db = fst (SaveCSRFState R h db s d ttl)"
| "exec_code R h (Consume_csrf s) db = fst (ConsumeCSRFState R h db s)"
| "exec_code R h (Save_consent c d ttl) db = fst (SaveConsent R h db c d ttl)"
| "exec_code R h (Consume_consent_for_user c u) db = fst (ConsumeConsentForUser R h db c u)"
| "exec_code R h (Consume_consent c) db = fst (ConsumeConsent R h db c)"

primrec exec_ceremony :: "'db redis \<Rightarrow> (string \<Rightarrow> string) \<Rightarrow> ceremony_op \<Rightarrow> 'db \<Rightarrow> 'db" where
  "exec_ceremony R h (Save_reauthentication t d ttl) db = fst (SaveOAuthReauthentication R h db t d ttl)"
| "exec_ceremony R h (Consume_reauthentication t) db = fst (ConsumeOAuthReauthentication R h db t)"
| "exec_ceremony R h (Save_mfa t d ttl r now) db = fst (SaveMFAPending R h db t d ttl r now)"
| "exec_ceremony R h (Consume_mfa t) db = fst (ConsumeMFAPending R h db t)"
| "exec_ceremony R h (Delete_mfa t) db = fst (DeleteMFAPending R h db t)"
| "exec_ceremony R h (Save_ceremony t d ttl now) db = fst (SaveWebAuthnCeremony R h db t d ttl now)"
| "exec_ceremony R h (Consume_ceremony t) db = fst (ConsumeWebAuthnCeremony R h db t)"
| "exec_ceremony R h (Delete_ceremony t) db = fst (DeleteWebAuthnCeremony R h db t)"
| "exec_ceremony R h (Consume_ceremony_and_mfa ct wc pt mp) db =
     fst (ConsumeWebAuthnCeremonyAndMFAPending R h db ct wc pt mp)"

primrec exec_token :: "'db redis \<Rightarrow> (string \<Rightarrow> string) \<Rightarrow> token_op \<Rightarrow> 'db \<Rightarrow> 'db" where
  "exec_token R h (Save_token t d ttl) db = fst (SaveToken R h db t d ttl)"
| "exec_token R h (Save_family_token t d fk ttl) db = fst (SaveTokenForRefreshFamily R h db t d fk ttl)"
| "exec_token R h (Revoke_token t) db = fst (RevokeToken R h db t)"
| "exec_token R h (Save_refresh t d ttl r) db = fst (SaveRefreshToken R h db t d ttl r)"
| "exec_token R h (Rotate_refresh t t' d ttl) db = fst (RotateRefreshToken R h db t t' d ttl)"
| "exec_token R h (Rotate_refresh_with_access t t' a d ad ttl ttl') db =
     fst (RotateRefreshTokenAndStoreAccess R h db t t' a d ad ttl ttl')"
| "exec_token R h (Revoke_refresh_for_client t c ttl) db = fst (RevokeRefreshTokenForClient R h db t c ttl)"
| "exec_token R h (Revoke_family f ttl) db = fst (RevokeRefreshFamily R h db f ttl)"
| "exec_token R h (Revoke_user_families u ttl) db = fst (RevokeRefreshFamiliesForUser R h db u ttl)"
| "exec_token R h (Revoke_families_before u v ttl) db = fst (RevokeRefreshFamiliesBeforeAuthVersion R h db u v ttl)"

primrec exec_clock :: "'db redis \<Rightarrow> (string \<Rightarrow> string) \<Rightarrow> clock_op \<Rightarrow> 'db \<Rightarrow> 'db" where
  "exec_clock R h (Issue_time u c ttl) db = fst (AuthorizationIssueTime R h db u c ttl)"
| "exec_clock R h (Revoke_authorization u c ttl) db = fst (RevokeUserClientAuthorization R h db u c ttl)"

primrec exec_session :: "'db redis \<Rightarrow> (string \<Rightarrow> string) \<Rightarrow> session_op \<Rightarrow> 'db \<Rightarrow> 'db" where
  "exec_session R h (Save_session s d ttl n r r' now) db = fst (SaveSessionWithLimit R h db s d ttl n r r' now)"
| "exec_session R h (Update_session s d a v ttl) db = fst (UpdateSession R h db s d a v ttl)"
| "exec_session R h (Delete_session s) db = fst (DeleteSession R h db s)"
| "exec_session R h (Delete_other_sessions u s) db = fst (DeleteOtherUserSessions R h db u s)"
| "exec_session R h (Delete_sessions_before u a v) db = fst (DeleteUserSessionsBeforeSecurityVersion R h db u a v)"
| "exec_session R h (Delete_session_by_public_id u p) db = fst (DeleteUserSessionByPublicID R h db u p)"
| "exec_session R h (List_sessions u) db = fst (ListUserSessions R h db u)"
| "exec_session R h (Touch_session s t) db = fst (TouchSession R h db s t)"
| "exec_session R h Count_sessions db = fst (CountActiveSessions R db)"

primrec exec_device :: "'db redis \<Rightarrow> (string \<Rightarrow> string) \<Rightarrow> device_op \<Rightarrow> 'db \<Rightarrow> 'db" where
  "exec_device R h (Create_device i draw) db = fst (Create R h db i draw)"
| "exec_device R h (Approve_device c u v s cl ia ac am at) db =
     fst (ApproveWithAuthentication R db c u v s cl ia ac am at)"
| "exec_device R h (Deny_device c) db = fst (Deny R db c)"
| "exec_device R h (Poll_device dc c now) db = fst (Poll R h db dc c now)"
| "exec_device R h (Consume_device c) db = fst (ConsumeApproved R db c)"
| "exec_device R h (Reserve_initiation c ip) db = fst (ReserveInitiation R h db c ip)"
| "exec_device R h (Reserve_verification u ip) db = fst (ReserveVerification R h db u ip)"

primrec exec :: "'db redis \<Rightarrow> (string \<Rightarrow> string) \<Rightarrow> store_op \<Rightarrow> 'db \<Rightarrow> 'db" where
  "exec R h (Code_op x) db = exec_code R h x db"
| "exec R h (Ceremony_op x) db = exec_ceremony R h x db"
| "exec R h (Token_op x) db = exec_token R h x db"
| "exec R h (Clock_op x) db = exec_clock R h x db"
| "exec R h (Session_op x) db = exec_session R h x db"
| "exec R h (Device_op x) db = exec_device R h x db"
| "exec R h Read db = snd (LINK R db)"

definition run :: "'db redis \<Rightarrow> (string \<Rightarrow> string) \<Rightarrow> store_op list \<Rightarrow> 'db \<Rightarrow> 'db" where
  "run R h ops db = fold (exec R h) ops db"

lemma run_simps [simp]: "run R h [] db = db" "run R h (op # ops) db = run R h ops (exec R h op db)"
  by (simp_all add: run_def)

section \<open>The keys a step may change\<close>

primrec written_code :: "(string \<Rightarrow> string) \<Rightarrow> code_op \<Rightarrow> string set" where
  "written_code h (Save_code c d ttl r) = {secretKey h codePrefix c}"
| "written_code h (Consume_code_if_match c d ttl) = {secretKey h codePrefix c, secretKey h codeUsedPrefix c}"
| "written_code h (Consume_code c) = {secretKey h codePrefix c}"
| "written_code h (Save_csrf s d ttl) = {secretKey h csrfPrefix s}"
| "written_code h (Consume_csrf s) = {secretKey h csrfPrefix s}"
| "written_code h (Save_consent c d ttl) = {secretKey h consentPrefix c}"
| "written_code h (Consume_consent_for_user c u) = {secretKey h consentPrefix c}"
| "written_code h (Consume_consent c) = {secretKey h consentPrefix c}"

primrec written_ceremony :: "(string \<Rightarrow> string) \<Rightarrow> ceremony_op \<Rightarrow> string set" where
  "written_ceremony h (Save_reauthentication t d ttl) = {secretKey h oauthReauthenticationPrefix t}"
| "written_ceremony h (Consume_reauthentication t) = {secretKey h oauthReauthenticationPrefix t}"
| "written_ceremony h (Save_mfa t d ttl r now) = {secretKey h mfaPendingPrefix t}"
| "written_ceremony h (Consume_mfa t) = {secretKey h mfaPendingPrefix t}"
| "written_ceremony h (Delete_mfa t) = {secretKey h mfaPendingPrefix t}"
| "written_ceremony h (Save_ceremony t d ttl now) = {secretKey h webAuthnCeremonyPrefix t}"
| "written_ceremony h (Consume_ceremony t) = {secretKey h webAuthnCeremonyPrefix t}"
| "written_ceremony h (Delete_ceremony t) = {secretKey h webAuthnCeremonyPrefix t}"
| "written_ceremony h (Consume_ceremony_and_mfa ct wc pt mp) =
     {secretKey h webAuthnCeremonyPrefix ct, secretKey h mfaPendingPrefix pt}"

primrec written_token :: "(string \<Rightarrow> string) \<Rightarrow> token_op \<Rightarrow> string set" where
  "written_token h (Save_token t d ttl) = refresh_keys"
| "written_token h (Save_family_token t d fk ttl) = refresh_keys"
| "written_token h (Revoke_token t) = refresh_keys"
| "written_token h (Save_refresh t d ttl r) = refresh_keys"
| "written_token h (Rotate_refresh t t' d ttl) = refresh_keys"
| "written_token h (Rotate_refresh_with_access t t' a d ad ttl ttl') = refresh_keys"
| "written_token h (Revoke_refresh_for_client t c ttl) = refresh_keys"
| "written_token h (Revoke_family f ttl) = refresh_keys"
| "written_token h (Revoke_user_families u ttl) = refresh_keys"
| "written_token h (Revoke_families_before u v ttl) = refresh_keys"

primrec written_clock :: "(string \<Rightarrow> string) \<Rightarrow> clock_op \<Rightarrow> string set" where
  "written_clock h (Issue_time u c ttl) = {authorizationClockKey h u c}"
| "written_clock h (Revoke_authorization u c ttl) = {authorizationClockKey h u c, authorizationRevocationKey h u c}"

primrec written_session :: "(string \<Rightarrow> string) \<Rightarrow> session_op \<Rightarrow> string set" where
  "written_session h (Save_session s d ttl n r r' now) = session_keys"
| "written_session h (Update_session s d a v ttl) = session_keys"
| "written_session h (Delete_session s) = session_keys"
| "written_session h (Delete_other_sessions u s) = session_keys"
| "written_session h (Delete_sessions_before u a v) = session_keys"
| "written_session h (Delete_session_by_public_id u p) = session_keys"
| "written_session h (List_sessions u) = session_keys"
| "written_session h (Touch_session s t) = session_keys"
| "written_session h Count_sessions = session_keys"

primrec written_device :: "(string \<Rightarrow> string) \<Rightarrow> device_op \<Rightarrow> string set" where
  "written_device h (Create_device i draw) = device_keys"
| "written_device h (Approve_device c u v s cl ia ac am at) =
     {recordKey (dr_DeviceID c), userCodeKey (dr_UserCodeDigest c)}"
| "written_device h (Deny_device c) = {recordKey (dr_DeviceID c), userCodeKey (dr_UserCodeDigest c)}"
| "written_device h (Poll_device dc c now) = {recordKey (h dc)}"
| "written_device h (Consume_device c) = {recordKey (dr_DeviceID c), userCodeKey (dr_UserCodeDigest c)}"
| "written_device h (Reserve_initiation c ip) = limit_keys"
| "written_device h (Reserve_verification u ip) = limit_keys"

primrec written :: "(string \<Rightarrow> string) \<Rightarrow> store_op \<Rightarrow> string set" where
  "written h (Code_op x) = written_code h x"
| "written h (Ceremony_op x) = written_ceremony h x"
| "written h (Token_op x) = written_token h x"
| "written h (Clock_op x) = written_clock h x"
| "written h (Session_op x) = written_session h x"
| "written h (Device_op x) = written_device h x"
| "written h Read = {}"

section \<open>Side conditions on the steps of a sequence\<close>

text \<open>The lifetimes of the token family invariant: refresh records live \<open>rt\<close>, access records at
  most as long, and records outside a family carry no family key.\<close>

primrec token_lifetimes :: "duration \<Rightarrow> token_op \<Rightarrow> bool" where
  "token_lifetimes rt (Save_token t d ttl) = (td_FamilyKey d = [])"
| "token_lifetimes rt (Save_family_token t d fk ttl) = (ttl \<le> rt)"
| "token_lifetimes rt (Revoke_token t) = True"
| "token_lifetimes rt (Save_refresh t d ttl r) = (ttl = rt)"
| "token_lifetimes rt (Rotate_refresh t t' d ttl) = (ttl = rt)"
| "token_lifetimes rt (Rotate_refresh_with_access t t' a d ad ttl ttl') = (ttl = rt \<and> ttl' \<le> rt)"
| "token_lifetimes rt (Revoke_refresh_for_client t c ttl) = True"
| "token_lifetimes rt (Revoke_family f ttl) = True"
| "token_lifetimes rt (Revoke_user_families u ttl) = True"
| "token_lifetimes rt (Revoke_families_before u v ttl) = True"

definition lifetimes :: "duration \<Rightarrow> store_op \<Rightarrow> bool" where
  "lifetimes rt op = (case op of Token_op t \<Rightarrow> token_lifetimes rt t | _ \<Rightarrow> True)"

text \<open>Steps that store a record of the family \<open>fk\<close> other than by rotation.\<close>

primrec stores_family :: "(string \<Rightarrow> string) \<Rightarrow> string \<Rightarrow> token_op \<Rightarrow> bool" where
  "stores_family h fk (Save_token t d ttl) = (td_FamilyKey d = fk)"
| "stores_family h fk (Save_family_token t d f ttl) = (f = fk)"
| "stores_family h fk (Revoke_token t) = False"
| "stores_family h fk (Save_refresh t d ttl r) =
     (case refresh_record h d r of Inl _ \<Rightarrow> False | Inr d' \<Rightarrow> td_FamilyKey d' = fk)"
| "stores_family h fk (Rotate_refresh t t' d ttl) = False"
| "stores_family h fk (Rotate_refresh_with_access t t' a d ad ttl ttl') = False"
| "stores_family h fk (Revoke_refresh_for_client t c ttl) = False"
| "stores_family h fk (Revoke_family f ttl) = False"
| "stores_family h fk (Revoke_user_families u ttl) = False"
| "stores_family h fk (Revoke_families_before u v ttl) = False"

definition resurrects :: "(string \<Rightarrow> string) \<Rightarrow> string \<Rightarrow> store_op \<Rightarrow> bool" where
  "resurrects h fk op = (case op of Token_op t \<Rightarrow> stores_family h fk t | _ \<Rightarrow> False)"

text \<open>Steps that store a record under the token key \<open>k\<close>.\<close>

primrec stores_key :: "(string \<Rightarrow> string) \<Rightarrow> string \<Rightarrow> token_op \<Rightarrow> bool" where
  "stores_key h k (Save_token t d ttl) = (k = secretKey h tokenPrefix t)"
| "stores_key h k (Save_family_token t d f ttl) = (k = secretKey h tokenPrefix t)"
| "stores_key h k (Revoke_token t) = False"
| "stores_key h k (Save_refresh t d ttl r) = (k = secretKey h refreshPrefix t)"
| "stores_key h k (Rotate_refresh t t' d ttl) = (k = secretKey h refreshPrefix t')"
| "stores_key h k (Rotate_refresh_with_access t t' a d ad ttl ttl') =
     (k = secretKey h refreshPrefix t' \<or> k = secretKey h tokenPrefix a)"
| "stores_key h k (Revoke_refresh_for_client t c ttl) = False"
| "stores_key h k (Revoke_family f ttl) = False"
| "stores_key h k (Revoke_user_families u ttl) = False"
| "stores_key h k (Revoke_families_before u v ttl) = False"

text \<open>The key is still there each time a step's first request reaches the server.\<close>

fun unexpired :: "'db redis \<Rightarrow> (string \<Rightarrow> string) \<Rightarrow> string \<Rightarrow> store_op list \<Rightarrow> 'db \<Rightarrow> bool" where
  "unexpired R h k [] db = True"
| "unexpired R h k (op # ops) db =
     (GET R (snd (LINK R db)) k \<noteq> None \<and> unexpired R h k ops (exec R h op db))"

lemma written_classes:
  "k \<in> written_code h c \<Longrightarrow> key_class k \<in> {''code'', ''code-used'', ''csrf'', ''consent''}"
  "k \<in> written_ceremony h m \<Longrightarrow>
     key_class k \<in> {''oauth-reauthentication'', ''mfa-pending'', ''webauthn-ceremony''}"
  "k \<in> written_token h t \<Longrightarrow> k \<in> refresh_keys"
  "k \<in> written_clock h a \<Longrightarrow> key_class k \<in> {''authorization-clock'', ''authorization-revoked''}"
  "k \<in> written_session h s \<Longrightarrow> k \<in> session_keys"
  "k \<in> written_device h d \<Longrightarrow> key_class k \<in> {''device'', ''user'', ''limit''}"
proof -
  show "k \<in> written_code h c \<Longrightarrow> key_class k \<in> {''code'', ''code-used'', ''csrf'', ''consent''}"
    by (cases c) auto
  show "k \<in> written_ceremony h m \<Longrightarrow>
     key_class k \<in> {''oauth-reauthentication'', ''mfa-pending'', ''webauthn-ceremony''}"
    by (cases m) auto
  show "k \<in> written_token h t \<Longrightarrow> k \<in> refresh_keys" by (cases t) (simp_all del: in_refresh_keys)
  show "k \<in> written_clock h a \<Longrightarrow> key_class k \<in> {''authorization-clock'', ''authorization-revoked''}"
    by (cases a) auto
  show "k \<in> written_session h s \<Longrightarrow> k \<in> session_keys" by (cases s) (simp_all del: in_session_keys)
  show "k \<in> written_device h d \<Longrightarrow> key_class k \<in> {''device'', ''user'', ''limit''}" by (cases d) auto
qed

text \<open>Only the clock operations write the keys of the authorization clock.\<close>

lemma written_clock_only:
  assumes "k \<in> written h op" and "key_class k = ''authorization-clock'' \<or> key_class k = ''authorization-revoked''"
  obtains a where "op = Clock_op a"
  using assms by (cases op) (auto dest!: written_classes)

text \<open>Only the code operations write the keys of authorization codes and consents.\<close>

lemma written_code_only:
  assumes "k \<in> written h op" and "key_class k \<in> {''code'', ''code-used'', ''csrf'', ''consent''}"
  obtains c where "op = Code_op c"
  using assms by (cases op) (auto dest!: written_classes)

lemma written_device_only:
  assumes "k \<in> written h op" and "key_class k = ''device'' \<or> key_class k = ''user''"
  obtains d where "op = Device_op d"
  using assms by (cases op) (auto dest!: written_classes)

lemma written_disjoint:
  "written_code h c \<inter> family_keys = {}" "written_ceremony h m \<inter> family_keys = {}"
  "written_clock h a \<inter> family_keys = {}" "written_session h s \<inter> family_keys = {}"
  "written_device h d \<inter> family_keys = {}"
  by (auto dest!: written_classes)

context redis_server
begin

lemma exec_evolves_groups:
  "evolves R (written_code h c) db (exec_code R h c db)"
  "evolves R (written_ceremony h m) db (exec_ceremony R h m db)"
  "evolves R (written_token h t) db (exec_token R h t db)"
  "evolves R (written_clock h a) db (exec_clock R h a db)"
  "evolves R (written_session h s) db (exec_session R h s db)"
  "evolves R (written_device h d) db (exec_device R h d db)"
proof -
  show "evolves R (written_code h c) db (exec_code R h c db)"
    by (cases c) (simp_all add: evolves_codes)
  show "evolves R (written_ceremony h m) db (exec_ceremony R h m db)"
    by (cases m) (simp_all add: evolves_ceremonies evolves_ceremony_pairs)
  show "evolves R (written_token h t) db (exec_token R h t db)"
    by (cases t) (simp_all add: evolves_refresh)
  show "evolves R (written_clock h a) db (exec_clock R h a db)"
    by (cases a) (simp_all add: evolves_clock)
  show "evolves R (written_session h s) db (exec_session R h s db)"
    by (cases s) (simp_all add: evolves_sessions evolves_ListUserSessions)
  show "evolves R (written_device h d) db (exec_device R h d db)"
    by (cases d) (simp_all add: evolves_device evolves_limits)
qed

lemma exec_evolves: "evolves R (written h op) db (exec R h op db)"
  by (cases op) (simp_all add: exec_evolves_groups evolves_LINK)

lemma exec_typed: "typed R db \<Longrightarrow> typed R (exec R h op db)"
  using exec_evolves [of h op db] by (simp add: evolves_def)

lemma run_typed: "typed R db \<Longrightarrow> typed R (run R h ops db)"
  by (induction ops arbitrary: db) (simp_all add: exec_typed)

lemma exec_GET:
  assumes "typed R db" and "k \<notin> written h op"
  shows "GET R (exec R h op db) k = GET R db k \<or> GET R (exec R h op db) k = None"
proof -
  obtain el where "keeps R (written h op) el db (exec R h op db)"
    using exec_evolves [of h op db] assms(1) by (auto simp: evolves_def)
  from keeps_GET [OF this assms(2)] show ?thesis .
qed

text \<open>A key that no step writes stays absent once it is absent.\<close>

lemma run_absent:
  "typed R db \<Longrightarrow> GET R db k = None \<Longrightarrow> (\<And>op. op \<in> set ops \<Longrightarrow> k \<in> written h op \<Longrightarrow>
     (\<And>d. typed R d \<Longrightarrow> GET R d k = None \<Longrightarrow> GET R (exec R h op d) k = None)) \<Longrightarrow>
   GET R (run R h ops db) k = None"
proof (induction ops arbitrary: db)
  case (Cons op ops)
  have "GET R (exec R h op db) k = None"
    using exec_GET [OF Cons.prems(1), of k h op] Cons.prems by (cases "k \<in> written h op") auto
  then show ?case using Cons.IH [OF exec_typed [OF Cons.prems(1)]] Cons.prems(3) by simp
qed simp

section \<open>Token families along a sequence\<close>

lemma exec_token_sound:
  assumes "sound R (rt div Millisecond) {} db" and "0 < rt" and "Second dvd rt" and "token_lifetimes rt t"
  shows "sound R (rt div Millisecond) {} (exec_token R h t db)"
  using assms sound_refresh_ops [OF assms(1-3) refl] sound_revocation_ops [OF assms(1)]
  by (cases t) (simp_all add: sound_SaveToken sound_RevokeToken)

lemma exec_sound:
  assumes "sound R (rt div Millisecond) {} db" and "0 < rt" and "Second dvd rt" and "lifetimes rt op"
  shows "sound R (rt div Millisecond) {} (exec R h op db)"
proof (cases op)
  case (Token_op t)
  then show ?thesis using assms exec_token_sound by (simp add: lifetimes_def)
next
  case Read
  then show ?thesis using sound_evolves [OF evolves_LINK [where K = "{}"] _ assms(1)] by simp
qed (use sound_evolves [OF exec_evolves_groups(1) written_disjoint(1) assms(1)]
      sound_evolves [OF exec_evolves_groups(2) written_disjoint(2) assms(1)]
      sound_evolves [OF exec_evolves_groups(4) written_disjoint(3) assms(1)]
      sound_evolves [OF exec_evolves_groups(5) written_disjoint(4) assms(1)]
      sound_evolves [OF exec_evolves_groups(6) written_disjoint(5) assms(1)] in simp_all)

lemma run_sound:
  assumes "sound R (rt div Millisecond) {} db" and "0 < rt" and "Second dvd rt" and "\<forall>op \<in> set ops. lifetimes rt op"
  shows "sound R (rt div Millisecond) {} (run R h ops db)"
  using assms by (induction ops arbitrary: db) (simp_all add: exec_sound)

lemma exec_token_dead:
  assumes "dead R fk db" and "\<not> stores_family h fk t"
  shows "dead R fk (exec_token R h t db)"
proof (cases t)
  case (Save_refresh tok d ttl r)
  then have "\<And>d'. refresh_record h d r = Inr d' \<Longrightarrow> td_FamilyKey d' \<noteq> fk" using assms(2) by simp
  then show ?thesis using dead_token_ops(5) [OF assms(1)] Save_refresh by simp
qed (use assms(2) dead_token_ops(1-4) [OF assms(1)] family_ban.without_removals [OF assms(1)] in simp_all)

end

text \<open>The other groups of operations do not touch token records.\<close>

context token_ban
begin

lemma exec_without:
  assumes w: "without R B db" and t: "\<And>t. op = Token_op t \<Longrightarrow> without R B (exec_token R h t db)"
  shows "without R B (exec R h op db)"
proof -
  have out: "B k v \<Longrightarrow> k \<notin> K" if "K \<inter> family_keys = {}" for K k v
    using that banned_class [of k v] by auto
  note other = without_evolves [OF w exec_evolves_groups(1) out [OF written_disjoint(1)]]
    without_evolves [OF w exec_evolves_groups(2) out [OF written_disjoint(2)]]
    without_evolves [OF w exec_evolves_groups(4) out [OF written_disjoint(3)]]
    without_evolves [OF w exec_evolves_groups(5) out [OF written_disjoint(4)]]
    without_evolves [OF w exec_evolves_groups(6) out [OF written_disjoint(5)]]
    without_evolves [OF w evolves_LINK [where K = "{}"]]
  show ?thesis using t other by (cases op) simp_all
qed

lemma run_without:
  assumes "without R B db"
    and "\<And>d t. Token_op t \<in> set ops \<Longrightarrow> without R B d \<Longrightarrow> without R B (exec_token R h t d)"
  shows "without R B (run R h ops db)"
  using assms
proof (induction ops arbitrary: db)
  case (Cons op ops)
  have "without R B (exec R h op db)" using Cons.prems by (intro exec_without) auto
  then show ?case using Cons by simp
qed simp

end

context redis_server
begin

lemma run_dead:
  assumes "dead R fk db" and "\<forall>op \<in> set ops. \<not> resurrects h fk op"
  shows "dead R fk (run R h ops db)"
  by (rule family_ban.run_without [OF assms(1)])
     (use assms(2) exec_token_dead in \<open>fastforce simp: resurrects_def\<close>)

text \<open>A token key that is absent stays absent until something is stored under it.\<close>

lemma exec_token_absent:
  assumes w: "without R (key_record k) db" and t: "\<not> stores_key h k t"
  shows "without R (key_record k) (exec_token R h t db)"
proof -
  have other: "j \<noteq> k \<Longrightarrow> \<not> key_record k j v" for j v by (simp add: key_record_def)
  show ?thesis
    using t
    by (cases t) (auto intro!: key_ban.without_removals [OF w] key_ban.without_rotations [OF w]
        key_ban.without_stores [OF w] other)
qed

lemma run_token_absent:
  assumes "typed R db" and "GET R db k = None" and "key_class k = ''refresh'' \<or> key_class k = ''token''"
    and "\<And>t. Token_op t \<in> set ops \<Longrightarrow> \<not> stores_key h k t"
  shows "GET R (run R h ops db) k = None"
proof -
  have "without R (key_record k) db" using assms(1-3) by (auto simp: without_def key_record_def)
  then have "without R (key_record k) (run R h ops db)"
    by (rule key_ban.run_without) (use assms(4) exec_token_absent in blast)
  then show ?thesis
    using assms(3) without_GET [of R "key_record k"] by (fastforce simp: key_record_def)
qed

section \<open>The authorization clock along a sequence\<close>

text \<open>A stored reading never decreases while its key is there.\<close>

lemma exec_reading:
  assumes t: "typed R db" and k: "k = authorizationClockKey h u c \<or> k = authorizationRevocationKey h u c"
    and n: "GET R db k = Some (VNum n)" and alive: "GET R (snd (LINK R db)) k \<noteq> None"
  shows "GET R (exec R h op db) k = None \<or> (\<exists>m \<ge> n. GET R (exec R h op db) k = Some (VNum m))"
proof -
  have L: "GET R (snd (LINK R db)) k = Some (VNum n)" using LINK_GET [of db k] alive n by auto
  have later: "n \<le> m" if "next_micros R (authorizationClockKey h u' c') (authorizationRevocationKey h u' c')
      (snd (LINK R db)) = Some m"
      "k = authorizationClockKey h u' c' \<or> k = authorizationRevocationKey h u' c'" for u' c' m
    using next_micros_Some(2,3) [OF that(1), of n] L that(2) by auto
  show ?thesis
  proof (cases "k \<in> written h op")
    case False
    then show ?thesis using exec_GET [OF t False] n by auto
  next
    case True
    have "key_class k = ''authorization-clock'' \<or> key_class k = ''authorization-revoked''" using k by auto
    with True obtain a where op: "op = Clock_op a" by (rule written_clock_only)
    show ?thesis
    proof (cases a)
      case (Issue_time u' c' ttl)
      then have k': "k = authorizationClockKey h u' c'" using True op by simp
      show ?thesis
        using L later [OF _ disjI1 [OF k']] unfolding op Issue_time k'
        by (auto simp: AuthorizationIssueTime_def authorizationIssueTimeScript_def call_split SET_obs n [unfolded k']
            split: sum.splits prod.splits delivery.splits option.splits dest!: ttlMilliseconds_pos(2))
    next
      case (Revoke_authorization u' c' ttl)
      then have k': "k = authorizationClockKey h u' c' \<or> k = authorizationRevocationKey h u' c'"
        using True op by simp
      show ?thesis
        using k' L later [OF _ k'] unfolding op Revoke_authorization
        by (auto simp: RevokeUserClientAuthorization_def revokeAuthorizationScript_def call_split SET_obs n
            split: sum.splits prod.splits delivery.splits option.splits dest!: ttlMilliseconds_pos(2))
    qed
  qed
qed

lemma run_reading:
  assumes "typed R db" and k: "k = authorizationClockKey h u c \<or> k = authorizationRevocationKey h u c"
    and "GET R db k = Some (VNum n)" and "unexpired R h k ops db" and "GET R (run R h ops db) k = Some v"
  shows "\<exists>m \<ge> n. v = VNum m"
  using assms(1,3,4,5)
proof (induction ops arbitrary: db n)
  case (Cons op ops)
  let ?d = "exec R h op db"
  have t: "typed R ?d" using exec_typed Cons.prems(1) .
  have step: "GET R ?d k = None \<or> (\<exists>m \<ge> n. GET R ?d k = Some (VNum m))"
    by (rule exec_reading [OF Cons.prems(1) k Cons.prems(2)]) (use Cons.prems in simp)
  show ?case
  proof (cases ops)
    case Nil
    then show ?thesis using step Cons.prems by auto
  next
    case (Cons op' ops')
    then have "GET R (snd (LINK R ?d)) k \<noteq> None" using Cons.prems(3) by simp
    then have "GET R ?d k \<noteq> None" using LINK_GET [of ?d k] by auto
    then obtain m where m: "m \<ge> n" "GET R ?d k = Some (VNum m)" using step by auto
    have "\<exists>m' \<ge> m. v = VNum m'"
      by (rule Cons.IH [OF t m(2)]) (use Cons.prems in simp_all)
    then show ?thesis using m(1) by auto
  qed
qed auto

end

end
