(* ===== verification/Sample_Runs.thy ===== *)
theory Sample_Runs
  imports Session_Store
begin

text \<open>
  The inputs of the runs that follow each property of the stores: the in-memory server
  \<open>mem_redis\<close>, empty at first, and an identity digest, since the digest may be any function.
\<close>

definition plain :: "string \<Rightarrow> string" where "plain s = s"

lemma typed_mem_empty: "typed mem_redis mem_empty"
  by (simp add: typed_def typed_key_def)

lemma mem_server: "redis_server mem_redis"
  by (rule mem.redis_server_axioms)

lemma mem_empty_without: "without mem_redis B mem_empty"
  using typed_mem_empty by (simp add: without_def)

lemma mem_empty_sound: "sound mem_redis M {} mem_empty"
  using typed_mem_empty by (simp add: sound_def family_live_def)

text \<open>A result pair is recovered from its second component.\<close>

lemma hour_whole: "0 < Hour" "Second dvd Hour"
  by (simp_all add: Hour_def Minute_def Second_def)

lemma result_pair: "snd p = r \<Longrightarrow> p = (fst p, r)"
  by (cases p) simp

lemma Inr_pair: "isl (snd p) = False \<Longrightarrow> p = (fst p, Inr (projr (snd p)))"
  by (rule prod_eqI) simp_all

end
