(* ===== verification/Store_Properties.thy ===== *)
theory Store_Properties
  imports Sample_Runs
begin

text \<open>
  The properties of the session and device stores that hold along every sequence of operations,
  stated for every server \<open>R\<close> that obeys the laws of \<open>redis_server\<close>, with any pattern of lost
  requests, lost replies and delays. Each is followed by a run of the model on the in-memory
  server \<open>mem_redis\<close>.
\<close>

section \<open>Authorization codes\<close>

definition saves_code :: "(string \<Rightarrow> string) \<Rightarrow> string \<Rightarrow> store_op \<Rightarrow> bool" where
  "saves_code h code op =
     (case op of Code_op (Save_code c _ _ _) \<Rightarrow> h c = h code | _ \<Rightarrow> False)"

context redis_server
begin

text \<open>After a consumption the code is gone, and its used record is the consumed one or expired.\<close>

lemma exec_consumed:
  assumes t: "typed R db" and g: "GET R db (secretKey h codePrefix code) = None"
    and u: "GET R db (secretKey h codeUsedPrefix code) \<in> {None, Some (VCode d)}" and s: "\<not> saves_code h code op"
  shows "GET R (exec R h op db) (secretKey h codePrefix code) = None"
    and "GET R (exec R h op db) (secretKey h codeUsedPrefix code) \<in> {None, Some (VCode d)}"
proof -
  let ?c = "secretKey h codePrefix code" and ?u = "secretKey h codeUsedPrefix code"
  have ne: "?c \<noteq> ?u" by (simp add: key_simps)
  have L: "GET R (snd (LINK R db)) ?c = None" "GET R (snd (LINK R db)) ?u \<in> {None, Some (VCode d)}"
    using LINK_GET [of db ?c] LINK_GET [of db ?u] g u by auto
  have "GET R (exec R h op db) ?c = None \<and> GET R (exec R h op db) ?u \<in> {None, Some (VCode d)}"
  proof (cases "?c \<in> written h op \<or> ?u \<in> written h op")
    case False
    then show ?thesis using exec_GET [OF t, of ?c h op] exec_GET [OF t, of ?u h op] g u by auto
  next
    case True
    then obtain c where op: "op = Code_op c"
      by (elim disjE) (erule written_code_only, simp, blast)+
    show ?thesis
    proof (cases c)
      case (Save_code c' d' ttl r)
      then show ?thesis using True s op by (auto simp: saves_code_def key_simps)
    next
      case (Consume_code_if_match c' e ttl)
      then have h: "h c' = h code" using True op by (auto simp: key_simps)
      then have k: "secretKey h codePrefix c' = ?c" "secretKey h codeUsedPrefix c' = ?u"
        by (simp_all add: secretKey_def)
      have "fst (consumeMatchingScript R ?c ?u v ms (snd (LINK R db))) = snd (LINK R db)" for v ms
        by (simp add: consumeMatchingScript_def L(1) split: option.splits)
      then show ?thesis
        using L g u fst_call [of R ErrRedis db "consumeMatchingScript R ?c ?u (ad_RecordVersion e) ms" for ms]
        unfolding op Consume_code_if_match
        by (auto simp: ConsumeAuthorizationCodeIfMatch_def k split: sum.splits)
    next
      case (Consume_code c')
      then have "h c' = h code" using True op by (auto simp: key_simps)
      then have k: "secretKey h codePrefix c' = ?c" by (simp add: secretKey_def)
      show ?thesis
        unfolding op Consume_code
        using L ne fst_call [of R ErrRedis db]
        by (simp add: ConsumeAuthorizationCode_def k getDelJSON_def)
           (rule fst_callI [of "\<lambda>d'. GET R d' ?c = None \<and> (GET R d' ?u = None \<or> GET R d' ?u = Some (VCode d))"],
            auto simp: GETDEL_def DEL_obs)
    qed (use True op in \<open>auto simp: key_simps\<close>)
  qed
  then show "GET R (exec R h op db) ?c = None" "GET R (exec R h op db) ?u \<in> {None, Some (VCode d)}"
    by auto
qed

lemma run_consumed:
  assumes "typed R db" and "GET R db (secretKey h codePrefix code) = None"
    and "GET R db (secretKey h codeUsedPrefix code) \<in> {None, Some (VCode d)}"
    and "\<forall>op \<in> set ops. \<not> saves_code h code op"
  shows "GET R (run R h ops db) (secretKey h codePrefix code) = None \<and>
    GET R (run R h ops db) (secretKey h codeUsedPrefix code) \<in> {None, Some (VCode d)}"
  using assms
proof (induction ops arbitrary: db)
  case (Cons op ops)
  have s: "\<not> saves_code h code op" using Cons.prems by simp
  from Cons.IH [OF exec_typed [OF Cons.prems(1)] exec_consumed [OF Cons.prems(1-3) s]] Cons.prems(4)
  show ?case by simp
qed simp


lemma code_single_use:
  assumes t: "typed R db" and c: "ConsumeAuthorizationCodeIfMatch R h db code expected ttl = (db1, Inr d)"
    and ops: "\<forall>op \<in> set ops. \<not> saves_code h code op"
  shows "typed R (run R h ops db1)" and "GET R (run R h ops db1) (secretKey h codePrefix code) = None"
    and "GET R (run R h ops db1) (secretKey h codeUsedPrefix code) \<in> {None, Some (VCode d)}"
proof -
  have t1: "typed R db1"
    using evolves_codes(2) [of h code db expected ttl] t by (simp add: evolves_def c)
  then show "typed R (run R h ops db1)" by (rule run_typed)
  show "GET R (run R h ops db1) (secretKey h codePrefix code) = None"
    and "GET R (run R h ops db1) (secretKey h codeUsedPrefix code) \<in> {None, Some (VCode d)}"
    using run_consumed [OF t1 consume_code_Inr(3) [OF c] _ ops] consume_code_Inr(4) [OF c] by auto
qed

lemma absent_code_not_consumed:
  assumes "GET R db (secretKey h codePrefix code) = None"
  shows "snd (ConsumeAuthorizationCodeIfMatch R h db code e ttl) \<noteq> Inr d"
    and "snd (ConsumeAuthorizationCode R h db code) \<noteq> Inr d"
proof
  assume "snd (ConsumeAuthorizationCodeIfMatch R h db code e ttl) = Inr d"
  then have "ConsumeAuthorizationCodeIfMatch R h db code e ttl =
      (fst (ConsumeAuthorizationCodeIfMatch R h db code e ttl), Inr d)"
    by (simp add: prod_eq_iff)
  from consume_code_Inr(1) [OF this] assms show False by simp
next
  show "snd (ConsumeAuthorizationCode R h db code) \<noteq> Inr d"
  proof
    assume "snd (ConsumeAuthorizationCode R h db code) = Inr d"
    then have "getDelJSON R db (secretKey h codePrefix code) decode_code =
        (fst (ConsumeAuthorizationCode R h db code), Inr d)"
      by (simp add: ConsumeAuthorizationCode_def prod_eq_iff)
    then show False by (rule getDelJSON_Inr) (simp add: assms)
  qed
qed

lemma consumed_code_lookup:
  assumes g: "GET R db (secretKey h codePrefix code) = None"
    and u: "GET R db (secretKey h codeUsedPrefix code) \<in> {None, Some (VCode d)}"
    and r: "GetAuthorizationCode R h db code = (db', Inr r)"
  shows "r = (True, d)"
proof -
  obtain db1 x where one: "getJSON R db (secretKey h codePrefix code) decode_code = (db1, x)"
    by (cases "getJSON R db (secretKey h codePrefix code) decode_code")
  have "x \<noteq> Inr y" for y using getJSON_Inr [of db "secretKey h codePrefix code" decode_code db1 y] one g by auto
  then obtain e where x: "x = Inl e" by (cases x) auto
  have db1: "db1 = snd (LINK R db)"
    using one fst_call [of R ErrRedis db] by (metis (no_types, lifting) fst_conv getJSON_def)
  from r obtain v where v: "getJSON R db1 (secretKey h codeUsedPrefix code) decode_code = (db', Inr v)"
      and rv: "r = (True, v)"
    by (auto simp: GetAuthorizationCode_def one x split: if_splits prod.splits sum.splits)
  from v obtain w where "GET R db1 (secretKey h codeUsedPrefix code) = Some w" "decode_code w = Some v"
    by (rule getJSON_Inr)
  moreover have "GET R db1 (secretKey h codeUsedPrefix code) \<in> {None, Some (VCode d)}"
    using LINK_GET [of db "secretKey h codeUsedPrefix code"] u by (auto simp: db1)
  ultimately show ?thesis using rv by auto
qed

end

text \<open>A small code record and a server that holds it.\<close>

definition sample_code :: authorization_data where
  "sample_code = \<lparr>ad_RecordVersion = ''v1'', ad_ClientID = ''c'', ad_UserID = ''u'', ad_RedirectURI = ''r'',
     ad_Scopes = [''openid''], ad_AllowedClaims = None, ad_ClaimNamesSet = False, ad_CodeChallenge = [],
     ad_ChallengeMethod = [], ad_Nonce = [], ad_AuthVersion = 1, ad_AuthenticationContext = [],
     ad_AuthenticationMethods = [], ad_AuthenticationTime = 0, ad_AuthorizationIssuedAt = 0,
     ad_ClientAuthorizationRevision = 0\<rparr>"

definition with_code :: mem_db where
  "with_code = run mem_redis plain
     [Code_op (Save_code ''abc'' sample_code Minute (Some ''v1''))] mem_empty"

lemma typed_with_code: "typed mem_redis with_code"
  unfolding with_code_def by (rule mem.run_typed [OF typed_mem_empty])

text \<open>
  C1. An authorization code is exchanged at most once. A consumption that succeeds returns the
  record stored for the code, with the record version the caller expected; after it, whatever
  operations run on the stores, in any interleaving and with any lost requests and replies, no
  further consumption of that code succeeds, unless the code is saved anew.
\<close>

theorem authorization_code_single_use:
  assumes "redis_server R" and "typed R db"
    and "ConsumeAuthorizationCodeIfMatch R h db code expected ttl = (db1, Inr d)"
    and "\<forall>op \<in> set ops. \<not> saves_code h code op"
  shows "GET R db (secretKey h codePrefix code) = Some (VCode d) \<and>
    ad_RecordVersion d = ad_RecordVersion expected \<and>
    snd (ConsumeAuthorizationCodeIfMatch R h (run R h ops db1) code e ttl') \<noteq> Inr d' \<and>
    snd (ConsumeAuthorizationCode R h (run R h ops db1) code) \<noteq> Inr d'"
  using redis_server.consume_code_Inr(1,2) [OF assms(1,3)]
    redis_server.absent_code_not_consumed [OF assms(1) redis_server.code_single_use(2) [OF assms]]
  by blast

theorem authorization_code_single_use_witness:
  "snd (ConsumeAuthorizationCodeIfMatch mem_redis plain with_code ''abc'' sample_code Minute) = Inr sample_code \<and>
   snd (ConsumeAuthorizationCodeIfMatch mem_redis plain
     (run mem_redis plain [Code_op (Save_code ''other'' sample_code Minute (Some ''v2'')), Read]
       (fst (ConsumeAuthorizationCodeIfMatch mem_redis plain with_code ''abc'' sample_code Minute)))
     ''abc'' sample_code Minute) \<noteq> Inr sample_code"
proof -
  let ?r = "ConsumeAuthorizationCodeIfMatch mem_redis plain with_code ''abc'' sample_code Minute"
  have s: "snd ?r = Inr sample_code" by code_simp
  then have r: "?r = (fst ?r, Inr sample_code)" by (simp add: prod_eq_iff)
  have o: "\<forall>op \<in> set [Code_op (Save_code ''other'' sample_code Minute (Some ''v2'')), Read].
      \<not> saves_code plain ''abc'' op"
    by (simp add: saves_code_def plain_def)
  show ?thesis
    using s authorization_code_single_use [OF mem_server typed_with_code r o] by blast
qed

text \<open>
  C2. A replayed authorization code is recognised. After a consumption, along any sequence of
  operations that does not save the code anew, every lookup of the code that finds anything
  reports reuse together with the consumed record, which names the grant to revoke.
\<close>

theorem authorization_code_replay_recognised:
  assumes "redis_server R" and "typed R db"
    and "ConsumeAuthorizationCodeIfMatch R h db code expected ttl = (db1, Inr d)"
    and "\<forall>op \<in> set ops. \<not> saves_code h code op"
    and "GetAuthorizationCode R h (run R h ops db1) code = (db2, Inr r)"
  shows "r = (True, d)"
  using redis_server.consumed_code_lookup [OF assms(1) redis_server.code_single_use(2,3) [OF assms(1-4)] assms(5)] .

theorem authorization_code_replay_recognised_witness:
  "snd (GetAuthorizationCode mem_redis plain (run mem_redis plain [Read]
     (fst (ConsumeAuthorizationCodeIfMatch mem_redis plain with_code ''abc'' sample_code Minute))) ''abc'')
   = Inr (True, sample_code)"
proof -
  let ?r = "ConsumeAuthorizationCodeIfMatch mem_redis plain with_code ''abc'' sample_code Minute"
  let ?g = "GetAuthorizationCode mem_redis plain (run mem_redis plain [Read] (fst ?r)) ''abc''"
  have "snd ?r = Inr sample_code" by code_simp
  then have r: "?r = (fst ?r, Inr sample_code)" by (simp add: prod_eq_iff)
  have "snd ?g = Inr (True, sample_code)" by code_simp
  then have x: "?g = (fst ?g, Inr (True, sample_code))" by (simp add: prod_eq_iff)
  have o: "\<forall>op \<in> set [Read]. \<not> saves_code plain ''abc'' op" by (simp add: saves_code_def)
  from authorization_code_replay_recognised [OF mem_server typed_with_code r o x] x show ?thesis
    by (simp add: prod_eq_iff)
qed

section \<open>Consents and ceremonies\<close>

definition saves_consent :: "(string \<Rightarrow> string) \<Rightarrow> string \<Rightarrow> store_op \<Rightarrow> bool" where
  "saves_consent h ch op =
     (case op of Code_op (Save_consent c _ _) \<Rightarrow> h c = h ch | _ \<Rightarrow> False)"

context redis_server
begin

lemma consent_other_user:
  assumes "GET R db (secretKey h consentPrefix ch) = Some (VConsent d)" and "cd_UserID d \<noteq> u"
  shows "snd (ConsumeConsentForUser R h db ch u) \<noteq> Inr d'"
    and "fst (ConsumeConsentForUser R h db ch u) = snd (LINK R db)"
proof -
  let ?k = "secretKey h consentPrefix ch" and ?d = "snd (LINK R db)"
  have "GET R ?d ?k = None \<or> GET R ?d ?k = Some (VConsent d)" using LINK_GET [of db ?k] assms(1) by auto
  then show "snd (ConsumeConsentForUser R h db ch u) \<noteq> Inr d'"
    and "fst (ConsumeConsentForUser R h db ch u) = ?d"
    using assms(2) by (auto simp: ConsumeConsentForUser_def on_result_def call_split consumeConsentScript_def
        consume_consent_result_def split: prod.splits delivery.splits sum.splits if_splits)
qed

lemma consent_stays_consumed:
  assumes "typed R db" and "GET R db (secretKey h consentPrefix ch) = None"
    and ops: "\<forall>op \<in> set ops. \<not> saves_consent h ch op"
  shows "GET R (run R h ops db) (secretKey h consentPrefix ch) = None"
proof (rule run_absent [OF assms(1,2)])
  fix op d
  let ?k = "secretKey h consentPrefix ch"
  assume op: "op \<in> set ops" and w: "?k \<in> written h op" and g: "GET R d ?k = None"
  obtain c where c: "op = Code_op c" by (rule written_code_only [OF w]) (simp add: key_simps)
  have L: "GET R (snd (LINK R d)) ?k = None" using LINK_GET [of d ?k] g by auto
  have keep: "GET R (fst (consumeConsentScript R k u (snd (LINK R d)))) ?k = None" for k u
    using L by (auto simp: consumeConsentScript_def DEL_obs split: option.splits)
  show "GET R (exec R h op d) ?k = None"
  proof (cases c)
    case (Save_consent c' d' ttl)
    then show ?thesis using w c ops op by (auto simp: saves_consent_def key_simps)
  next
    case (Consume_consent_for_user c' u)
    then have e: "exec R h op d = fst (call R ErrRedis d (consumeConsentScript R (secretKey h consentPrefix c') u))"
      by (simp add: c ConsumeConsentForUser_def)
    show ?thesis unfolding e by (rule fst_callI [of "\<lambda>d. GET R d ?k = None"]) (rule L, rule keep)
  next
    case (Consume_consent c')
    then show ?thesis
      unfolding c using L fst_call [of R ErrRedis d]
      by (simp add: ConsumeConsent_def getDelJSON_def)
         (rule fst_callI [of "\<lambda>d. GET R d ?k = None"], auto simp: GETDEL_def DEL_obs)
  qed (use w c in \<open>auto simp: key_simps\<close>)
qed

lemma absent_consent_not_consumed:
  assumes "GET R db (secretKey h consentPrefix ch) = None"
  shows "snd (ConsumeConsentForUser R h db ch u) \<noteq> Inr d" and "snd (ConsumeConsent R h db ch) \<noteq> Inr d"
proof
  assume "snd (ConsumeConsentForUser R h db ch u) = Inr d"
  then have "ConsumeConsentForUser R h db ch u = (fst (ConsumeConsentForUser R h db ch u), Inr d)"
    by (simp add: prod_eq_iff)
  from consent_outcome(1) [OF this] assms show False by simp
next
  show "snd (ConsumeConsent R h db ch) \<noteq> Inr d"
  proof
    assume "snd (ConsumeConsent R h db ch) = Inr d"
    then have "getDelJSON R db (secretKey h consentPrefix ch) decode_consent = (fst (ConsumeConsent R h db ch), Inr d)"
      by (simp add: ConsumeConsent_def prod_eq_iff)
    then show False by (rule getDelJSON_Inr) (simp add: assms)
  qed
qed

end

text \<open>
  C8. A consent challenge is decided at most once and only by the user it was made for. A
  successful consumption returns the stored consent of that user and removes it, and no later
  operation consumes it again unless the challenge is saved anew; an attempt by another user
  fails and leaves the challenge in place.
\<close>

theorem consent_single_use:
  assumes "redis_server R" and "typed R db"
    and "ConsumeConsentForUser R h db ch u = (db1, Inr d)"
    and "\<forall>op \<in> set ops. \<not> saves_consent h ch op"
  shows "GET R db (secretKey h consentPrefix ch) = Some (VConsent d) \<and> cd_UserID d = u \<and>
    snd (ConsumeConsentForUser R h (run R h ops db1) ch u') \<noteq> Inr d' \<and>
    snd (ConsumeConsent R h (run R h ops db1) ch) \<noteq> Inr d' \<and>
    (v \<noteq> u \<longrightarrow> snd (ConsumeConsentForUser R h db ch v) \<noteq> Inr d' \<and>
      fst (ConsumeConsentForUser R h db ch v) = snd (LINK R db))"
proof -
  note o = redis_server.consent_outcome [OF assms(1,3)]
  have t1: "typed R db1"
    using redis_server.evolves_codes(7) [OF assms(1), of h ch db u] assms(2,3) by (simp add: evolves_def)
  note a = redis_server.consent_stays_consumed [OF assms(1) t1 o(3) assms(4)]
  show ?thesis
  proof (intro conjI impI)
    show "snd (ConsumeConsentForUser R h (run R h ops db1) ch u') \<noteq> Inr d'"
      "snd (ConsumeConsent R h (run R h ops db1) ch) \<noteq> Inr d'"
      by (rule redis_server.absent_consent_not_consumed [OF assms(1) a])+
    assume "v \<noteq> u"
    then have "cd_UserID d \<noteq> v" using o(2) by simp
    then show "snd (ConsumeConsentForUser R h db ch v) \<noteq> Inr d'"
      "fst (ConsumeConsentForUser R h db ch v) = snd (LINK R db)"
      by (rule redis_server.consent_other_user [OF assms(1) o(1)])+
  qed (rule o)+
qed

definition sample_consent :: consent_data where
  "sample_consent = \<lparr>cd_Flow = ''code'', cd_ClientID = ''c'', cd_UserID = ''u'', cd_RedirectURI = ''r'', cd_Scopes = [],
     cd_OptionalScopes = [], cd_ScopeClaims = None, cd_ScopeDetails = [], cd_State = [], cd_CodeChallenge = [],
     cd_ChallengeMethod = [], cd_Nonce = [], cd_AuthVersion = 1, cd_ClientIdentityRevision = 0,
     cd_ClientAuthorizationRevision = 0, cd_RequiredAuthContext = [], cd_MaxAgeSeconds = None,
     cd_MaxAgeSatisfied = False, cd_DeviceID = [], cd_DeviceRecordVersion = []\<rparr>"

theorem consent_single_use_witness:
  "(let db = run mem_redis plain [Code_op (Save_consent ''ch'' sample_consent Second)] mem_empty;
        r = ConsumeConsentForUser mem_redis plain db ''ch'' ''u''
    in snd r = Inr sample_consent \<and>
       snd (ConsumeConsentForUser mem_redis plain (run mem_redis plain [Read] (fst r)) ''ch'' ''u'') \<noteq> Inr sample_consent \<and>
       snd (ConsumeConsentForUser mem_redis plain db ''ch'' ''w'') \<noteq> Inr sample_consent)"
proof -
  let ?db = "run mem_redis plain [Code_op (Save_consent ''ch'' sample_consent Second)] mem_empty"
  let ?r = "ConsumeConsentForUser mem_redis plain ?db ''ch'' ''u''"
  have s: "snd ?r = Inr sample_consent" by code_simp
  have o: "\<forall>op \<in> set [Read]. \<not> saves_consent plain ''ch'' op" by (simp add: saves_consent_def)
  have ne: "''w'' \<noteq> ''u''" by simp
  note c = consent_single_use [OF mem_server mem.run_typed [OF typed_mem_empty] result_pair [OF s] o,
      where u' = "''u''" and d' = sample_consent and v = "''w''"]
  show ?thesis using s ne c unfolding Let_def by (intro conjI) (rule s, blast+)
qed





text \<open>
  C18. Every sequence of operations keeps the keyspace well typed: every key of the stores holds
  a record of the kind its prefix announces, the family and session sets hold only keys of the
  right kind, and no key is without a value while it has a time to live.
\<close>

theorem keyspace_stays_typed:
  assumes "redis_server R" and "typed R db"
  shows "typed R (run R h ops db)"
  using redis_server.run_typed [OF assms] .

theorem keyspace_stays_typed_witness:
  "typed mem_redis (run mem_redis plain [Code_op (Save_code ''abc'' sample_code Minute (Some ''v1'')),
     Code_op (Consume_code_if_match ''abc'' sample_code Minute), Session_op Count_sessions] mem_empty)"
  using keyspace_stays_typed [OF mem_server typed_mem_empty] .

end
