(* ===== verification/Token_Properties.thy ===== *)
theory Token_Properties
  imports Sample_Runs
begin

text \<open>
  The properties of access and refresh tokens: rotation, reuse detection and revocation of token
  families, along every sequence of operations on the stores.
\<close>

context redis_server
begin

section \<open>What a successful rotation does\<close>

lemma rotation_success:
  assumes t: "typed R db" and ne: "h new \<noteq> h old"
    and rot: "RotateRefreshTokenAndStoreAccess R h db old new tid data access rt at = (db', Inr r)"
  shows "r = json_token data"
    and "GET R (snd (LINK R db)) (secretKey h refreshPrefix old) = Some (VToken (json_token data))"
    and "\<not> EXISTS R (snd (LINK R db)) (revoked_marker (td_FamilyKey data))"
    and "GET R db' (secretKey h refreshPrefix old) = None"
    and "GET R db' (secretKey h refreshUsedPrefix old) = Some (VToken (json_token data))"
    and "GET R db' (secretKey h refreshPrefix new) = Some (VToken (json_token data))"
    and "GET R db' (secretKey h tokenPrefix tid) = Some (VToken (json_token
      (access\<lparr>td_TokenUse := ''access'', td_FamilyKey := td_FamilyKey data\<rparr>)))"
    and "{secretKey h refreshPrefix new, secretKey h tokenPrefix tid} \<subseteq>
      members R db' (family_set (td_FamilyKey data))"
proof -
  let ?d = "snd (LINK R db)" and ?k1 = "secretKey h refreshPrefix old" and ?k2 = "secretKey h refreshPrefix new"
    and ?k3 = "secretKey h refreshUsedPrefix old" and ?k4 = "secretKey h tokenPrefix tid"
    and ?fk = "td_FamilyKey data" and ?fs = "family_set (td_FamilyKey data)"
    and ?uf = "userRefreshFamiliesPrefix @ h (td_UserID data)" and ?v = "VToken (json_token data)"
    and ?a = "VToken (json_token (access\<lparr>td_TokenUse := ''access'', td_FamilyKey := td_FamilyKey data\<rparr>))"
  let ?m = "rt div Millisecond" and ?n = "at div Millisecond"
  have fk: "?fk \<noteq> []" and ms: "ttlMilliseconds rt = Inr ?m" "ttlMilliseconds at = Inr ?n"
    using rot by (auto simp: RotateRefreshTokenAndStoreAccess_def ttlMilliseconds_def split: if_splits)
  note pos = ttlMilliseconds_pos(1) [OF ms(1)] ttlMilliseconds_pos(1) [OF ms(2)]
  have keys: "refreshPrefix @ h old = ?k1" "refreshUsedPrefix @ h old = ?k3" by (simp_all add: secretKey_def)
  have script: "on_result decodeRefreshRotationResult (call R ErrRedis db
      (rotateRefreshWithAccessScript R ?k1 ?k2 ?k3 ?k4 ?uf ?m ?n ?v ?a)) = (db', Inr r)"
    using rot ms by (auto simp: RotateRefreshTokenAndStoreAccess_def keys split: if_splits)
  then obtain p where p: "rotateRefreshWithAccessScript R ?k1 ?k2 ?k3 ?k4 ?uf ?m ?n ?v ?a ?d = (db', Inr p)"
      and r: "decodeRefreshRotationResult p = Inr r"
    by (auto simp: on_result_Inr dest!: call_Inr)
  let ?base = "SADD R (SADD R (SET R (SET R ?d ?k2 ?v ?m) ?k4 ?a ?n) ?fs ?k2) ?fs ?k4"
  have g: "GET R ?d ?k1 = Some ?v" and m: "\<not> EXISTS R ?d (revoked_marker ?fk)" and pv: "p = (1, Some ?v)"
      and db': "db' = rotation_tail R ?k1 ?k3 ?uf ?fk ?m (max ?m ?n) ?v ?base"
    using p r fk
    by (auto simp: rotateRefreshWithAccessScript_def revokeFamily_def decodeRefreshRotationResult_def Let_def
        rotation_tail_def lua_text_def split: option.splits if_splits)
  then show "r = json_token data" "GET R ?d ?k1 = Some ?v" "\<not> EXISTS R ?d (revoked_marker ?fk)"
    using r by (simp_all add: decodeRefreshRotationResult_def decoded_payload_def)
  have td: "typed R ?d" using evolves_LINK [of "{}" db] t by (simp add: evolves_def)
  have w: "writes R UNIV ?d (SET R (SET R ?d ?k2 ?v ?m) ?k4 ?a ?n)"
    by (intro writes_chain) (use pos in \<open>simp_all add: value_ok_cases\<close>)
  have t1: "typed R (SET R (SET R ?d ?k2 ?v ?m) ?k4 ?a ?n)" using w td by (simp add: writes_def)
  have t2: "typed R (SADD R (SET R (SET R ?d ?k2 ?v ?m) ?k4 ?a ?n) ?fs ?k2)"
    using writes_SADD [of ?fs UNIV ?k2] t1 by (simp add: writes_def member_ok_def)
  have t3: "typed R ?base" using writes_SADD [of ?fs UNIV ?k4] t2 by (simp add: writes_def member_ok_def)
  let ?p = "PEXPIRE R (SREM R ?base ?fs ?k1) ?fs (max ?m ?n)"
  have t4: "typed R ?p"
    using writes_trans [OF writes_SREM [of ?fs UNIV ?base ?k1] writes_PEXPIRE [of "max ?m ?n" ?fs UNIV]] t3 pos
    by (simp add: writes_def)
  note obs = typed_SADD [OF t1] typed_SADD [OF t2] typed_SADD [OF t4]
  have ne': "?k2 \<noteq> ?k1" using ne by (simp add: secretKey_def)
  show "GET R db' ?k1 = None" "GET R db' ?k3 = Some ?v" "GET R db' ?k2 = Some ?v" "GET R db' ?k4 = Some ?a"
    "{?k2, ?k4} \<subseteq> members R db' ?fs"
    using pos ne' by (auto simp: db' rotation_tail_def redis_simps obs key_simps)
qed

text \<open>Without a live record there is no rotation.\<close>

lemma rotation_needs_record:
  assumes g: "GET R db (secretKey h refreshPrefix old) = None"
  shows "snd (RotateRefreshToken R h db old new data rt) \<noteq> Inr r"
    and "snd (RotateRefreshTokenAndStoreAccess R h db old new tid data access rt at) \<noteq> Inr r"
proof -
  let ?k = "refreshPrefix @ h old"
  have "GET R (snd (LINK R db)) ?k = None" using LINK_GET [of db ?k] g by (auto simp: secretKey_def)
  then have "snd (on_result decodeRefreshRotationResult (call R ErrRedis db
        (rotateRefreshScript R ?k k2 k3 uf m (VToken d)))) \<noteq> Inr r"
      "snd (on_result decodeRefreshRotationResult (call R ErrRedis db
        (rotateRefreshWithAccessScript R ?k k2 k3 k4 uf m n (VToken d) a))) \<noteq> Inr r" for k2 k3 k4 uf m n d a
    by (auto simp: on_result_def call_split rotateRefreshScript_def rotateRefreshWithAccessScript_def revokeFamily_def
        decodeRefreshRotationResult_def Let_def split: prod.splits sum.splits delivery.splits option.splits if_splits)
  then show "snd (RotateRefreshToken R h db old new data rt) \<noteq> Inr r"
    and "snd (RotateRefreshTokenAndStoreAccess R h db old new tid data access rt at) \<noteq> Inr r"
    by (auto simp: RotateRefreshToken_def RotateRefreshTokenAndStoreAccess_def split: sum.splits)
qed

text \<open>Nor is there one of a family marked revoked.\<close>

lemma marked_rotation:
  assumes "EXISTS R (snd (LINK R db)) (revoked_marker (td_FamilyKey data))"
  shows "snd (RotateRefreshToken R h db old new data rt) \<noteq> Inr r"
    and "snd (RotateRefreshTokenAndStoreAccess R h db old new tid data access rt at) \<noteq> Inr r"
proof -
  let ?v = "VToken (json_token data)"
  have "td_FamilyKey data \<noteq> [] \<Longrightarrow> snd (on_result decodeRefreshRotationResult (call R ErrRedis db
        (rotateRefreshScript R k1 k2 k3 uf m ?v))) \<noteq> Inr r"
      "td_FamilyKey data \<noteq> [] \<Longrightarrow> snd (on_result decodeRefreshRotationResult (call R ErrRedis db
        (rotateRefreshWithAccessScript R k1 k2 k3 k4 uf m n ?v a))) \<noteq> Inr r" for k1 k2 k3 k4 uf m n a
    using assms
    by (auto simp: on_result_def call_split rotateRefreshScript_def rotateRefreshWithAccessScript_def revokeFamily_def
        decodeRefreshRotationResult_def Let_def lua_text_def
        split: prod.splits sum.splits delivery.splits option.splits if_splits)
  then show "snd (RotateRefreshToken R h db old new data rt) \<noteq> Inr r"
    and "snd (RotateRefreshTokenAndStoreAccess R h db old new tid data access rt at) \<noteq> Inr r"
    by (auto simp: RotateRefreshToken_def RotateRefreshTokenAndStoreAccess_def split: sum.splits)
qed

section \<open>Revoking the families of a user\<close>

lemma sound_revoke_fold:
  assumes "sound R M {} db" and "0 < ms"
  shows "sound R M {} (fold (\<lambda>f d. SET R (drop_family R d f) (revoked_marker f) (VText ''1'') ms) fs db)"
  by (rule fold_invariant_on [where P = "sound R M {}"])
     (use assms in \<open>simp_all add: sound_other sound_drop_family\<close>)

lemma dead_revoke_fold:
  assumes "sound R M {} db" and "0 < ms" and "fk \<in> set fs" and "fk \<noteq> []"
  shows "dead R fk (fold (\<lambda>f d. SET R (drop_family R d f) (revoked_marker f) (VText ''1'') ms) fs db)"
proof -
  let ?f = "\<lambda>f d. SET R (drop_family R d f) (revoked_marker f) (VText ''1'') ms"
  obtain xs ys where fs: "fs = xs @ fk # ys" using split_list [OF assms(3)] by blast
  have "dead R fk (?f fk (fold ?f xs db))"
    by (rule sound_marked_dead [OF sound_revoke_fold [OF assms(1,2)] assms(4,2)])
  then have "dead R fk (fold ?f ys (?f fk (fold ?f xs db)))"
    by (rule fold_invariant_on [where P = "dead R fk"])
       (simp add: family_ban.without_marked family_ban.without_drop_family assms(2))
  then show ?thesis by (simp add: fs)
qed

lemma user_revocation:
  assumes s: "sound R M {} db" and r: "RevokeRefreshFamiliesForUser R h db u ttl = (db', Inr n)"
    and f: "fk \<in> members R (snd (LINK R db)) (userRefreshFamiliesPrefix @ h u)" "fk \<noteq> []"
  shows "dead R fk db'"
    and "n = int (card (members R (snd (LINK R db)) (userRefreshFamiliesPrefix @ h u)))"
proof -
  let ?d = "snd (LINK R db)" and ?k = "userRefreshFamiliesPrefix @ h u" and ?ms = "ttl div Millisecond"
  have ms: "ttlMilliseconds ttl = Inr ?ms"
    using r by (auto simp: RevokeRefreshFamiliesForUser_def ttlMilliseconds_def split: if_splits)
  have run: "revokeUserRefreshFamiliesScript R ?k ?ms ?d = (db', Inr n)"
    using r ms by (auto simp: RevokeRefreshFamiliesForUser_def split: if_splits dest!: call_Inr)
  have sd: "sound R M {} ?d" using sound_evolves [OF evolves_LINK [where K = "{}"] _ s] by simp
  have "dead R fk (DEL R (fold (\<lambda>f d. SET R (drop_family R d f) (revoked_marker f) (VText ''1'') ?ms)
      (SMEMBERS R ?d ?k) ?d) ?k)"
    using dead_revoke_fold [OF sd ttlMilliseconds_pos(1) [OF ms], of fk "SMEMBERS R ?d ?k"] f
    by (intro family_ban.without_commands(1)) simp
  then show "dead R fk db'"
    and "n = int (card (members R (snd (LINK R db)) ?k))"
    using run distinct_card [OF distinct_SMEMBERS [of ?d ?k]]
    by (auto simp: revokeUserRefreshFamiliesScript_def Let_def)
qed

end

section \<open>Properties\<close>

definition sample_refresh :: token_data where
  "sample_refresh = \<lparr>td_ClientID = ''c'', td_UserID = ''u'', td_Scopes = [''openid''], td_AllowedClaims = None,
     td_ClaimNamesSet = False, td_TokenUse = ''refresh'', td_AuthVersion = 1, td_AuthenticationContext = [],
     td_AuthenticationMethods = [], td_AuthenticationTime = 0, td_FamilyID = ''f'', td_FamilyKey = ''f'',
     td_UserKey = ''u'', td_AuthorizationIssuedAt = 0, td_ClientAuthorizationRevision = 0\<rparr>"

definition sample_access :: token_data where
  "sample_access = sample_refresh\<lparr>td_TokenUse := ''access'', td_FamilyID := [], td_FamilyKey := [], td_UserKey := []\<rparr>"

definition issue_and_rotate :: "store_op list" where
  "issue_and_rotate =
     [Token_op (Save_refresh ''r1'' sample_refresh Hour None),
      Token_op (Rotate_refresh_with_access ''r1'' ''r2'' ''a2'' sample_refresh sample_access Hour Minute)]"




text \<open>
  C4. A successful rotation replaces the refresh token atomically: the old record was live and
  exactly the expected one and its family was not revoked; afterwards the old record is gone and
  kept only as used, the new refresh token and the access token carry the same grant, and both
  are members of the family. From then on the old token never rotates again, along any sequence
  of operations that does not store a record under it.
\<close>

theorem refresh_rotates_once:
  assumes "redis_server R" and "typed R db" and "h new \<noteq> h old"
    and "RotateRefreshTokenAndStoreAccess R h db old new tid data access rt at = (db1, Inr r)"
    and "\<And>t. Token_op t \<in> set ops \<Longrightarrow> \<not> stores_key h (secretKey h refreshPrefix old) t"
  shows "r = json_token data \<and>
    GET R (snd (LINK R db)) (secretKey h refreshPrefix old) = Some (VToken r) \<and>
    \<not> EXISTS R (snd (LINK R db)) (revoked_marker (td_FamilyKey data)) \<and>
    GET R db1 (secretKey h refreshPrefix old) = None \<and>
    GET R db1 (secretKey h refreshUsedPrefix old) = Some (VToken r) \<and>
    GET R db1 (secretKey h refreshPrefix new) = Some (VToken r) \<and>
    GET R db1 (secretKey h tokenPrefix tid) = Some (VToken (json_token
      (access\<lparr>td_TokenUse := ''access'', td_FamilyKey := td_FamilyKey data\<rparr>))) \<and>
    {secretKey h refreshPrefix new, secretKey h tokenPrefix tid} \<subseteq>
      members R db1 (family_set (td_FamilyKey data)) \<and>
    snd (RotateRefreshTokenAndStoreAccess R h (run R h ops db1) old new' tid' data' access' rt' at') \<noteq> Inr r' \<and>
    snd (RotateRefreshToken R h (run R h ops db1) old new' data' rt') \<noteq> Inr r'"
proof -
  note e = redis_server.rotation_success [OF assms(1-4)]
  have t1: "typed R db1"
    using redis_server.evolves_refresh(6) [OF assms(1), of db h old new tid data access rt at] assms(2,4)
    by (simp add: evolves_def)
  have "GET R (run R h ops db1) (secretKey h refreshPrefix old) = None"
    using redis_server.run_token_absent [OF assms(1) t1 e(4) _ assms(5)] by (simp add: key_simps)
  from redis_server.rotation_needs_record [OF assms(1) this] e show ?thesis by simp
qed

theorem refresh_rotates_once_witness:
  "snd (RotateRefreshTokenAndStoreAccess mem_redis plain
     (run mem_redis plain [Token_op (Rotate_refresh ''r2'' ''r3'' sample_refresh Hour)]
        (run mem_redis plain issue_and_rotate mem_empty))
     ''r1'' ''r4'' ''a4'' sample_refresh sample_access Hour Minute) \<noteq> Inr sample_refresh"
proof -
  let ?s = "run mem_redis plain [Token_op (Save_refresh ''r1'' sample_refresh Hour None)] mem_empty"
  let ?r = "RotateRefreshTokenAndStoreAccess mem_redis plain ?s ''r1'' ''r2'' ''a2''
      sample_refresh sample_access Hour Minute"
  have r: "?r = (fst ?r, Inr sample_refresh)" by (rule result_pair) code_simp
  have o: "\<And>t. Token_op t \<in> set [Token_op (Rotate_refresh ''r2'' ''r3'' sample_refresh Hour)] \<Longrightarrow>
      \<not> stores_key plain (secretKey plain refreshPrefix ''r1'') t"
    by (simp add: secretKey_def plain_def)
  have ne: "plain ''r2'' \<noteq> plain ''r1''" by (simp add: plain_def)
  have s: "run mem_redis plain issue_and_rotate mem_empty = fst ?r" by (simp add: issue_and_rotate_def)
  show ?thesis
    using refresh_rotates_once [OF mem_server mem.run_typed [OF typed_mem_empty] ne r o] unfolding s by blast
qed

text \<open>
  C5. A revoked family takes no further token. While its revocation marker is there, storing an
  access token for the family is refused without storing anything, and no rotation of a token of
  the family succeeds.
\<close>

theorem revoked_family_refuses_tokens:
  assumes "redis_server R" and "EXISTS R (snd (LINK R db)) (revoked_marker fk)"
  shows "fst (SaveTokenForRefreshFamily R h db tid data fk ttl) \<in> {db, snd (LINK R db)} \<and>
    snd (SaveTokenForRefreshFamily R h db tid data fk ttl) \<noteq> Inr () \<and>
    (td_FamilyKey old = fk \<longrightarrow>
      snd (RotateRefreshTokenAndStoreAccess R h db t t' tid' old access rt at) \<noteq> Inr r \<and>
      snd (RotateRefreshToken R h db t t' old rt) \<noteq> Inr r)"
proof -
  have "fst (SaveTokenForRefreshFamily R h db tid data fk ttl) \<in> {db, snd (LINK R db)}"
    and "snd (SaveTokenForRefreshFamily R h db tid data fk ttl) \<noteq> Inr ()"
    using assms(2) by (auto simp: SaveTokenForRefreshFamily_def call_split saveFamilyTokenScript_def on_result_def
        split: sum.splits prod.splits delivery.splits if_splits)
  moreover have "snd (RotateRefreshTokenAndStoreAccess R h db t t' tid' old access rt at) \<noteq> Inr r"
      "snd (RotateRefreshToken R h db t t' old rt) \<noteq> Inr r" if "td_FamilyKey old = fk"
    using redis_server.marked_rotation [OF assms(1) assms(2) [folded that]] by blast+
  ultimately show ?thesis by blast
qed

theorem revoked_family_refuses_tokens_witness:
  "snd (SaveTokenForRefreshFamily mem_redis plain
     (run mem_redis plain [Token_op (Revoke_family ''f'' Hour)] mem_empty) ''a'' sample_access ''f'' Minute) \<noteq> Inr ()"
proof -
  have "EXISTS mem_redis (snd (LINK mem_redis (run mem_redis plain [Token_op (Revoke_family ''f'' Hour)] mem_empty)))
      (revoked_marker ''f'')"
    by code_simp
  from revoked_family_refuses_tokens [OF mem_server this] show ?thesis by blast
qed







end
