(* ===== verification/Session_Properties.thy ===== *)
theory Session_Properties
  imports Sample_Runs
begin

text \<open>
  The properties of the authorization clock and of browser sessions.
\<close>

section \<open>The authorization clock\<close>

context redis_server
begin

lemma revocation_reading:
  assumes t: "typed R db" and r: "RevokeUserClientAuthorization R h db u c ttl = (db1, Inr n)"
    and un: "unexpired R h (authorizationRevocationKey h u c) ops db1"
    and g: "GET R (run R h ops db1) (authorizationRevocationKey h u c) = Some v"
  shows "\<exists>m \<ge> n. v = VNum m"
proof -
  have t1: "typed R db1" using evolves_clock(2) [of h u c db ttl] t r by (simp add: evolves_def)
  show ?thesis
    using run_reading [OF t1 _ RevokeUserClientAuthorization_Inr(2) [OF r] un g] by blast
qed

lemma issue_after_revocation:
  assumes g: "GET R (snd (LINK R db)) (authorizationRevocationKey h u c) = Some (VNum m)"
    and i: "AuthorizationIssueTime R h db u c ttl = (db1, Inr n)"
    and c: "IsUserClientAuthorizationRevoked R h db1 u c n = (db2, Inr b)"
  shows "m < n" and "\<not> b"
proof -
  let ?k = "authorizationRevocationKey h u c"
  note ir = AuthorizationIssueTime_Inr [OF i]
  show lt: "m < n" using next_micros_Some(3) [OF ir(3) g] .
  have "GET R db1 ?k = Some (VNum m)" using ir(4) g by simp
  then have "GET R db2 ?k = Some (VNum m) \<or> GET R db2 ?k = None"
    using LINK_GET [of db1 ?k] IsUserClientAuthorizationRevoked_Inr(1) [OF c] by auto
  then show "\<not> b" using IsUserClientAuthorizationRevoked_Inr(2) [OF c] lt by auto
qed

end



section \<open>Browser sessions\<close>

text \<open>
  The sessions of a user that are live once the session under \<open>k\<close> is stored, and the order in
  which they are evicted: by creation time, then by key.
\<close>

definition live_sessions :: "'db redis \<Rightarrow> 'db \<Rightarrow> string \<Rightarrow> string \<Rightarrow> string set" where
  "live_sessions R db us k = {m \<in> insert k (members R db us). m = k \<or> GET R db m \<noteq> None}"

definition session_age :: "'db redis \<Rightarrow> 'db \<Rightarrow> string \<Rightarrow> session_data \<Rightarrow> string \<Rightarrow> int \<times> string" where
  "session_age R db k d m = (if m = k then sd_CreatedAtUnixMilli d else lua_created (the (GET R db m)), m)"

context redis_server
begin

lemma typed_LINK: "typed R db \<Longrightarrow> typed R (snd (LINK R db))"
  using evolves_LINK [of "{}" db] by (simp add: evolves_def)

lemma session_limit:
  assumes t: "typed R db" and limit: "0 < limit"
    and run: "SaveSessionWithLimit R h db sid data ttl limit r1 r2 now = (db', Inr (d, n))"
  defines "us \<equiv> userSessionsPrefix @ h (sd_UserID data)" and "k \<equiv> secretKey h sessionPrefix sid"
    and "db0 \<equiv> snd (LINK R db)"
  shows "\<exists>old. old \<subseteq> live_sessions R db0 us k \<and> members R db' us = live_sessions R db0 us k - old \<and>
      int (card old) = n \<and> n = max 0 (int (card (live_sessions R db0 us k)) - limit) \<and>
      (\<forall>x \<in> old. \<forall>y \<in> live_sessions R db0 us k - old. session_age R db0 k d x < session_age R db0 k d y) \<and>
      (\<forall>j. GET R db' j = (if j \<in> old then None else if j = k then Some (VSession d) else GET R db0 j))"
proof -
  obtain ms where rec: "session_record h data r1 r2 now = Inr d" and ms: "ttlMilliseconds ttl = Inr ms"
      and c: "call R ErrRedis db (saveSessionScript R k (userSessionsPrefix @ sd_UserKey d) allSessionsKey
        (VSession d) ms limit) = (db', Inr n)"
    using run by (auto simp: SaveSessionWithLimit_def on_result_Inr k_def split: if_splits sum.splits)
  have us: "userSessionsPrefix @ sd_UserKey d = us"
    using rec by (auto simp: session_record_def us_def Let_def split: if_splits)
  have "saveSessionScript R k us allSessionsKey (VSession d) ms limit db0 = (db', Inr n)"
    using call_Inr [OF c] by (simp add: us db0_def)
  moreover have "key_class k = ''session''" "key_class us = ''user-sessions''" "key_class allSessionsKey = ''sessions''"
    by (simp_all add: k_def us_def key_simps)
  ultimately show ?thesis
    using saveSession_evicts [OF typed_LINK [OF t] ttlMilliseconds_pos(1) [OF ms] limit, of k us allSessionsKey d db' n]
    unfolding live_sessions_def session_age_def db0_def by blast
qed

lemma security_version_cleanup:
  assumes t: "typed R db" and hu: "h u \<noteq> []"
    and run: "DeleteUserSessionsBeforeSecurityVersion R h db u a v = (db', Inr n)"
  defines "us \<equiv> userSessionsPrefix @ h u" and "db0 \<equiv> snd (LINK R db)"
  shows "GET R db' j = (case GET R db0 j of
      Some (VSession s) \<Rightarrow>
        (if j \<in> members R db0 us \<and> (sd_UserKey s \<noteq> h u \<or> sd_AuthVersion s < a \<or> sd_SessionVersion s < v)
         then None else Some (VSession s))
    | r \<Rightarrow> r)"
proof -
  let ?P = "outdated_session a v (h u)"
  have t0: "typed R db0" using typed_LINK [OF t] by (simp add: db0_def)
  have cls: "key_class us = ''user-sessions''" "key_class allSessionsKey = ''sessions''"
    by (simp_all add: us_def key_simps)
  have mc: "key_class m = ''session''" if "m \<in> members R db0 us" for m
    using user_set_classes [OF t0 cls(1)] that by blast
  have db': "db' = del_if_empty R (sweep R us allSessionsKey ?P (SMEMBERS R db0 us) db0) us"
    using run by (auto simp: DeleteUserSessionsBeforeSecurityVersion_def Let_def us_def db0_def
        deleteSessionsBeforeSecurityVersionScript_def case_prod_unfold fst_outdated_fold [where st = "(x, 0)" for x, simplified]
        split: if_splits dest!: call_Inr)
  have ns: "us \<notin> members R db0 us" "allSessionsKey \<notin> members R db0 us" using mc cls by fastforce+
  have gus: "GET R db0 us = None" using typed_no_string [OF t0] cls by simp
  have sw: "GET R db' j = (if j \<in> members R db0 us \<and> (\<exists>x. GET R db0 j = Some x \<and> ?P x) then None else GET R db0 j)"
    using sweep_GET [OF ns, of ?P db0 j] gus by (auto simp: db' del_if_empty_obs)
  have P: "?P (VSession s) \<longleftrightarrow> sd_UserKey s \<noteq> h u \<or> sd_AuthVersion s < a \<or> sd_SessionVersion s < v" for s
    using hu by (auto simp: outdated_session_def)
  have val: "\<exists>s. x = VSession s" if "j \<in> members R db0 us" "GET R db0 j = Some x" for x
    using typed_GET [OF t0 that(2)] mc [OF that(1)] by (auto simp: value_ok_cases)
  show ?thesis using sw P val by (auto split: option.splits rvalue.splits)
qed

lemma update_session_outcome:
  assumes t: "typed R db" and run: "UpdateSession R h db sid data a v ttl = (db', r)"
  defines "k \<equiv> secretKey h sessionPrefix sid" and "db0 \<equiv> snd (LINK R db)"
  shows "r = Inr () \<Longrightarrow> \<exists>s. GET R db0 k = Some (VSession s) \<and> sd_UserKey s = h (sd_UserID data) \<and>
      sd_AuthVersion s = a \<and> sd_SessionVersion s = v \<and>
      GET R db' k = Some (VSession (data\<lparr>sd_UserKey := h (sd_UserID data)\<rparr>)) \<and> (\<forall>j. j \<noteq> k \<longrightarrow> GET R db' j = GET R db0 j)"
    and "GET R db k = None \<Longrightarrow> r \<noteq> Inr () \<and> GET R db' k = None"
proof -
  let ?us = "userSessionsPrefix @ h (sd_UserID data)" and ?d = "data\<lparr>sd_UserKey := h (sd_UserID data)\<rparr>"
  have t0: "typed R db0" using typed_LINK [OF t] by (simp add: db0_def)
  have cls: "key_class k = ''session''" "key_class ?us = ''user-sessions''" "key_class allSessionsKey = ''sessions''"
    by (simp_all add: k_def key_simps)
  show "\<exists>s. GET R db0 k = Some (VSession s) \<and> sd_UserKey s = h (sd_UserID data) \<and>
      sd_AuthVersion s = a \<and> sd_SessionVersion s = v \<and>
      GET R db' k = Some (VSession ?d) \<and> (\<forall>j. j \<noteq> k \<longrightarrow> GET R db' j = GET R db0 j)" if ok: "r = Inr ()"
  proof -
    obtain ms where ms: "ttlMilliseconds ttl = Inr ms" and c: "updateSessionScript R k ?us allSessionsKey (VSession ?d) ms
        (h (sd_UserID data)) a v db0 = (db', Inr 1)"
      using run ok by (auto simp: UpdateSession_def Let_def on_result_Inr k_def db0_def
          split: if_splits sum.splits dest!: call_Inr)
    then obtain x where x: "GET R db0 k = Some x" "lua_user_key x = Some (h (sd_UserID data))"
        "lua_auth_version x = Some a" "lua_session_version x = Some v"
        and db': "db' = ZADD R (raise_ttl R (SADD R (SET R db0 k (VSession ?d) ms) ?us k) ?us ms) allSessionsKey
          (redis_millis R (raise_ttl R (SADD R (SET R db0 k (VSession ?d) ms) ?us k) ?us ms) + ms) k"
      by (auto simp: updateSessionScript_def Let_def split: option.splits if_splits)
    obtain s where s: "x = VSession s" using typed_GET [OF t0 x(1)] cls(1) by (auto simp: value_ok_cases)
    show ?thesis
      using x s store_session_obs(1) [OF t0 ttlMilliseconds_pos(1) [OF ms] cls] by (auto simp: db')
  qed
  show "r \<noteq> Inr () \<and> GET R db' k = None" if g: "GET R db k = None"
  proof -
    have g0: "GET R db0 k = None" using LINK_GET [of db k] g by (auto simp: db0_def)
    then have s: "updateSessionScript R k ?us allSessionsKey e ms uk a' v' db0 = (db0, Inr 0)" for e ms uk a' v'
      by (simp add: updateSessionScript_def)
    show ?thesis
      using run g g0 s
      by (auto simp: UpdateSession_def Let_def on_result_def call_split k_def [symmetric] db0_def
          split: if_splits sum.splits prod.splits delivery.splits)
  qed
qed

end

text \<open>
  C11. Saving a session under a positive limit leaves the user with at most that many live
  sessions: exactly the surplus is evicted, oldest first, its records are deleted, and no other
  record changes but that of the new session.
\<close>

theorem session_limit_evicts_oldest:
  assumes "redis_server R" and "typed R db" and "0 < limit"
    and "SaveSessionWithLimit R h db sid data ttl limit r1 r2 now = (db', Inr (d, n))"
    and "us = userSessionsPrefix @ h (sd_UserID data)" and "k = secretKey h sessionPrefix sid"
    and "db0 = snd (LINK R db)" and "live = live_sessions R db0 us k"
  shows "int (card (members R db' us)) \<le> limit \<and>
    (\<exists>old. old \<subseteq> live \<and> members R db' us = live - old \<and>
      int (card old) = n \<and> n = max 0 (int (card live) - limit) \<and>
      (\<forall>x \<in> old. \<forall>y \<in> live - old. session_age R db0 k d x < session_age R db0 k d y) \<and>
      (\<forall>j. GET R db' j = (if j \<in> old then None else if j = k then Some (VSession d) else GET R db0 j)))"
proof -
  obtain old where old: "old \<subseteq> live" "members R db' us = live - old" "int (card old) = n"
      "n = max 0 (int (card live) - limit)"
      "\<forall>x \<in> old. \<forall>y \<in> live - old. session_age R db0 k d x < session_age R db0 k d y"
      "\<forall>j. GET R db' j = (if j \<in> old then None else if j = k then Some (VSession d) else GET R db0 j)"
    using redis_server.session_limit [OF assms(1-4)] unfolding assms(5-8) by blast
  have "finite live" unfolding assms(8) live_sessions_def by simp
  then have "card (live - old) = card live - card old" "card old \<le> card live"
    using old(1) by (auto intro: card_Diff_subset finite_subset card_mono)
  then have "int (card (members R db' us)) \<le> limit" using old(2-4) by (simp add: of_nat_diff)
  with old show ?thesis by blast
qed

definition sample_session :: "int \<Rightarrow> session_data" where
  "sample_session created = \<lparr>sd_PublicID = ''p'', sd_UserID = ''u'', sd_Username = ''n'', sd_AuthVersion = created,
     sd_SessionVersion = 1, sd_CSRFToken = ''t'', sd_UserKey = ''u'', sd_IPAddress = [], sd_UserAgent = [],
     sd_CreatedAt = created, sd_CreatedAtUnixMilli = created, sd_LastSeenAt = created, sd_AuthenticatedAt = created,
     sd_AuthenticationContext = [], sd_AuthenticationMethods = [], sd_PolicyRevision = 0\<rparr>"

definition one_session :: mem_db where
  "one_session = run mem_redis plain [Session_op (Save_session ''s1'' (sample_session 1) Second 5 None None 0)] mem_empty"

lemma typed_one_session: "typed mem_redis one_session"
  unfolding one_session_def by (rule mem.run_typed [OF typed_mem_empty])

theorem session_limit_evicts_oldest_witness:
  "snd (SaveSessionWithLimit mem_redis plain one_session ''s2'' (sample_session 2) Second 1 None None 0) =
     Inr (sample_session 2, 1) \<and>
   int (card (members mem_redis
     (fst (SaveSessionWithLimit mem_redis plain one_session ''s2'' (sample_session 2) Second 1 None None 0))
     (userSessionsPrefix @ plain (sd_UserID (sample_session 2))))) \<le> 1"
proof -
  let ?r = "SaveSessionWithLimit mem_redis plain one_session ''s2'' (sample_session 2) Second 1 None None 0"
  have s: "snd ?r = Inr (sample_session 2, 1)" by code_simp
  show ?thesis
    using s session_limit_evicts_oldest
      [OF mem_server typed_one_session zero_less_one result_pair [OF s] refl refl refl refl] by blast
qed

text \<open>
  C12. The cleanup after a security change keeps exactly the current sessions: of the sessions
  in the user's set, those that belong to the user and carry at least the minimum authentication
  and session versions keep their records, the others are deleted, and no other record changes.
\<close>

theorem security_cleanup_keeps_current:
  assumes "redis_server R" and "typed R db" and "h u \<noteq> []"
    and "DeleteUserSessionsBeforeSecurityVersion R h db u a v = (db', Inr n)"
  shows "GET R db' j = (case GET R (snd (LINK R db)) j of
      Some (VSession s) \<Rightarrow>
        (if j \<in> members R (snd (LINK R db)) (userSessionsPrefix @ h u) \<and>
            (sd_UserKey s \<noteq> h u \<or> sd_AuthVersion s < a \<or> sd_SessionVersion s < v)
         then None else Some (VSession s))
    | r \<Rightarrow> r)"
  using redis_server.security_version_cleanup [OF assms] .

theorem security_cleanup_keeps_current_witness:
  "(let db = fst (DeleteUserSessionsBeforeSecurityVersion mem_redis plain
        (run mem_redis plain [Session_op (Save_session ''s2'' (sample_session 2) Second 5 None None 0)] one_session) ''u'' 2 1)
    in GET mem_redis db (secretKey plain sessionPrefix ''s1'') = None \<and>
       GET mem_redis db (secretKey plain sessionPrefix ''s2'') = Some (VSession (sample_session 2)))"
proof -
  let ?d = "run mem_redis plain [Session_op (Save_session ''s2'' (sample_session 2) Second 5 None None 0)] one_session"
  let ?r = "DeleteUserSessionsBeforeSecurityVersion mem_redis plain ?d ''u'' 2 1"
  let ?k = "\<lambda>i. secretKey plain sessionPrefix i"
  have r: "?r = (fst ?r, Inr 1)" by (rule result_pair) code_simp
  have g: "GET mem_redis (snd (LINK mem_redis ?d)) (?k ''s1'') = Some (VSession (sample_session 1))"
      "GET mem_redis (snd (LINK mem_redis ?d)) (?k ''s2'') = Some (VSession (sample_session 2))"
      "SMEMBERS mem_redis (snd (LINK mem_redis ?d)) (userSessionsPrefix @ plain ''u'') = [?k ''s2'', ?k ''s1'']"
    by code_simp+
  note c = security_cleanup_keeps_current [OF mem_server mem.run_typed [OF typed_one_session] _ r]
  show ?thesis
    using c [of "?k ''s1''"] c [of "?k ''s2''"] unfolding g
    by (simp add: Let_def plain_def sample_session_def)
qed

text \<open>
  C13. Refreshing a session never recreates or upgrades one. If it succeeds, the stored record
  belonged to the same user at the expected versions, and the new data replaces it; a session that
  is gone stays gone, and the refresh reports an error.
\<close>

theorem update_session_never_recreates:
  assumes "redis_server R" and "typed R db" and "UpdateSession R h db sid data a v ttl = (db', r)"
  shows "(r = Inr () \<longrightarrow> (\<exists>s. GET R (snd (LINK R db)) (secretKey h sessionPrefix sid) = Some (VSession s) \<and>
        sd_UserKey s = h (sd_UserID data) \<and> sd_AuthVersion s = a \<and> sd_SessionVersion s = v \<and>
        GET R db' (secretKey h sessionPrefix sid) = Some (VSession (data\<lparr>sd_UserKey := h (sd_UserID data)\<rparr>)) \<and>
        (\<forall>j. j \<noteq> secretKey h sessionPrefix sid \<longrightarrow> GET R db' j = GET R (snd (LINK R db)) j))) \<and>
    (GET R db (secretKey h sessionPrefix sid) = None \<longrightarrow>
      r \<noteq> Inr () \<and> GET R db' (secretKey h sessionPrefix sid) = None)"
  using redis_server.update_session_outcome [OF assms] by blast

theorem update_session_never_recreates_witness:
  "snd (UpdateSession mem_redis plain one_session ''gone'' (sample_session 1) 1 1 Second) \<noteq> Inr () \<and>
   snd (UpdateSession mem_redis plain one_session ''s1'' (sample_session 1) 1 1 Second) = Inr ()"
proof
  let ?r = "UpdateSession mem_redis plain one_session ''gone'' (sample_session 1) 1 1 Second"
  have g: "GET mem_redis one_session (secretKey plain sessionPrefix ''gone'') = None" by code_simp
  have r: "?r = (fst ?r, snd ?r)" by simp
  from update_session_never_recreates [OF mem_server typed_one_session r] g show "snd ?r \<noteq> Inr ()" by blast
  show "snd (UpdateSession mem_redis plain one_session ''s1'' (sample_session 1) 1 1 Second) = Inr ()" by code_simp
qed

end
