(* ===== verification/Device_Properties.thy ===== *)
theory Device_Properties
  imports Sample_Runs
begin

text \<open>
  The life of a device authorization: an abstract state machine on the status of a record, the
  proof that every operation on the stores follows it, and what it gives: one decision, one
  consumption, no poll of an undecided or denied request that returns a grant.
\<close>

section \<open>The state machine\<close>

definition device_status :: "'db redis \<Rightarrow> 'db \<Rightarrow> string \<Rightarrow> string option" where
  "device_status R db i =
     (case GET R db (recordKey i) of Some (VDevice d) \<Rightarrow> Some (dr_Status d) | _ \<Rightarrow> None)"

inductive device_step :: "string option \<Rightarrow> string option \<Rightarrow> bool" where
  removed: "device_step s None"
| created: "device_step None (Some StatusPending)"
| approved: "device_step (Some StatusPending) (Some StatusApproved)"
| denied: "device_step (Some StatusPending) (Some StatusDenied)"

inductive_simps device_step_simps [simp]:
  "device_step s None" "device_step s (Some t)"

text \<open>A step of an operation on one record: it stays, goes, or leaves the pending status.\<close>

definition device_move :: "string option \<Rightarrow> string option \<Rightarrow> bool" where
  "device_move s s' \<longleftrightarrow> s' = s \<or> s' = None \<or>
     s = Some StatusPending \<and> s' \<in> {Some StatusPending, Some StatusApproved, Some StatusDenied}"

lemma device_move_steps: "device_move s s' \<Longrightarrow> device_step\<^sup>*\<^sup>* s s'"
  by (auto simp: device_move_def)

lemma device_move_trans: "device_move s t \<Longrightarrow> device_move t u \<Longrightarrow> device_move s u"
  by (auto simp: device_move_def)

lemma device_move_refl [simp]: "device_move s s"
  by (simp add: device_move_def)

text \<open>Whether a step may allocate the record \<open>i\<close>.\<close>

definition creates_device :: "(string \<Rightarrow> string) \<Rightarrow> string \<Rightarrow> store_op \<Rightarrow> bool" where
  "creates_device h i op =
     (case op of
        Device_op (Create_device input draw) \<Rightarrow> (\<exists>n c. at_DeviceCode (draw n) = Some c \<and> h c = i)
      | _ \<Rightarrow> False)"

context redis_server
begin

lemma device_status_LINK:
  "device_status R (snd (LINK R db)) i = device_status R db i \<or> device_status R (snd (LINK R db)) i = None"
  using LINK_GET [of db "recordKey i"] by (auto simp: device_status_def)

lemma move_call:
  assumes "\<And>d. device_move (device_status R d i) (device_status R (fst (f d)) i)"
  shows "device_move (device_status R db i) (device_status R (fst (call R e db f)) i)"
  using device_status_LINK [of db i] assms [of "snd (LINK R db)"] fst_call [of R e db f]
  by (auto simp: device_move_def)

lemma move_scripts:
  shows "device_move (device_status R d i)
      (device_status R (fst (decideScript R (recordKey j) (userCodeKey u) version v d)) i)"
    and "device_move (device_status R d i) (device_status R (fst (pollScript R (recordKey j) c now slow d)) i)"
    and "device_move (device_status R d i)
      (device_status R (fst (consumeScript R (recordKey j) (userCodeKey u) version d)) i)"
proof -
  note s = device_move_def device_status_def
  show "device_move (device_status R d i)
      (device_status R (fst (decideScript R (recordKey j) (userCodeKey u) version v d)) i)"
    by (auto simp: s decideScript_def Let_def DEL_obs SET_obs del_all_obs split: option.splits rvalue.splits
        if_splits)
  show "device_move (device_status R d i) (device_status R (fst (pollScript R (recordKey j) c now slow d)) i)"
    by (auto simp: s pollScript_def Let_def DEL_obs SET_obs split: option.splits rvalue.splits
        if_splits)
  show "device_move (device_status R d i)
      (device_status R (fst (consumeScript R (recordKey j) (userCodeKey u) version d)) i)"
    by (auto simp: s consumeScript_def Let_def del_all_obs split: option.splits rvalue.splits if_splits)
qed

lemma move_device_ops:
  "device_move (device_status R db i)
     (device_status R (fst (ApproveWithAuthentication R db cur uid av sc cl ia ac am at)) i)"
  "device_move (device_status R db i) (device_status R (fst (Deny R db cur)) i)"
  "device_move (device_status R db i) (device_status R (fst (Poll R h db dc c now)) i)"
  "device_move (device_status R db i) (device_status R (fst (ConsumeApproved R db cur)) i)"
  by (simp_all add: ApproveWithAuthentication_def Deny_def runDecision_def fst_Poll ConsumeApproved_def
      move_call move_scripts)

lemma create_script_status:
  "device_status R (fst (createScript R (recordKey j) (userCodeKey u) (VDevice v) ms x d)) i =
     (if i = j \<and> snd (createScript R (recordKey j) (userCodeKey u) (VDevice v) ms x d) = Inr 1
      then Some (dr_Status v) else device_status R d i)"
  by (auto simp: device_status_def createScript_def SET_obs)

lemma create_script_fresh:
  assumes "snd (createScript R (recordKey j) (userCodeKey u) (VDevice v) ms x d) = Inr 1"
  shows "device_status R d j = None"
  using assms by (auto simp: device_status_def createScript_def EXISTS_obs split: if_splits option.splits)

lemma create_script_steps:
  assumes v: "dr_Status v = StatusPending"
  shows "device_step\<^sup>*\<^sup>* (device_status R d i)
    (device_status R (fst (createScript R (recordKey j) (userCodeKey u) (VDevice v) ms x d)) i)"
  using create_script_status [of j u v ms x d i] create_script_fresh [of j u v ms x d] v
  by (auto split: if_splits)

lemma steps_call:
  assumes "\<And>d. device_step\<^sup>*\<^sup>* (device_status R d i) (device_status R (fst (f d)) i)"
  shows "device_step\<^sup>*\<^sup>* (device_status R db i) (device_status R (fst (call R e db f)) i)"
proof -
  have L: "device_step\<^sup>*\<^sup>* (device_status R db i) (device_status R (snd (LINK R db)) i)"
    using device_status_LINK [of db i] by auto
  show ?thesis
    by (rule fst_callI [of "\<lambda>d. device_step\<^sup>*\<^sup>* (device_status R db i) (device_status R d i)"])
       (rule L, rule rtranclp_trans [OF L assms])
qed

lemma create_loop_steps:
  "device_step\<^sup>*\<^sup>* (device_status R db i)
     (device_status R (fst (create_loop R h input ttl interval draw n left db)) i)"
proof (induction left arbitrary: n db)
  case (Suc left)
  have one: "device_step\<^sup>*\<^sup>* (device_status R db i) (device_status R (fst (call R DevRedis db
      (createScript R (recordKey j) (userCodeKey u) (VDevice (json_device (new_device_record input ve j u ttl interval now)))
        ms x))) i)" for j u ve now ms x
    by (rule steps_call, rule create_script_steps) (simp add: new_device_record_def)
  have more: "device_step\<^sup>*\<^sup>* (device_status R db i) (device_status R (fst (and_then m f)) i)"
    if "device_step\<^sup>*\<^sup>* (device_status R db i) (device_status R (fst m) i)"
      "\<And>d r. device_step\<^sup>*\<^sup>* (device_status R d i) (device_status R (fst (f d r)) i)"
    for m :: "'db \<times> (device_error + int)" and f :: "'db \<Rightarrow> int \<Rightarrow> 'db \<times> created_device device_result"
    using that rtranclp_trans [OF that(1)] by (cases m; cases "snd m") (auto simp: and_then_def)
  show ?case
    by (auto split: option.splits simp: Let_def intro!: more one Suc.IH)
qed simp

lemma exec_device_steps:
  assumes "typed R db"
  shows "device_step\<^sup>*\<^sup>* (device_status R db i) (device_status R (exec R h op db) i)"
proof (cases "recordKey i \<in> written h op")
  case False
  then show ?thesis
    using exec_GET [OF assms, of "recordKey i" h op] by (auto simp: device_status_def)
next
  case True
  then obtain d where "op = Device_op d" by (rule written_device_only) simp
  then show ?thesis
    using True by (cases d) (auto simp: Create_def Let_def create_loop_steps move_device_ops
        intro!: device_move_steps)
qed

section \<open>Without a creation\<close>

lemma create_loop_move:
  assumes "\<And>n c. at_DeviceCode (draw n) = Some c \<Longrightarrow> h c \<noteq> i"
  shows "device_move (device_status R db i)
     (device_status R (fst (create_loop R h input ttl interval draw n left db)) i)"
proof (induction left arbitrary: n db)
  case (Suc left)
  have one: "device_move (device_status R db i) (device_status R (fst (call R DevRedis db
      (createScript R (recordKey j) (userCodeKey u) (VDevice v) ms x))) i)" if "i \<noteq> j" for j u v ms x
    by (rule move_call) (use that in \<open>simp add: create_script_status device_move_def\<close>)
  have more: "device_move (device_status R db i) (device_status R (fst (and_then m f)) i)"
    if "device_move (device_status R db i) (device_status R (fst m) i)"
      "\<And>d r. device_move (device_status R d i) (device_status R (fst (f d r)) i)"
    for m :: "'db \<times> (device_error + int)" and f :: "'db \<Rightarrow> int \<Rightarrow> 'db \<times> created_device device_result"
    using that device_move_trans [OF that(1)] by (cases m; cases "snd m") (auto simp: and_then_def)
  have ne: "i \<noteq> h c" if "at_DeviceCode (draw n) = Some c" for c n using assms [OF that] by simp
  show ?case
    by (auto split: option.splits simp: Let_def intro!: more one Suc.IH ne)
qed (simp add: device_move_def)

lemma exec_device_move:
  assumes "typed R db" and "\<not> creates_device h i op"
  shows "device_move (device_status R db i) (device_status R (exec R h op db) i)"
proof (cases "recordKey i \<in> written h op")
  case False
  then show ?thesis
    using exec_GET [OF assms(1), of "recordKey i" h op] by (auto simp: device_status_def device_move_def)
next
  case True
  then obtain d where d: "op = Device_op d" by (rule written_device_only) simp
  show ?thesis
  proof (cases d)
    case (Create_device input draw)
    then have "\<And>n c. at_DeviceCode (draw n) = Some c \<Longrightarrow> h c \<noteq> i"
      using assms(2) d by (auto simp: creates_device_def)
    from create_loop_move [OF this] Create_device d show ?thesis
      by (simp add: Create_def Let_def device_move_def)
  qed (use True d in \<open>auto simp: move_device_ops\<close>)
qed

text \<open>A record that is gone or denied stays so until its identifier is allocated again.\<close>

lemma run_device_closed:
  assumes "typed R db" and "device_status R db i \<in> {None, Some StatusDenied}"
    and "\<forall>op \<in> set ops. \<not> creates_device h i op"
  shows "device_status R (run R h ops db) i \<in> {None, Some StatusDenied}"
  using assms
proof (induction ops arbitrary: db)
  case (Cons op ops)
  have "device_status R (exec R h op db) i \<in> {None, Some StatusDenied}"
    using exec_device_move [OF Cons.prems(1), of h i op] Cons.prems(2,3) by (auto simp: device_move_def)
  from Cons.IH [OF exec_typed [OF Cons.prems(1)] this] Cons.prems(3) show ?case by simp
qed simp

lemma closed_device_no_grant:
  assumes "device_status R db i \<in> {None, Some StatusDenied}"
  shows "h dc = i \<Longrightarrow> snd (Poll R h db dc c now) \<noteq> Inr g"
    and "dr_DeviceID cur = i \<Longrightarrow> snd (ConsumeApproved R db cur) \<noteq> Inr ()"
    and "dr_DeviceID cur = i \<Longrightarrow> snd (runDecision R db cur dec) \<noteq> Inr ()"
proof -
  show "snd (Poll R h db dc c now) \<noteq> Inr g" if i: "h dc = i"
  proof
    assume "snd (Poll R h db dc c now) = Inr g"
    then have "Poll R h db dc c now = (fst (Poll R h db dc c now), Inr (fst g, snd g))" by (simp add: prod_eq_iff)
    from Poll_Inr(1,2) [OF this] assms i show False by (auto simp: device_status_def)
  qed
  show "snd (ConsumeApproved R db cur) \<noteq> Inr ()" if i: "dr_DeviceID cur = i"
  proof
    assume "snd (ConsumeApproved R db cur) = Inr ()"
    then have "ConsumeApproved R db cur = (fst (ConsumeApproved R db cur), Inr ())" by (simp add: prod_eq_iff)
    from ConsumeApproved_Inr(1) [OF this] assms i show False by (auto simp: device_status_def)
  qed
  show "snd (runDecision R db cur dec) \<noteq> Inr ()" if i: "dr_DeviceID cur = i"
  proof
    assume "snd (runDecision R db cur dec) = Inr ()"
    then have "runDecision R db cur dec = (fst (runDecision R db cur dec), Inr ())" by (simp add: prod_eq_iff)
    then show False by (rule runDecision_Inr) (use assms i in \<open>auto simp: device_status_def\<close>)
  qed
qed

end

section \<open>Properties\<close>

definition sample_input :: create_input where
  "sample_input = \<lparr>ci_ClientID = ''c'', ci_Scopes = [''openid''], ci_OptionalScopes = [], ci_ScopeClaims = None,
     ci_ClientIdentityRevision = 1, ci_ClientAuthorizationRevision = 1, ci_TTL = Minute, ci_Interval = 0\<rparr>"

definition sample_draw :: "nat \<Rightarrow> attempt_draw" where
  "sample_draw n = \<lparr>at_DeviceCode = Some ''dc'', at_UserCode = Some ''2345-6789'', at_Version = Some ''v'', at_Now = 0\<rparr>"

definition sample_device :: device_record where
  "sample_device = new_device_record sample_input ''v'' ''dc'' ''23456789'' Minute DefaultInterval 0"

definition with_device :: mem_db where
  "with_device = run mem_redis plain [Device_op (Create_device sample_input sample_draw)] mem_empty"

lemma typed_with_device: "typed mem_redis with_device"
  unfolding with_device_def by (rule mem.run_typed [OF typed_mem_empty])



text \<open>
  C15. An approved device authorization yields one grant. After a consumption or a denial
  succeeds, along any sequence of operations that does not allocate the identifier again, no poll
  with the device code returns a grant, and no consumption, approval or denial of the record
  succeeds.
\<close>

theorem device_grant_single_use:
  assumes "redis_server R" and "typed R db" and "h dc = dr_DeviceID cur"
    and "ConsumeApproved R db cur = (db1, Inr ()) \<or> Deny R db cur = (db1, Inr ())"
    and "\<forall>op \<in> set ops. \<not> creates_device h (dr_DeviceID cur) op"
  shows "snd (Poll R h (run R h ops db1) dc c now) \<noteq> Inr g \<and>
    snd (ConsumeApproved R (run R h ops db1) cur) \<noteq> Inr () \<and>
    snd (ApproveWithAuthentication R (run R h ops db1) cur uid av sc cl ia ac am at) \<noteq> Inr () \<and>
    snd (Deny R (run R h ops db1) cur) \<noteq> Inr ()"
proof -
  let ?i = "dr_DeviceID cur"
  have t1: "typed R db1"
    using redis_server.evolves_device(3,5) [OF assms(1), of cur db] assms(2,4) by (auto simp: evolves_def)
  have "device_status R db1 ?i \<in> {None, Some StatusDenied}"
  proof (cases "ConsumeApproved R db cur = (db1, Inr ())")
    case True
    then show ?thesis
      using redis_server.ConsumeApproved_Inr(2) [OF assms(1)] by (auto simp: device_status_def)
  next
    case False
    then have "runDecision R db cur (cur\<lparr>dr_Status := StatusDenied\<rparr>) = (db1, Inr ())"
      using assms(4) by (simp add: Deny_def)
    then show ?thesis
      by (rule redis_server.runDecision_Inr [OF assms(1)]) (simp add: device_status_def)
  qed
  note s = redis_server.run_device_closed [OF assms(1) t1 this assms(5)]
  note n = redis_server.closed_device_no_grant [OF assms(1) s]
  show ?thesis
    using n(1) [of h dc, OF assms(3)] n(2,3) [OF refl] by (simp add: ApproveWithAuthentication_def Deny_def)
qed

theorem device_grant_single_use_witness:
  "(let r = Deny mem_redis with_device sample_device
    in snd r = Inr () \<and> snd (ConsumeApproved mem_redis (run mem_redis plain [Read] (fst r)) sample_device) \<noteq> Inr ())"
proof -
  let ?r = "Deny mem_redis with_device sample_device"
  have s: "snd ?r = Inr ()" by code_simp
  have h: "plain ''dc'' = dr_DeviceID sample_device"
    by (simp add: plain_def sample_device_def new_device_record_def)
  have d: "ConsumeApproved mem_redis with_device sample_device = (fst ?r, Inr ()) \<or>
      Deny mem_redis with_device sample_device = (fst ?r, Inr ())"
    using result_pair [OF s] by simp
  have o: "\<forall>op \<in> set [Read]. \<not> creates_device plain (dr_DeviceID sample_device) op"
    by (simp add: creates_device_def)
  from device_grant_single_use [OF mem_server typed_with_device h d o] s show ?thesis
    unfolding Let_def by blast
qed






end
