(* ===== verification/Oauth_Policy.thy ===== *)
theory Oauth_Policy
  imports Oauth_Models "HOL-Library.AList"
begin

text \<open>
  The OAuth policy of \<open>internal/settings/policies.go\<close>: which grants, scopes and claims
  clients may be given, the lookups that the protocol endpoints make, and the normalisers of the
  policy's lists. A Go map is an association list; \<open>slices.Contains\<close> is membership.
\<close>

definition supportedOAuthScopes :: "string list" where
  "supportedOAuthScopes = [''openid'', ''profile'', ''email'', ''offline_access'']"

definition supportedOAuthGrantTypes :: "string list" where
  "supportedOAuthGrantTypes =
     [GrantAuthorizationCode, GrantDeviceCode, GrantRefreshToken, GrantClientCredentials]"

definition supportedOAuthClaims :: "string list" where
  "supportedOAuthClaims =
     [''sub'', ''preferred_username'', ''name'', ''picture'', ''email'', ''email_verified'', ''role'']"

definition OAuthAssignmentSelfService :: string where
  "OAuthAssignmentSelfService = ''self_service''"
definition OAuthAssignmentAdminOnly :: string where
  "OAuthAssignmentAdminOnly = ''admin_only''"

record scope_definition =
  sf_DisplayName :: string
  sf_Description :: string
  sf_Claims :: "string list"
  sf_AssignmentPolicy :: string
  sf_RiskLevel :: string

record oauth_policy =
  op_SelfServiceClientCreationEnabled :: bool
  op_PublicClientsEnabled :: bool
  op_AllowedGrantTypes :: "string list"
  op_AllowedScopes :: "string list"
  op_ScopeDefinitions :: "(string \<times> scope_definition) list"
  op_ClaimAssignmentPolicies :: "(string \<times> string) list"
  op_MaxRedirectURIs :: int
  op_MaxPostLogoutRedirectURIs :: int

datatype policy_error = EmptyValues | UnsupportedValue string | DuplicateValue string
  | InvalidScope string | UnsupportedClaim string | DuplicateClaim string | FixedClaims string
  | UnsupportedAssignment string

fun normalize_values_loop :: "string list \<Rightarrow> string list \<Rightarrow> string list \<Rightarrow> policy_error + string list" where
  "normalize_values_loop supported selected [] = Inr selected"
| "normalize_values_loop supported selected (raw # rest) =
     (let v = TrimSpace raw in
      if v = [] \<or> v \<notin> set supported then Inl (UnsupportedValue raw)
      else if v \<in> set selected then Inl (DuplicateValue v)
      else normalize_values_loop supported (v # selected) rest)"

definition normalizeAllowedValues :: "string list \<Rightarrow> string list \<Rightarrow> policy_error + string list" where
  "normalizeAllowedValues vs supported =
     (if vs = [] then Inl EmptyValues
      else case normalize_values_loop supported [] vs of
             Inl e \<Rightarrow> Inl e
           | Inr selected \<Rightarrow> Inr (filter (\<lambda>v. v \<in> set selected) supported))"

fun normalize_scopes_loop ::
    "string list \<Rightarrow> string list \<Rightarrow> string list \<Rightarrow> policy_error + (string list \<times> string list)" where
  "normalize_scopes_loop selected custom [] = Inr (selected, custom)"
| "normalize_scopes_loop selected custom (scope # rest) =
     (if \<not> ValidOAuthScope scope then Inl (InvalidScope scope)
      else if scope \<in> set selected then Inl (DuplicateValue scope)
      else normalize_scopes_loop (scope # selected)
             (if scope \<notin> set supportedOAuthScopes then custom @ [scope] else custom) rest)"

definition normalizeAllowedScopes :: "string list \<Rightarrow> policy_error + string list" where
  "normalizeAllowedScopes vs =
     (case normalize_scopes_loop [] [] vs of
        Inl e \<Rightarrow> Inl e
      | Inr (selected, custom) \<Rightarrow>
          Inr (filter (\<lambda>s. s \<in> set selected) supportedOAuthScopes @ sort custom))"

definition sameStringSet :: "string list \<Rightarrow> string list \<Rightarrow> bool" where
  "sameStringSet left right =
     (if length left \<noteq> length right then False else list_all (\<lambda>v. v \<in> set right) left)"

fun scope_claims_loop :: "string list \<Rightarrow> string list \<Rightarrow> policy_error + string list" where
  "scope_claims_loop seen [] = Inr seen"
| "scope_claims_loop seen (claim # rest) =
     (if claim \<notin> set supportedOAuthClaims then Inl (UnsupportedClaim claim)
      else if claim \<in> set seen then Inl (DuplicateClaim claim)
      else scope_claims_loop (claim # seen) rest)"

definition normalizeOAuthScopeClaims :: "string \<Rightarrow> string list \<Rightarrow> policy_error + string list" where
  "normalizeOAuthScopeClaims scope claims =
     (case scope_claims_loop [] claims of
        Inl e \<Rightarrow> Inl e
      | Inr seen \<Rightarrow>
          (if scope = ''openid'' \<and> claims \<noteq> [''sub''] then Inl (FixedClaims scope)
           else if scope = ''profile'' \<and>
             \<not> sameStringSet claims [''preferred_username'', ''name'', ''picture''] then Inl (FixedClaims scope)
           else if scope = ''email'' \<and> \<not> sameStringSet claims [''email'', ''email_verified'']
             then Inl (FixedClaims scope)
           else if scope = ''offline_access'' \<and> length claims \<noteq> 0 then Inl (FixedClaims scope)
           else if scope \<notin> set supportedOAuthScopes \<and> ''sub'' \<in> set seen then Inl (FixedClaims scope)
           else Inr (filter (\<lambda>c. c \<in> set seen) supportedOAuthClaims)))"

definition defaultOAuthClaimAssignmentPolicies :: "(string \<times> string) list" where
  "defaultOAuthClaimAssignmentPolicies =
     AList.update ''role'' OAuthAssignmentAdminOnly
       (fold (\<lambda>claim m. AList.update claim OAuthAssignmentSelfService m) supportedOAuthClaims [])"

definition lookup_string :: "(string \<times> string) list \<Rightarrow> string \<Rightarrow> string" where
  "lookup_string m k = (case map_of m k of None \<Rightarrow> [] | Some v \<Rightarrow> v)"

fun claim_policies_loop :: "(string \<times> string) list \<Rightarrow> (string \<times> string) list \<Rightarrow> string list \<Rightarrow>
    policy_error + (string \<times> string) list" where
  "claim_policies_loop provided result [] = Inr result"
| "claim_policies_loop provided result (claim # rest) =
     (let p0 = lookup_string provided claim;
          p1 = (if p0 = [] then lookup_string defaultOAuthClaimAssignmentPolicies claim else p0);
          p2 = (if claim = ''sub'' then OAuthAssignmentSelfService else p1)
      in if p2 \<noteq> OAuthAssignmentSelfService \<and> p2 \<noteq> OAuthAssignmentAdminOnly
         then Inl (UnsupportedAssignment claim)
         else claim_policies_loop provided (AList.update claim p2 result) rest)"

definition normalizeOAuthClaimAssignmentPolicies ::
    "(string \<times> string) list \<Rightarrow> policy_error + (string \<times> string) list" where
  "normalizeOAuthClaimAssignmentPolicies provided =
     claim_policies_loop provided [] supportedOAuthClaims"

definition AllowsGrant :: "oauth_policy \<Rightarrow> string \<Rightarrow> bool" where
  "AllowsGrant p grant \<longleftrightarrow> grant \<in> set (op_AllowedGrantTypes p)"

definition AllowsScope :: "oauth_policy \<Rightarrow> string \<Rightarrow> bool" where
  "AllowsScope p scope \<longleftrightarrow> scope \<in> set (op_AllowedScopes p)"

definition ScopeDefinition :: "oauth_policy \<Rightarrow> string \<Rightarrow> scope_definition option" where
  "ScopeDefinition p scope = map_of (op_ScopeDefinitions p) scope"

definition ScopeAssignable :: "oauth_policy \<Rightarrow> string \<Rightarrow> bool \<Rightarrow> bool" where
  "ScopeAssignable p scope administrator =
     (case ScopeDefinition p scope of
        None \<Rightarrow> False
      | Some d \<Rightarrow> administrator \<or> sf_AssignmentPolicy d = OAuthAssignmentSelfService)"

definition ClaimAssignable :: "oauth_policy \<Rightarrow> string \<Rightarrow> bool \<Rightarrow> bool" where
  "ClaimAssignable p claim administrator =
     (case map_of (op_ClaimAssignmentPolicies p) claim of
        None \<Rightarrow> False
      | Some policy \<Rightarrow> administrator \<or> policy = OAuthAssignmentSelfService)"

definition ClaimsForScopes :: "oauth_policy \<Rightarrow> string list \<Rightarrow> bool \<Rightarrow> string list" where
  "ClaimsForScopes p scopes administrator =
     (let selected = concat (map (\<lambda>scope. case ScopeDefinition p scope of
              None \<Rightarrow> []
            | Some d \<Rightarrow> filter (\<lambda>claim. ClaimAssignable p claim administrator) (sf_Claims d)) scopes)
      in filter (\<lambda>claim. claim \<in> set selected) supportedOAuthClaims)"

definition SelfServiceView :: "oauth_policy \<Rightarrow> oauth_policy" where
  "SelfServiceView p =
     (let visible = concat (map (\<lambda>scope. case ScopeDefinition p scope of
              None \<Rightarrow> []
            | Some d \<Rightarrow>
                (if sf_AssignmentPolicy d \<noteq> OAuthAssignmentSelfService then []
                 else [(scope, d\<lparr>sf_Claims :=
                         filter (\<lambda>claim. ClaimAssignable p claim False) (sf_Claims d)\<rparr>)]))
              (op_AllowedScopes p))
      in p\<lparr>op_AllowedScopes := map fst visible,
           op_ScopeDefinitions := fold (\<lambda>(scope, d) m. AList.update scope d m) visible [],
           op_ClaimAssignmentPolicies :=
             filter (\<lambda>(claim, policy). policy = OAuthAssignmentSelfService) (op_ClaimAssignmentPolicies p)\<rparr>)"

section \<open>Properties\<close>

lemma set_ClaimsForScopes:
  "c \<in> set (ClaimsForScopes p scopes adm) \<longleftrightarrow>
     c \<in> set supportedOAuthClaims \<and> ClaimAssignable p c adm \<and>
     (\<exists>s \<in> set scopes. \<exists>d. ScopeDefinition p s = Some d \<and> c \<in> set (sf_Claims d))"
proof -
  have "(c \<in> set (case ScopeDefinition p s of None \<Rightarrow> []
            | Some d \<Rightarrow> filter (\<lambda>claim. ClaimAssignable p claim adm) (sf_Claims d))) \<longleftrightarrow>
        ClaimAssignable p c adm \<and> (\<exists>d. ScopeDefinition p s = Some d \<and> c \<in> set (sf_Claims d))" for s
    by (cases "ScopeDefinition p s") auto
  then show ?thesis by (auto simp: ClaimsForScopes_def Let_def)
qed

lemma normalize_values_loop_Inr:
  "normalize_values_loop supported selected vs = Inr r \<Longrightarrow>
     set r = set selected \<union> TrimSpace ` set vs \<and> TrimSpace ` set vs \<subseteq> set supported \<and>
     distinct (map TrimSpace vs) \<and> TrimSpace ` set vs \<inter> set selected = {}"
proof (induction vs arbitrary: selected)
  case (Cons raw vs)
  from Cons.prems have new: "TrimSpace raw \<in> set supported" "TrimSpace raw \<notin> set selected"
    and rest: "normalize_values_loop supported (TrimSpace raw # selected) vs = Inr r"
    by (simp_all add: Let_def split: if_splits)
  from Cons.IH [OF rest] new show ?case by auto
qed simp

lemma normalize_scopes_loop_Inr:
  "normalize_scopes_loop selected custom vs = Inr (sel, cus) \<Longrightarrow>
     set sel = set selected \<union> set vs \<and> (\<forall>s \<in> set vs. ValidOAuthScope s) \<and> distinct vs \<and>
     set vs \<inter> set selected = {} \<and>
     cus = custom @ filter (\<lambda>s. s \<notin> set supportedOAuthScopes) vs"
proof (induction vs arbitrary: selected custom)
  case (Cons scope vs)
  let ?custom = "if scope \<notin> set supportedOAuthScopes then custom @ [scope] else custom"
  from Cons.prems have new: "ValidOAuthScope scope" "scope \<notin> set selected"
    and rest: "normalize_scopes_loop (scope # selected) ?custom vs = Inr (sel, cus)"
    by (simp_all split: if_splits)
  from Cons.IH [OF rest] new show ?case by auto
qed simp

lemma distinct_supported [simp]:
  "distinct supportedOAuthScopes" "distinct supportedOAuthClaims" "distinct supportedOAuthGrantTypes"
  by (simp_all add: supportedOAuthScopes_def supportedOAuthClaims_def supportedOAuthGrantTypes_def
      grant_defs)

end
