(* ===== verification/Scopes_Claims.thy ===== *)
theory Scopes_Claims
  imports Oauth_Policy Stored_Values
begin

text \<open>
  The scope and claim computations of the OAuth endpoints: the request parsers of
  \<open>internal/auth/handler.go\<close>, the claim names of \<open>internal/auth/token.go\<close>, and the
  consent decision of \<open>internal/auth/consent.go\<close>. A Go \<open>map[string]struct{}\<close> that is only
  tested for membership is the list of the keys put into it.
\<close>

section \<open>Scopes\<close>

datatype scope_error = ScopeNotAllowed | DuplicateScope

fun parse_scopes_loop :: "string list \<Rightarrow> string list \<Rightarrow> string list \<Rightarrow> string list \<Rightarrow> scope_error + string list" where
  "parse_scopes_loop allowed seen result [] = Inr result"
| "parse_scopes_loop allowed seen result (scope # rest) =
     (if scope \<notin> set allowed then Inl ScopeNotAllowed
      else if scope \<in> set seen then Inl DuplicateScope
      else parse_scopes_loop allowed (scope # seen) (result @ [scope]) rest)"

definition parseAndValidateScopes :: "string \<Rightarrow> string list \<Rightarrow> scope_error + string list" where
  "parseAndValidateScopes raw allowed =
     (case parse_scopes_loop allowed [] [] (Fields raw) of
        Inl e \<Rightarrow> Inl e
      | Inr result \<Rightarrow> Inr (sort result))"

definition intersectScopes :: "string list \<Rightarrow> string list \<Rightarrow> string list" where
  "intersectScopes scopes allowed = filter (\<lambda>scope. scope \<in> set allowed) scopes"

definition withoutScope :: "string list \<Rightarrow> string \<Rightarrow> string list" where
  "withoutScope scopes excluded = filter (\<lambda>scope. scope \<noteq> excluded) scopes"

definition joinScopes :: "string list \<Rightarrow> string" where
  "joinScopes scopes = Join scopes '' ''"

fun containsScope :: "string list \<Rightarrow> string \<Rightarrow> bool" where
  "containsScope [] target = False"
| "containsScope (scope # rest) target = (if scope = target then True else containsScope rest target)"

fun scopesAreSubset :: "string list \<Rightarrow> string list \<Rightarrow> bool" where
  "scopesAreSubset [] allowed = True"
| "scopesAreSubset (scope # rest) allowed =
     (if scope \<notin> set allowed then False else scopesAreSubset rest allowed)"

definition difference :: "string list \<Rightarrow> string list \<Rightarrow> string list" where
  "difference vs previous = filter (\<lambda>v. v \<notin> set previous) vs"

text \<open>\<open>resolveGrantedScopes\<close>: its three loops, each filling one set or failing.\<close>

fun requested_loop :: "string list \<Rightarrow> string list \<Rightarrow> string list option" where
  "requested_loop acc [] = Some acc"
| "requested_loop acc (scope # rest) =
     (if scope \<in> set acc then None else requested_loop (scope # acc) rest)"

fun optional_loop :: "string list \<Rightarrow> string list \<Rightarrow> string list \<Rightarrow> string list option" where
  "optional_loop requestedSet acc [] = Some acc"
| "optional_loop requestedSet acc (scope # rest) =
     (if scope \<notin> set requestedSet \<or> scope = ''openid'' then None
      else if scope \<in> set acc then None
      else optional_loop requestedSet (scope # acc) rest)"

fun selected_loop :: "string list \<Rightarrow> string list \<Rightarrow> string list \<Rightarrow> string list option" where
  "selected_loop optionalSet acc [] = Some acc"
| "selected_loop optionalSet acc (scope # rest) =
     (if scope \<notin> set optionalSet then None
      else if scope \<in> set acc then None
      else selected_loop optionalSet (scope # acc) rest)"

definition resolveGrantedScopes :: "string list \<Rightarrow> string list \<Rightarrow> string list \<Rightarrow> string list option" where
  "resolveGrantedScopes requested optional selected =
     (case requested_loop [] requested of
        None \<Rightarrow> None
      | Some requestedSet \<Rightarrow>
          (case optional_loop requestedSet [] optional of
             None \<Rightarrow> None
           | Some optionalSet \<Rightarrow>
               (case selected_loop optionalSet [] selected of
                  None \<Rightarrow> None
                | Some selectedSet \<Rightarrow>
                    Some (filter (\<lambda>scope. scope \<notin> set optionalSet \<or> scope \<in> set selectedSet) requested))))"

section \<open>Claims\<close>

definition scopeClaimsForClient :: "string list \<Rightarrow> oauth_client \<Rightarrow> oauth_policy \<Rightarrow> (string \<times> string list) list" where
  "scopeClaimsForClient scopes cl policy =
     (let allowedClaims = (case oc_AllowedClaims cl of
              None \<Rightarrow> ClaimsForScopes policy (oc_Scopes cl) True
            | Some cs \<Rightarrow> cs)
      in fold (\<lambda>scope result. case ScopeDefinition policy scope of
            None \<Rightarrow> result
          | Some definition \<Rightarrow>
              fold (\<lambda>claim r. if claim \<in> set allowedClaims
                              then AList.update scope
                                     ((case map_of r scope of None \<Rightarrow> [] | Some cs \<Rightarrow> cs) @ [claim]) r
                              else r) (sf_Claims definition) result) scopes [])"

definition scopeDetailsForScopes :: "string list \<Rightarrow> oauth_policy \<Rightarrow> (string \<times> consent_scope_details) list" where
  "scopeDetailsForScopes scopes policy =
     fold (\<lambda>scope result. case ScopeDefinition policy scope of
         None \<Rightarrow> result
       | Some d \<Rightarrow> AList.update scope
           \<lparr>sc_DisplayName = sf_DisplayName d, sc_Description = sf_Description d,
            sc_RiskLevel = sf_RiskLevel d\<rparr> result) scopes []"

definition claimsForScope :: "string \<Rightarrow> string list" where
  "claimsForScope scope =
     (if scope = ''openid'' then [''sub'']
      else if scope = ''profile'' then [''preferred_username'', ''name'', ''picture'']
      else if scope = ''email'' then [''email'', ''email_verified'']
      else [])"

definition claims_of :: "claim_map \<Rightarrow> string \<Rightarrow> string list" where
  "claims_of scopeClaims scope =
     (case scopeClaims of
        None \<Rightarrow> claimsForScope scope
      | Some m \<Rightarrow> (case map_of m scope of None \<Rightarrow> [] | Some cs \<Rightarrow> cs))"

definition claimsForGrantedScopes :: "string list \<Rightarrow> claim_map \<Rightarrow> string list" where
  "claimsForGrantedScopes scopes scopeClaims =
     (let selected = concat (map (claims_of scopeClaims) scopes)
      in filter (\<lambda>claim. claim \<in> set selected)
           [''sub'', ''preferred_username'', ''name'', ''picture'', ''email'', ''email_verified'', ''role''])"

definition legacyClaimNamesForScopes :: "string list \<Rightarrow> string list" where
  "legacyClaimNamesForScopes scopes =
     (if containsScope scopes ''openid'' then [''sub''] else []) @
     (if containsScope scopes ''profile'' then [''preferred_username'', ''name'', ''picture''] else []) @
     (if containsScope scopes ''email'' then [''email''] else [])"

definition effectiveClaimNames :: "string list \<Rightarrow> string list option \<Rightarrow> bool \<Rightarrow> string list" where
  "effectiveClaimNames scopes allowedClaims claimNamesSet =
     (if claimNamesSet then (case allowedClaims of None \<Rightarrow> [] | Some cs \<Rightarrow> cs)
      else case allowedClaims of
             Some cs \<Rightarrow> cs
           | None \<Rightarrow> legacyClaimNamesForScopes scopes)"

datatype claim_value = CText string | CBool bool | CInt int | CTexts "string list"

type_synonym user_info = "(string \<times> claim_value) list"

definition absolutePictureURL :: "string \<Rightarrow> string \<Rightarrow> string" where
  "absolutePictureURL issuer v = (if HasPrefix v ''/'' then TrimRightSlash issuer @ v else v)"

definition userClaimsForAllowed :: "string \<Rightarrow> user \<Rightarrow> string list \<Rightarrow> user_info" where
  "userClaimsForAllowed issuer u allowedClaims =
     (if containsScope allowedClaims ''preferred_username''
        then [(''preferred_username'', CText (us_Username u))] else []) @
     (case us_DisplayName u of
        Some n \<Rightarrow> (if containsScope allowedClaims ''name'' then [(''name'', CText n)] else [])
      | None \<Rightarrow> []) @
     (case us_AvatarURL u of
        Some a \<Rightarrow> (if containsScope allowedClaims ''picture''
                   then [(''picture'', CText (absolutePictureURL issuer a))] else [])
      | None \<Rightarrow> []) @
     (case us_Email u of
        Some e \<Rightarrow> (if containsScope allowedClaims ''email'' then [(''email'', CText e)] else [])
      | None \<Rightarrow> []) @
     (if containsScope allowedClaims ''email_verified''
        then [(''email_verified'', CBool (us_EmailVerifiedAt u \<noteq> None))] else []) @
     (if containsScope allowedClaims ''role'' then [(''role'', CText (us_Role u))] else [])"

definition claimLimitedUserInfo :: "string list \<Rightarrow> user_info \<Rightarrow> user_info" where
  "claimLimitedUserInfo allowedClaims userInfo =
     fold (\<lambda>key result. if key = ''sub'' then result
                        else case map_of userInfo key of
                               None \<Rightarrow> result
                             | Some v \<Rightarrow> AList.update key v result) allowedClaims []"

definition scopedIDTokenUserInfo :: "string list \<Rightarrow> user_info \<Rightarrow> user_info" where
  "scopedIDTokenUserInfo scopes userInfo =
     claimLimitedUserInfo (legacyClaimNamesForScopes scopes) userInfo"

section \<open>The consent page\<close>

record consent_permission =
  cp_Scope :: string
  cp_Details :: "consent_scope_details option"
  cp_Required :: bool
  cp_Claims :: "string list"
  cp_PreviouslyGranted :: bool
  cp_NewlyRequested :: bool

text \<open>
  \<open>consentPermissions\<close>: a scope without a stored display name shows the built-in texts of
  \<open>legacyScopeDetails\<close>, which the model leaves to the page (\<^const>\<open>None\<close>).
\<close>

definition consentPermissions ::
    "string list \<Rightarrow> string list \<Rightarrow> claim_map \<Rightarrow> (string \<times> consent_scope_details) list \<Rightarrow> consent_permission list" where
  "consentPermissions scopes optionalScopes scopeClaims details =
     map (\<lambda>scope. \<lparr>cp_Scope = scope,
        cp_Details = (case map_of details scope of
            None \<Rightarrow> None
          | Some d \<Rightarrow> if sc_DisplayName d = [] then None else Some d),
        cp_Required = (scope \<notin> set optionalScopes), cp_Claims = claims_of scopeClaims scope,
        cp_PreviouslyGranted = False, cp_NewlyRequested = False\<rparr>) scopes"

definition consentPermissionsWithHistory ::
    "string list \<Rightarrow> string list \<Rightarrow> claim_map \<Rightarrow> (string \<times> consent_scope_details) list \<Rightarrow> string list \<Rightarrow>
     consent_permission list" where
  "consentPermissionsWithHistory scopes optionalScopes scopeClaims details previousScopes =
     map (\<lambda>p. let known = cp_Scope p \<in> set previousScopes in
            p\<lparr>cp_PreviouslyGranted := known,
              cp_NewlyRequested := (length previousScopes > 0 \<and> \<not> known)\<rparr>)
       (consentPermissions scopes optionalScopes scopeClaims details)"

section \<open>Lemmas\<close>

lemma containsScope_iff [simp]: "containsScope scopes t \<longleftrightarrow> t \<in> set scopes"
  by (induction scopes) auto

lemma scopesAreSubset_iff [simp]: "scopesAreSubset xs allowed \<longleftrightarrow> set xs \<subseteq> set allowed"
  by (induction xs) auto

lemma parse_scopes_loop_Inr:
  "parse_scopes_loop allowed seen result fs = Inr r \<longleftrightarrow>
     r = result @ fs \<and> set fs \<subseteq> set allowed \<and> distinct fs \<and> set fs \<inter> set seen = {}"
  by (induction fs arbitrary: seen result) auto

lemma parseAndValidateScopes_Inr:
  "parseAndValidateScopes raw allowed = Inr r \<longleftrightarrow>
     r = sort (Fields raw) \<and> distinct (Fields raw) \<and> set (Fields raw) \<subseteq> set allowed"
  by (auto simp: parseAndValidateScopes_def parse_scopes_loop_Inr split: sum.splits)
     (metis parse_scopes_loop_Inr Int_empty_right append_Nil empty_set sum.distinct(1))

lemma requested_loop_eq:
  "requested_loop acc xs = (if distinct xs \<and> set xs \<inter> set acc = {} then Some (rev xs @ acc) else None)"
  by (induction xs arbitrary: acc) auto

lemma optional_loop_eq:
  "optional_loop req acc xs =
     (if distinct xs \<and> set xs \<inter> set acc = {} \<and> set xs \<subseteq> set req \<and> ''openid'' \<notin> set xs
      then Some (rev xs @ acc) else None)"
  by (induction xs arbitrary: acc) auto

lemma selected_loop_eq:
  "selected_loop opt acc xs =
     (if distinct xs \<and> set xs \<inter> set acc = {} \<and> set xs \<subseteq> set opt then Some (rev xs @ acc) else None)"
  by (induction xs arbitrary: acc) auto

lemma resolveGrantedScopes_Some:
  "resolveGrantedScopes requested optional selected = Some granted \<longleftrightarrow>
     distinct requested \<and> distinct optional \<and> distinct selected \<and>
     set optional \<subseteq> set requested \<and> ''openid'' \<notin> set optional \<and> set selected \<subseteq> set optional \<and>
     granted = filter (\<lambda>s. s \<notin> set optional \<or> s \<in> set selected) requested"
  by (auto simp: resolveGrantedScopes_def requested_loop_eq optional_loop_eq selected_loop_eq)

text \<open>What a client may learn from one scope under a policy.\<close>

definition permitted_claims :: "oauth_client \<Rightarrow> oauth_policy \<Rightarrow> string \<Rightarrow> string set" where
  "permitted_claims cl policy scope =
     {c. (\<exists>d. ScopeDefinition policy scope = Some d \<and> c \<in> set (sf_Claims d)) \<and>
         c \<in> set (case oc_AllowedClaims cl of
                    None \<Rightarrow> ClaimsForScopes policy (oc_Scopes cl) True | Some cs \<Rightarrow> cs)}"

abbreviation entry_claims :: "(string \<times> string list) list \<Rightarrow> string \<Rightarrow> string set" where
  "entry_claims m s \<equiv> set (case map_of m s of None \<Rightarrow> [] | Some cs \<Rightarrow> cs)"

lemma entry_claims_append_loop:
  "entry_claims (fold (\<lambda>claim r. if claim \<in> A
        then AList.update scope ((case map_of r scope of None \<Rightarrow> [] | Some cs \<Rightarrow> cs) @ [claim]) r
        else r) claims m) s =
   entry_claims m s \<union> (if s = scope then set claims \<inter> A else {})"
  by (induction claims arbitrary: m) (auto simp: update_conv')

lemma entry_claims_scopeClaims:
  "entry_claims (scopeClaimsForClient scopes cl policy) s =
     (if s \<in> set scopes then permitted_claims cl policy s else {})"
proof -
  let ?A = "set (case oc_AllowedClaims cl of None \<Rightarrow> ClaimsForScopes policy (oc_Scopes cl) True | Some cs \<Rightarrow> cs)"
  let ?step = "\<lambda>scope result. case ScopeDefinition policy scope of
            None \<Rightarrow> result
          | Some definition \<Rightarrow>
              fold (\<lambda>claim r. if claim \<in> ?A
                              then AList.update scope
                                     ((case map_of r scope of None \<Rightarrow> [] | Some cs \<Rightarrow> cs) @ [claim]) r
                              else r) (sf_Claims definition) result"
  have step: "entry_claims (?step scope m) s =
      entry_claims m s \<union> (if s = scope then permitted_claims cl policy s else {})" for scope m
    by (cases "ScopeDefinition policy scope")
      (auto simp: entry_claims_append_loop permitted_claims_def)
  have "entry_claims (fold ?step scopes m) s =
      entry_claims m s \<union> (if s \<in> set scopes then permitted_claims cl policy s else {})" for m
    by (induction scopes arbitrary: m) (simp_all only: fold_simps step, auto)
  from this [of "[]"] show ?thesis by (simp add: scopeClaimsForClient_def Let_def)
qed

lemma set_claimsForGrantedScopes:
  "set (claimsForGrantedScopes scopes m) =
     (\<Union>s \<in> set scopes. set (claims_of m s)) \<inter> set supportedOAuthClaims"
  by (auto simp: claimsForGrantedScopes_def Let_def supportedOAuthClaims_def)

lemma set_claimsForGrantedScopes_client:
  "set (claimsForGrantedScopes scopes (Some (scopeClaimsForClient requested cl policy))) =
     (\<Union>s \<in> set scopes \<inter> set requested. permitted_claims cl policy s) \<inter> set supportedOAuthClaims"
  using entry_claims_scopeClaims [of requested cl policy]
  by (auto simp: set_claimsForGrantedScopes claims_of_def split: if_splits)

lemma fst_userClaimsForAllowed: "fst ` set (userClaimsForAllowed issuer u allowed) \<subseteq> set allowed"
  by (auto simp: userClaimsForAllowed_def split: option.splits if_splits)

lemma limited_step_keys:
  "fst ` set (if key = ''sub'' then m
      else case map_of info key of None \<Rightarrow> m | Some v \<Rightarrow> AList.update key v m) \<subseteq>
   fst ` set m \<union> (({key} - {''sub''}) \<inter> fst ` set info)"
  by (cases "map_of info key")
     (auto simp: dom_update dest!: map_of_SomeD intro: rev_image_eqI)

lemma limited_fold_keys:
  "fst ` set (fold (\<lambda>key m. if key = ''sub'' then m
      else case map_of info key of None \<Rightarrow> m | Some v \<Rightarrow> AList.update key v m) keys m) \<subseteq>
   fst ` set m \<union> ((set keys - {''sub''}) \<inter> fst ` set info)"
proof (induction keys arbitrary: m)
  case (Cons key keys)
  let ?f = "\<lambda>key m. if key = ''sub'' then m
      else case map_of info key of None \<Rightarrow> m | Some v \<Rightarrow> AList.update key v m"
  have "fst ` set (fold ?f keys (?f key m)) \<subseteq>
      (fst ` set m \<union> (({key} - {''sub''}) \<inter> fst ` set info)) \<union> ((set keys - {''sub''}) \<inter> fst ` set info)"
    by (rule order_trans [OF Cons.IH Un_mono [OF limited_step_keys order_refl]])
  also have "\<dots> \<subseteq> fst ` set m \<union> ((set (key # keys) - {''sub''}) \<inter> fst ` set info)"
    by auto
  finally show ?case by (simp only: fold_simps)
qed simp

lemma fst_claimLimitedUserInfo:
  "fst ` set (claimLimitedUserInfo allowed info) \<subseteq> (set allowed - {''sub''}) \<inter> fst ` set info"
  using limited_fold_keys [of info allowed "[]"] by (simp add: claimLimitedUserInfo_def)

end
