(* ===== verification/Pkce.thy ===== *)
theory Pkce
  imports Nyauth_Prelude
begin

text \<open>
  Proof Key for Code Exchange, \<open>internal/auth/pkce.go\<close>. SHA-256 is a parameter
  \<open>sha256\<close> from byte strings to byte strings; the code relies on its output being 32 bytes
  long. \<open>base64.RawURLEncoding\<close> is written out: the encoder, and whether the decoder accepts
  a text (it skips carriage returns and line feeds and does not insist on zero padding bits).
  \<open>subtle.ConstantTimeCompare(a, b) == 1\<close> is equality.
\<close>

definition b64url_alphabet :: string where
  "b64url_alphabet = ''ABCDEFGHIJKLMNOPQRSTUVWXYZabcdefghijklmnopqrstuvwxyz0123456789-_''"

definition b64url_char :: "nat \<Rightarrow> char" where
  "b64url_char n = b64url_alphabet ! (n mod 64)"

fun b64url_encode :: "nat list \<Rightarrow> string" where
  "b64url_encode [] = []"
| "b64url_encode [a] = [b64url_char (a div 4), b64url_char (a mod 4 * 16)]"
| "b64url_encode [a, b] =
     [b64url_char (a div 4), b64url_char (a mod 4 * 16 + b div 16), b64url_char (b mod 16 * 4)]"
| "b64url_encode (a # b # c # rest) =
     b64url_char (a div 4) # b64url_char (a mod 4 * 16 + b div 16) #
     b64url_char (b mod 16 * 4 + c div 64) # b64url_char (c mod 64) # b64url_encode rest"

definition b64url_decodes :: "string \<Rightarrow> bool" where
  "b64url_decodes s =
     (let cs = filter (\<lambda>c. c \<noteq> CHR 0x0D \<and> c \<noteq> CHR 0x0A) s
      in list_all (\<lambda>c. c \<in> set b64url_alphabet) cs \<and> length cs mod 4 \<noteq> 1)"

definition validPKCEChallenge :: "string \<Rightarrow> bool" where
  "validPKCEChallenge challenge =
     (if length challenge \<noteq> 43 then False else b64url_decodes challenge)"

text \<open>Ranging over the runes of the verifier: a byte above 127 never is one of the accepted runes.\<close>

definition verifier_char :: "char \<Rightarrow> bool" where
  "verifier_char c \<longleftrightarrow>
     97 \<le> byte c \<and> byte c \<le> 122 \<or> 65 \<le> byte c \<and> byte c \<le> 90 \<or> 48 \<le> byte c \<and> byte c \<le> 57 \<or>
     c = CHR ''-'' \<or> c = CHR ''.'' \<or> c = CHR ''_'' \<or> c = CHR ''~''"

definition validPKCEVerifier :: "string \<Rightarrow> bool" where
  "validPKCEVerifier verifier =
     (if length verifier < 43 \<or> length verifier > 128 then False else list_all verifier_char verifier)"

definition s256_challenge :: "(string \<Rightarrow> string) \<Rightarrow> string \<Rightarrow> string" where
  "s256_challenge sha256 verifier = b64url_encode (map byte (sha256 verifier))"

definition validatePKCE :: "(string \<Rightarrow> string) \<Rightarrow> string \<Rightarrow> string \<Rightarrow> string \<Rightarrow> bool" where
  "validatePKCE sha256 verifier challenge challenge_method =
     (if challenge_method \<noteq> ''S256'' \<or> \<not> validPKCEVerifier verifier \<or> \<not> validPKCEChallenge challenge
      then False
      else s256_challenge sha256 verifier = challenge)"

section \<open>Properties\<close>

lemma b64url_char_in: "b64url_char n \<in> set b64url_alphabet"
proof -
  have "n mod 64 < length b64url_alphabet" by (simp add: b64url_alphabet_def)
  then show ?thesis unfolding b64url_char_def by (rule nth_mem)
qed

lemma b64url_encode_alphabet: "set (b64url_encode bs) \<subseteq> set b64url_alphabet"
  by (induction bs rule: b64url_encode.induct) (simp_all add: b64url_char_in)

lemma length_b64url_encode: "length (b64url_encode bs) = (length bs * 8 + 5) div 6"
  by (induction bs rule: b64url_encode.induct) auto

lemma b64url_encode_decodes: "b64url_decodes (b64url_encode bs)"
proof -
  have nl: "CHR 0x0D \<notin> set b64url_alphabet" "CHR 0x0A \<notin> set b64url_alphabet"
    by (simp_all add: b64url_alphabet_def)
  have keep: "filter (\<lambda>c. c \<noteq> CHR 0x0D \<and> c \<noteq> CHR 0x0A) (b64url_encode bs) = b64url_encode bs"
    by (rule filter_True) (use b64url_encode_alphabet [of bs] nl in blast)
  have "(length bs * 8 + 5) div 6 mod 4 \<noteq> 1" by presburger
  then show ?thesis
    using b64url_encode_alphabet [of bs]
    by (auto simp: b64url_decodes_def keep length_b64url_encode list_all_iff)
qed

lemma s256_challenge_valid:
  "length (sha256 verifier) = 32 \<Longrightarrow> validPKCEChallenge (s256_challenge sha256 verifier)"
  by (simp add: validPKCEChallenge_def s256_challenge_def length_b64url_encode b64url_encode_decodes)

lemma b64url_char_inj: "m < 64 \<Longrightarrow> n < 64 \<Longrightarrow> b64url_char m = b64url_char n \<longleftrightarrow> m = n"
proof -
  assume "m < 64" "n < 64"
  moreover have "distinct b64url_alphabet" by (simp add: b64url_alphabet_def)
  moreover have "length b64url_alphabet = 64" by (simp add: b64url_alphabet_def)
  ultimately show ?thesis by (simp add: b64url_char_def nth_eq_iff_index_eq)
qed


lemma digit_inj:
  assumes "x * k + y = x' * k + y'" and "y < k" and "y' < (k::nat)"
  shows "x = x'" and "y = y'"
proof -
  have "(x * k + y) div k = x" "(x' * k + y') div k = x'" using assms(2,3) by simp_all
  with assms(1) show "x = x'" by simp
  with assms(1) show "y = y'" by simp
qed

lemma nat_div_mod_eqI: "a div k = b div k \<Longrightarrow> a mod k = b mod k \<Longrightarrow> a = (b::nat)"
  by (metis mult_div_mod_eq)

lemma quantum_inj:
  assumes "a div 4 = a' div 4" and "a mod 4 * 16 + b div 16 = a' mod 4 * 16 + b' div 16"
    and "b < 256" and "b' < (256::nat)"
  shows "a = a'" and "b div 16 = b' div 16"
proof -
  have "b div 16 < 16" "b' div 16 < 16" using assms(3,4) by simp_all
  note eqs = digit_inj [OF assms(2) this]
  from assms(1) eqs(1) show "a = a'" by (rule nat_div_mod_eqI)
  from eqs(2) show "b div 16 = b' div 16" .
qed

lemma quantum_inj2:
  assumes "b div 16 = b' div 16" and "b mod 16 * 4 + c div 64 = b' mod 16 * 4 + c' div 64"
    and "c mod 64 = c' mod 64" and "c < 256" and "c' < (256::nat)"
  shows "b = b'" and "c = c'"
proof -
  have "c div 64 < 4" "c' div 64 < 4" using assms(4,5) by simp_all
  note eqs = digit_inj [OF assms(2) this]
  from assms(1) eqs(1) show "b = b'" by (rule nat_div_mod_eqI)
  from eqs(2) assms(3) show "c = c'" by (rule nat_div_mod_eqI)
qed

lemma sextet_bound:
  assumes "a < 256" and "b < (256::nat)"
  shows "a div 4 < 64" and "a mod 4 * 16 + b div 16 < 64" and "a mod 16 * 4 + b div 64 < 64"
proof -
  show "a div 4 < 64" using assms by simp
  have "a mod 4 \<le> 3" "b div 16 < 16" "a mod 16 \<le> 15" "b div 64 < 4" using assms by simp_all
  then show "a mod 4 * 16 + b div 16 < 64" "a mod 16 * 4 + b div 64 < 64" by simp_all
qed

lemma length_2E: "length xs = 2 \<Longrightarrow> (\<And>a b. xs = [a, b] \<Longrightarrow> P) \<Longrightarrow> P"
  by (cases xs; cases "tl xs") auto

lemma b64url_encode_inj:
  "length bs = length bs' \<Longrightarrow> \<forall>b \<in> set bs. b < 256 \<Longrightarrow> \<forall>b \<in> set bs'. b < 256 \<Longrightarrow>
   b64url_encode bs = b64url_encode bs' \<Longrightarrow> bs = bs'"
proof (induction bs arbitrary: bs' rule: b64url_encode.induct)
  case 1
  then show ?case by simp
next
  case (2 a)
  then obtain a' where bs': "bs' = [a']" by (cases bs') auto
  have "a div 4 = a' div 4 \<and> a mod 4 * 16 = a' mod 4 * 16"
    using 2 by (simp add: bs' b64url_char_inj)
  then show ?case using quantum_inj(1) [of a a' 0 0] by (simp add: bs')
next
  case (3 a b)
  then obtain a' b' where bs': "bs' = [a', b']" using length_2E [of bs'] by auto
  have eqs: "a div 4 = a' div 4" "a mod 4 * 16 + b div 16 = a' mod 4 * 16 + b' div 16"
      "b mod 16 * 4 = b' mod 16 * 4"
    using 3 by (auto simp: bs' b64url_char_inj)
  have "a = a'" "b div 16 = b' div 16" using quantum_inj [OF eqs(1,2)] 3 by (auto simp: bs')
  moreover from this have "b = b'" using quantum_inj2(1) [of b b' 0 0] eqs(3) by simp
  ultimately show ?case by (simp add: bs')
next
  case (4 a b c rest)
  then obtain a' b' c' rest' where bs': "bs' = a' # b' # c' # rest'" 
    by (cases bs'; cases "tl bs'"; cases "tl (tl bs')") auto
  have lt: "a < 256" "b < 256" "c < 256" "a' < 256" "b' < 256" "c' < 256"
    using 4(3,4) by (simp_all add: bs')
  have enc: "b64url_char (a div 4) = b64url_char (a' div 4)"
      "b64url_char (a mod 4 * 16 + b div 16) = b64url_char (a' mod 4 * 16 + b' div 16)"
      "b64url_char (b mod 16 * 4 + c div 64) = b64url_char (b' mod 16 * 4 + c' div 64)"
      "b64url_char (c mod 64) = b64url_char (c' mod 64)"
      "b64url_encode rest = b64url_encode rest'"
    using 4(5) unfolding bs' b64url_encode.simps list.inject by blast+
  have eqs: "a div 4 = a' div 4" "a mod 4 * 16 + b div 16 = a' mod 4 * 16 + b' div 16"
      "b mod 16 * 4 + c div 64 = b' mod 16 * 4 + c' div 64" "c mod 64 = c' mod 64"
    using enc(1-4) lt by (simp_all add: b64url_char_inj sextet_bound)
  have ab: "a = a'" "b div 16 = b' div 16" using quantum_inj [OF eqs(1,2)] lt by blast+
  have bc: "b = b'" "c = c'" using quantum_inj2 [OF ab(2) eqs(3,4)] lt by blast+
  have "length rest = length rest'" "\<forall>b \<in> set rest. b < 256" "\<forall>b \<in> set rest'. b < 256"
    using 4(2-4) by (simp_all add: bs')
  then have "rest = rest'" using 4(1) enc(5) by blast
  with ab bc show ?case by (simp only: bs')
qed

lemma byte_inj: "byte c = byte d \<longleftrightarrow> c = d"
  by (simp add: byte_def)

lemma s256_challenge_inj:
  assumes "length (sha256 v) = length (sha256 v')" and "s256_challenge sha256 v = s256_challenge sha256 v'"
  shows "sha256 v = sha256 v'"
proof -
  have "map byte (sha256 v) = map byte (sha256 v')"
    using assms by (intro b64url_encode_inj) (auto simp: s256_challenge_def byte_less)
  then show ?thesis by (simp add: inj_map_eq_map inj_def byte_inj)
qed

end
