(* ===== verification/Step_Up.thy ===== *)
theory Step_Up
  imports Nyauth_Prelude
begin

text \<open>
  The authentication-context vocabulary of \<open>internal/oauthstepup/acr.go\<close>: normalisation of
  stored contexts, the assurance test, the parsers of \<open>acr_values\<close> and \<open>max_age\<close>, and the
  freshness test of an authentication. \<open>strconv.ParseInt(s, 10, 64)\<close> is written out.
\<close>

definition ACRLevel1 :: string where "ACRLevel1 = ''urn:nyauth:loa:1''"
definition ACRLevel2 :: string where "ACRLevel2 = ''urn:nyauth:loa:2''"
definition MaxACRValues :: nat where "MaxACRValues = 4"
definition MaxAge :: duration where "MaxAge = 30 * 24 * Hour"

datatype acr_error = TooManyACRValues | ErrUnsupportedACR | DuplicateACR

definition context_String :: "string \<Rightarrow> string" where
  "context_String c = (if c = ACRLevel2 then ACRLevel2 else ACRLevel1)"

definition NormalizeContext :: "string \<Rightarrow> string" where
  "NormalizeContext v = (if TrimSpace v = ACRLevel2 then ACRLevel2 else ACRLevel1)"

definition Satisfies :: "string \<Rightarrow> string \<Rightarrow> bool" where
  "Satisfies c required =
     (let r = TrimSpace required in
      if r = [] \<or> r = ACRLevel1 then True
      else if r = ACRLevel2 then c = ACRLevel2
      else False)"

fun parse_acr_loop :: "string list \<Rightarrow> string list \<Rightarrow> string list \<Rightarrow> acr_error + string list" where
  "parse_acr_loop seen acc [] = Inr acc"
| "parse_acr_loop seen acc (v # vs) =
     (if v \<noteq> ACRLevel1 \<and> v \<noteq> ACRLevel2 then Inl ErrUnsupportedACR
      else if v \<in> set seen then Inl DuplicateACR
      else parse_acr_loop (v # seen) (acc @ [v]) vs)"

definition ParseACRValues :: "string \<Rightarrow> acr_error + string list" where
  "ParseACRValues raw =
     (let fields = Fields raw in
      if length fields > MaxACRValues then Inl TooManyACRValues
      else if length fields = 0 then Inr []
      else parse_acr_loop [] [] fields)"

fun RequiredContext :: "string list \<Rightarrow> string" where
  "RequiredContext [] = []"
| "RequiredContext (v # vs) = (if v = ACRLevel1 \<or> v = ACRLevel2 then v else RequiredContext vs)"

section \<open>Decimal numbers\<close>

definition is_digit :: "char \<Rightarrow> bool" where
  "is_digit c \<longleftrightarrow> 48 \<le> byte c \<and> byte c \<le> 57"

fun digits_value :: "int \<Rightarrow> string \<Rightarrow> int option" where
  "digits_value acc [] = Some acc"
| "digits_value acc (c # cs) =
     (if is_digit c then digits_value (acc * 10 + (int (byte c) - 48)) cs else None)"

definition unsigned_decimal :: "string \<Rightarrow> int option" where
  "unsigned_decimal s = (if s = [] then None else digits_value 0 s)"

definition ParseInt :: "string \<Rightarrow> int option" where
  "ParseInt s =
     (let neg = HasPrefix s ''-'';
          body = (if HasPrefix s ''-'' \<or> HasPrefix s ''+'' then tl s else s)
      in case unsigned_decimal body of
           None \<Rightarrow> None
         | Some n \<Rightarrow>
             (if neg then (if n > 2 ^ 63 then None else Some (- n))
              else if n > 2 ^ 63 - 1 then None else Some n))"

datatype max_age_error = MaxAgeNotNonNegative | MaxAgeTooLarge

definition ParseMaxAge :: "string \<Rightarrow> max_age_error + duration option" where
  "ParseMaxAge raw0 =
     (let raw = TrimSpace raw0 in
      if raw = [] then Inr None
      else if HasPrefix raw ''+'' \<or> HasPrefix raw ''-'' then Inl MaxAgeNotNonNegative
      else case ParseInt raw of
             None \<Rightarrow> Inl MaxAgeNotNonNegative
           | Some seconds \<Rightarrow>
               (if seconds < 0 then Inl MaxAgeNotNonNegative
                else if seconds > MaxAge div Second then Inl MaxAgeTooLarge
                else Inr (Some (seconds * Second))))"

definition Fresh :: "gotime \<Rightarrow> gotime \<Rightarrow> duration option \<Rightarrow> bool" where
  "Fresh authenticatedAt now maxAge =
     (case maxAge of
        None \<Rightarrow> True
      | Some age \<Rightarrow>
          (if authenticatedAt = 0 \<or> authenticatedAt > now + Minute then False
           else now - authenticatedAt \<le> age))"

section \<open>Properties\<close>

lemma ACR_levels_distinct [simp]: "ACRLevel1 \<noteq> ACRLevel2" "ACRLevel2 \<noteq> ACRLevel1"
  "ACRLevel1 \<noteq> []" "ACRLevel2 \<noteq> []"
  by (simp_all add: ACRLevel1_def ACRLevel2_def)

lemma parse_acr_loop_Inr:
  "parse_acr_loop seen acc fs = Inr vs \<longleftrightarrow>
     vs = acc @ fs \<and> set fs \<subseteq> {ACRLevel1, ACRLevel2} \<and> distinct fs \<and> set fs \<inter> set seen = {}"
  by (induction fs arbitrary: seen acc) auto

lemma ParseACRValues_Inr:
  "ParseACRValues raw = Inr vs \<longleftrightarrow>
     vs = Fields raw \<and> set vs \<subseteq> {ACRLevel1, ACRLevel2} \<and> distinct vs \<and> length vs \<le> MaxACRValues"
  by (auto simp: ParseACRValues_def Let_def parse_acr_loop_Inr)

lemma RequiredContext_hd:
  "set vs \<subseteq> {ACRLevel1, ACRLevel2} \<Longrightarrow> RequiredContext vs = (if vs = [] then [] else hd vs)"
  by (cases vs) auto

lemma NormalizeContext_range: "NormalizeContext v \<in> {ACRLevel1, ACRLevel2}"
  by (simp add: NormalizeContext_def)

lemma digits_value_nonneg: "0 \<le> acc \<Longrightarrow> digits_value acc s = Some n \<Longrightarrow> acc \<le> n"
proof (induction s arbitrary: acc)
  case (Cons c s)
  then have "acc * 10 + (int (byte c) - 48) \<le> n" "48 \<le> byte c"
    by (auto simp: is_digit_def split: if_splits)
  then show ?case using Cons.prems(1) by linarith
qed simp

lemma ParseMaxAge_bounds:
  assumes "ParseMaxAge raw = Inr (Some d)"
  shows "0 \<le> d" and "d \<le> MaxAge" and "Second dvd d"
  using assms
  by (auto simp: ParseMaxAge_def Let_def MaxAge_def Hour_def Minute_def Second_def
      split: if_splits option.splits)

end
