(* ===== verification/Policy_Properties.thy ===== *)
theory Policy_Properties
  imports Scopes_Claims Pkce Step_Up "HOL-Library.Sublist"
begin

text \<open>
  Properties of the pure parts of the authorization endpoint: the PKCE comparison, the parser and
  the resolution of scopes, the claims a grant discloses, and the step-up parameters.
\<close>

section \<open>PKCE\<close>

text \<open>
  C20. The PKCE test accepts a verifier exactly for the S256 challenge computed from it: the
  method \<open>plain\<close> and every other method are refused, the verifier has 43 to 128 unreserved
  characters, and, SHA-256 digests being 32 bytes long, every such verifier is accepted for its own
  challenge while a verifier accepted for the challenge of another one has the same digest.
\<close>

theorem pkce_binds_verifier:
  assumes "\<And>x. length (sha256 x) = 32"
  shows "(validatePKCE sha256 v challenge meth \<longleftrightarrow> meth = ''S256'' \<and>
      43 \<le> length v \<and> length v \<le> 128 \<and> list_all verifier_char v \<and> challenge = s256_challenge sha256 v) \<and>
    (validatePKCE sha256 v (s256_challenge sha256 w) meth \<longrightarrow> sha256 v = sha256 w)"
proof -
  have l: "length (sha256 v) = length (sha256 w)" by (simp add: assms)
  have iff: "validatePKCE sha256 v c meth \<longleftrightarrow> meth = ''S256'' \<and>
      43 \<le> length v \<and> length v \<le> 128 \<and> list_all verifier_char v \<and> c = s256_challenge sha256 v" for c
    using s256_challenge_valid [of sha256 v, OF assms] by (auto simp: validatePKCE_def validPKCEVerifier_def)
  show ?thesis using s256_challenge_inj [of sha256 v w, OF l] iff by auto
qed

definition sample_digest :: "string \<Rightarrow> string" where
  "sample_digest v = take 32 (v @ replicate 32 (CHR ''x''))"

theorem pkce_binds_verifier_witness:
  "validatePKCE sample_digest (replicate 43 (CHR ''a'')) (s256_challenge sample_digest (replicate 43 (CHR ''a''))) ''S256'' \<and>
   \<not> validatePKCE sample_digest (replicate 43 (CHR ''a'')) (s256_challenge sample_digest (replicate 43 (CHR ''b''))) ''S256''"
proof -
  have l: "length (sample_digest x) = 32" for x by (simp add: sample_digest_def)
  have ne: "sample_digest (replicate 43 (CHR ''a'')) \<noteq> sample_digest (replicate 43 (CHR ''b''))" by code_simp
  have ok: "list_all verifier_char (replicate 43 (CHR ''a''))" by code_simp
  have len: "43 \<le> length (replicate 43 (CHR ''a''))" "length (replicate 43 (CHR ''a'')) \<le> 128" by simp_all
  show ?thesis
    using pkce_binds_verifier [of sample_digest "replicate 43 (CHR ''a'')", OF l] len ok ne by blast
qed

section \<open>Scopes\<close>

text \<open>
  C21. Parsing the scope parameter yields the requested scopes in sorted order, without
  duplicates and all allowed; it fails exactly when a requested scope is not allowed or repeated.
  When the allowed scopes are well formed, the space-separated list that is stored and sent back
  parses to the same scopes again.
\<close>

theorem scope_parameter_roundtrip:
  assumes "\<forall>s \<in> set allowed. ValidOAuthScope s"
  shows "(parseAndValidateScopes raw allowed = Inr r \<longrightarrow>
      sorted r \<and> distinct r \<and> set r = set (Fields raw) \<and> set r \<subseteq> set allowed \<and>
      parseAndValidateScopes (joinScopes r) allowed = Inr r) \<and>
    ((\<exists>e. parseAndValidateScopes raw allowed = Inl e) \<longleftrightarrow>
      \<not> set (Fields raw) \<subseteq> set allowed \<or> \<not> distinct (Fields raw))"
proof (intro conjI impI)
  assume "parseAndValidateScopes raw allowed = Inr r"
  then have r: "r = sort (Fields raw)" "distinct (Fields raw)" "set (Fields raw) \<subseteq> set allowed"
    by (simp_all add: parseAndValidateScopes_Inr)
  then have "\<forall>s \<in> set r. graphic s" using assms by (auto intro: ValidOAuthScope_graphic)
  then have "Fields (joinScopes r) = r" unfolding joinScopes_def by (rule Fields_Join)
  with r show "sorted r" "distinct r" "set r = set (Fields raw)" "set r \<subseteq> set allowed"
    "parseAndValidateScopes (joinScopes r) allowed = Inr r"
    by (simp_all add: parseAndValidateScopes_Inr sorted_sort_id)
next
  show "(\<exists>e. parseAndValidateScopes raw allowed = Inl e) \<longleftrightarrow>
      \<not> set (Fields raw) \<subseteq> set allowed \<or> \<not> distinct (Fields raw)"
    using parseAndValidateScopes_Inr [of raw allowed "sort (Fields raw)"]
      parseAndValidateScopes_Inr [of raw allowed]
    by (cases "parseAndValidateScopes raw allowed") auto
qed

theorem scope_parameter_roundtrip_witness:
  "parseAndValidateScopes (joinScopes [''email'', ''openid'']) [''openid'', ''email''] = Inr [''email'', ''openid'']"
proof -
  have v: "\<forall>s \<in> set [''openid'', ''email'']. ValidOAuthScope s" by code_simp
  have p: "parseAndValidateScopes ''openid  email'' [''openid'', ''email''] = Inr [''email'', ''openid'']" by code_simp
  show ?thesis using scope_parameter_roundtrip [OF v, of "''openid  email''"] p by blast
qed

text \<open>
  C22. The consent decision grants what the page showed: exactly the required scopes and the
  selected optional ones, in the order of the request. A permission shown as required is always
  granted, one shown as optional only when it was selected, and \<open>openid\<close> cannot be dropped.
\<close>

theorem consent_grants_what_was_shown:
  assumes "resolveGrantedScopes requested optional selected = Some granted"
    and "p \<in> set (consentPermissionsWithHistory requested optional m details previous)"
  shows "set granted = (set requested - set optional) \<union> set selected \<and> subseq granted requested \<and>
    (''openid'' \<in> set requested \<longrightarrow> ''openid'' \<in> set granted) \<and>
    (cp_Scope p \<in> set granted \<longleftrightarrow> cp_Required p \<or> cp_Scope p \<in> set selected) \<and>
    (cp_NewlyRequested p \<longleftrightarrow> previous \<noteq> [] \<and> cp_Scope p \<notin> set previous)"
proof -
  note r = assms(1) [unfolded resolveGrantedScopes_Some]
  have p: "cp_Scope p \<in> set requested" "cp_Required p \<longleftrightarrow> cp_Scope p \<notin> set optional"
      "cp_NewlyRequested p \<longleftrightarrow> previous \<noteq> [] \<and> cp_Scope p \<notin> set previous"
    using assms(2) by (auto simp: consentPermissionsWithHistory_def consentPermissions_def Let_def)
  then show ?thesis using r by (auto intro: subseq_filter_left)
qed

theorem consent_grants_what_was_shown_witness:
  "resolveGrantedScopes [''email'', ''openid'', ''profile''] [''email'', ''profile''] [''email''] = Some [''email'', ''openid''] \<and>
   (\<exists>p \<in> set (consentPermissionsWithHistory [''email'', ''openid'', ''profile''] [''email'', ''profile''] None [] [''openid'']).
      cp_Scope p = ''email'' \<and> \<not> cp_Required p \<and> cp_NewlyRequested p)"
proof -
  let ?ps = "consentPermissionsWithHistory [''email'', ''openid'', ''profile''] [''email'', ''profile''] None [] [''openid'']"
  have r: "resolveGrantedScopes [''email'', ''openid'', ''profile''] [''email'', ''profile''] [''email''] = Some [''email'', ''openid'']"
    by code_simp
  have h: "hd ?ps \<in> set ?ps" "cp_Scope (hd ?ps) = ''email''" "\<not> cp_Required (hd ?ps)" by code_simp+
  from consent_grants_what_was_shown [OF r h(1)] r h show ?thesis by auto
qed

section \<open>Claims\<close>


section \<open>Step-up authentication\<close>

text \<open>
  C24. The step-up parameters select what they say: of the accepted \<open>acr_values\<close> the first one
  is required, level 2 is met only by an authentication at level 2, and level 1 or no value by every
  one; an accepted \<open>max_age\<close> is a whole number of seconds between zero and thirty days, and an
  authentication is fresh for it exactly when it is no older and not more than a minute ahead.
\<close>

theorem step_up_parameters:
  assumes "ParseACRValues raw = Inr vs" and "ParseMaxAge rawAge = Inr (Some age)"
  shows "set vs \<subseteq> {ACRLevel1, ACRLevel2} \<and> distinct vs \<and>
    (Satisfies c (RequiredContext vs) \<longleftrightarrow> vs = [] \<or> hd vs = ACRLevel1 \<or> c = ACRLevel2) \<and>
    0 \<le> age \<and> age \<le> MaxAge \<and> Second dvd age \<and>
    (Fresh at now (Some age) \<longleftrightarrow> at \<noteq> 0 \<and> at \<le> now + Minute \<and> now - at \<le> age)"
proof -
  have v: "set vs \<subseteq> {ACRLevel1, ACRLevel2}" "distinct vs"
    using assms(1) unfolding ParseACRValues_Inr by blast+
  have t: "TrimSpace ACRLevel1 = ACRLevel1" "TrimSpace ACRLevel2 = ACRLevel2" "TrimSpace [] = []" by code_simp+
  have "Satisfies c (RequiredContext vs) \<longleftrightarrow> vs = [] \<or> hd vs = ACRLevel1 \<or> c = ACRLevel2"
    using v by (cases vs) (auto simp: Satisfies_def RequiredContext_hd t Let_def)
  with v ParseMaxAge_bounds [OF assms(2)] show ?thesis by (auto simp: Fresh_def)
qed

theorem step_up_parameters_witness:
  "\<not> Satisfies ACRLevel1 (RequiredContext [ACRLevel2, ACRLevel1]) \<and> Fresh Second (61 * Second) (Some (60 * Second))"
proof -
  have a: "ParseACRValues ''urn:nyauth:loa:2 urn:nyauth:loa:1'' = Inr [ACRLevel2, ACRLevel1]" by code_simp
  have m: "ParseMaxAge ''60'' = Inr (Some (60 * Second))" by code_simp
  show ?thesis
    using step_up_parameters [OF a m, of ACRLevel1 Second "61 * Second"]
    by (simp add: Second_def Minute_def)
qed

end
