(* ===== verification/Sql_World.thy ===== *)
theory Sql_World
  imports Oauth_Models Pkce "HOL-Library.AList"
begin

text \<open>
  The world around the services that use PostgreSQL: the tables, the operating system and the
  network. Code that is not in the repository is an environment \<open>env\<close>, which every
  definition that depends on it takes as an argument: the outcome of each SQL request, the random
  bytes, the fresh UUIDs and the readings of the clock, each indexed by the moment it is asked for,
  and the two parsers of UUIDs, that of the \<open>uuid\<close> package and that of the cast to \<open>uuid\<close>.
  The state counts those moments, so that two requests may have different outcomes, and nothing is
  assumed about them: requests fail, the clock jumps.

  A transaction is one atomic change of the tables. It is refused (the connection, a statement or
  the commit failed and nothing changed), served, or committed with its reply lost. A
  \<open>timestamptz\<close> column keeps microseconds.
\<close>

section \<open>Tables\<close>

text \<open>\<open>models.OAuthAuthorization\<close> as a row of \<open>oauth_authorizations\<close>.\<close>

record oauth_authorization =
  oa_ID :: uuid
  oa_UserID :: uuid
  oa_ClientID :: string
  oa_ClientNameAtGrant :: string
  oa_HomepageURIAtGrant :: string
  oa_PrivacyPolicyURIAtGrant :: string
  oa_TermsOfServiceURIAtGrant :: string
  oa_ClientIdentityRevision :: int
  oa_ClientAuthorizationRevision :: int
  oa_Scopes :: "string list"
  oa_AllowedClaims :: "string list"
  oa_GrantedAt :: gotime
  oa_LastUsedAt :: "gotime option"
  oa_RevokedAt :: "gotime option"
  oa_CreatedAt :: gotime
  oa_UpdatedAt :: gotime

text \<open>\<open>models.JWK\<close> as a row of \<open>jwk_keys\<close>, and the states of a key.\<close>

definition JWKStatusSigning :: string where "JWKStatusSigning = ''signing''"
definition JWKStatusVerification :: string where "JWKStatusVerification = ''verification''"
definition JWKStatusRetired :: string where "JWKStatusRetired = ''retired''"

record jwk =
  jk_Kid :: string
  jk_KeyType :: string
  jk_Usage :: string
  jk_Algorithm :: string
  jk_EncryptedPrivateKey :: "string option"
  jk_PublicKey :: string
  jk_Status :: string
  jk_SigningStartedAt :: gotime
  jk_VerifyUntil :: gotime
  jk_CreatedAt :: gotime
  jk_UpdatedAt :: gotime

text \<open>The tables, each a list of rows under its unique key.\<close>

record sql_tables =
  t_users :: "(uuid \<times> user) list"
  t_clients :: "(string \<times> oauth_client) list"
  t_access :: "(string \<times> uuid) list"
  t_authorizations :: "((uuid \<times> string) \<times> oauth_authorization) list"
  t_jwk :: "(string \<times> jwk) list"

definition pg_time :: "gotime \<Rightarrow> gotime" where
  "pg_time t = t div 1000 * 1000"

datatype sql_error = SqlUnavailable | SqlNoRows | SqlConstraint

section \<open>The environment and the state\<close>

datatype sql_fate = Sql_refused | Sql_served | Sql_reply_lost

record env =
  e_sql :: "nat \<Rightarrow> sql_fate"
  e_rand :: "nat \<Rightarrow> nat \<Rightarrow> nat list option"
  e_uuid :: "nat \<Rightarrow> uuid"
  e_now :: "nat \<Rightarrow> gotime"
  e_parse_uuid :: "string \<Rightarrow> uuid option"
  e_pg_uuid :: "string \<Rightarrow> uuid option"

record 'db world =
  w_redis :: 'db
  w_sql :: sql_tables
  w_tick :: nat

definition tick :: "'db world \<Rightarrow> 'db world" where
  "tick w = w\<lparr>w_tick := Suc (w_tick w)\<rparr>"

text \<open>\<open>time.Now().UTC()\<close> and \<open>uuid.New()\<close>.\<close>

definition Now :: "env \<Rightarrow> 'db world \<Rightarrow> 'db world \<times> gotime" where
  "Now E w = (tick w, e_now E (w_tick w))"

definition NewUUID :: "env \<Rightarrow> 'db world \<Rightarrow> 'db world \<times> uuid" where
  "NewUUID E w = (tick w, e_uuid E (w_tick w))"

text \<open>\<open>internal/crypto\<close>: random strings and the digests of client secrets.\<close>

definition GenerateRandomString :: "env \<Rightarrow> 'db world \<Rightarrow> nat \<Rightarrow> 'db world \<times> string option" where
  "GenerateRandomString E w byteLength =
     (tick w, map_option b64url_encode (e_rand E (w_tick w) byteLength))"

text \<open>A statement that only reads, and a transaction.\<close>

definition query :: "env \<Rightarrow> 'db world \<Rightarrow> (sql_tables \<Rightarrow> sql_error + 'a) \<Rightarrow> 'db world \<times> (sql_error + 'a)" where
  "query E w f =
     (tick w, case e_sql E (w_tick w) of Sql_served \<Rightarrow> f (w_sql w) | _ \<Rightarrow> Inl SqlUnavailable)"

fun settle :: "sql_fate \<Rightarrow> 'e \<Rightarrow> 'db world \<Rightarrow> 'e + (sql_tables \<times> 'a) \<Rightarrow> 'db world \<times> ('e + 'a)" where
  "settle Sql_refused e w r = (w, Inl e)"
| "settle Sql_served e w (Inl e') = (w, Inl e')"
| "settle Sql_served e w (Inr (t, x)) = (w\<lparr>w_sql := t\<rparr>, Inr x)"
| "settle Sql_reply_lost e w (Inl e') = (w, Inl e')"
| "settle Sql_reply_lost e w (Inr (t, x)) = (w\<lparr>w_sql := t\<rparr>, Inl e)"

definition transact ::
    "env \<Rightarrow> 'e \<Rightarrow> 'db world \<Rightarrow> (sql_tables \<Rightarrow> 'e + (sql_tables \<times> 'a)) \<Rightarrow> 'db world \<times> ('e + 'a)" where
  "transact E e w f = settle (e_sql E (w_tick w)) e (tick w) (f (w_sql w))"

text \<open>An operation on Redis, and a pure computation on the result of one.\<close>

definition on_redis :: "'db world \<Rightarrow> 'db \<times> 'r \<Rightarrow> 'db world \<times> 'r" where
  "on_redis w m = (w\<lparr>w_redis := fst m\<rparr>, snd m)"

section \<open>Lemmas\<close>

lemma world_simps [simp]:
  "w_redis (tick w) = w_redis w" "w_sql (tick w) = w_sql w"
  "fst (on_redis w m) = w\<lparr>w_redis := fst m\<rparr>" "snd (on_redis w m) = snd m"
  "w_redis (fst (Now E w)) = w_redis w" "w_sql (fst (Now E w)) = w_sql w"
  "w_redis (fst (NewUUID E w)) = w_redis w" "w_sql (fst (NewUUID E w)) = w_sql w"
  "w_redis (fst (GenerateRandomString E w n)) = w_redis w" "w_sql (fst (GenerateRandomString E w n)) = w_sql w"
  "w_redis (fst (query E w f)) = w_redis w" "w_sql (fst (query E w f)) = w_sql w"
  by (simp_all add: tick_def on_redis_def Now_def NewUUID_def GenerateRandomString_def query_def)

lemma on_redis_eq [simp]: "on_redis w (db, r) = (w\<lparr>w_redis := db\<rparr>, r)"
  by (simp add: on_redis_def)

lemma query_Inr:
  "query E w f = (w', Inr x) \<longleftrightarrow> e_sql E (w_tick w) = Sql_served \<and> f (w_sql w) = Inr x \<and> w' = tick w"
  by (auto simp: query_def split: sql_fate.splits)

lemma w_redis_settle [simp]: "w_redis (fst (settle s e w r)) = w_redis w"
  by (cases "(s, e, w, r)" rule: settle.cases) auto

lemma w_redis_transact [simp]: "w_redis (fst (transact E e w f)) = w_redis w"
  by (simp add: transact_def)

lemma settle_tables:
  "w_sql (fst (settle s e w r)) = w_sql w \<or> (\<exists>t x. r = Inr (t, x) \<and> w_sql (fst (settle s e w r)) = t)"
  by (cases "(s, e, w, r)" rule: settle.cases) auto

lemma transact_tables:
  "w_sql (fst (transact E e w f)) = w_sql w \<or>
   (\<exists>t x. f (w_sql w) = Inr (t, x) \<and> w_sql (fst (transact E e w f)) = t)"
  using settle_tables [of "e_sql E (w_tick w)" e "tick w" "f (w_sql w)"] by (simp add: transact_def)

lemma transact_relates:
  assumes "\<And>t. P t t" and "\<And>t t' x. f t = Inr (t', x) \<Longrightarrow> P t t'"
  shows "P (w_sql w) (w_sql (fst (transact E e w f)))"
  using transact_tables [of E e w f] assms by metis

lemma transact_Inr:
  assumes "transact E e w f = (w', Inr x)"
  obtains t where "f (w_sql w) = Inr (t, x)" and "w' = (tick w)\<lparr>w_sql := t\<rparr>"
  using assms unfolding transact_def
  by (cases "(e_sql E (w_tick w), e, tick w, f (w_sql w))" rule: settle.cases) auto

lemma transact_Inl:
  assumes "transact E e w f = (w', Inl e')"
  shows "e' = e \<or> f (w_sql w) = Inl e'"
  using assms unfolding transact_def
  by (cases "(e_sql E (w_tick w), e, tick w, f (w_sql w))" rule: settle.cases) auto

lemma pg_time_mono: "s \<le> t \<Longrightarrow> pg_time s \<le> pg_time t"
  by (simp add: pg_time_def zdiv_mono1)

lemma pg_time_le: "pg_time t \<le> t" "t < pg_time t + 1000"
proof -
  have "pg_time t = t - t mod 1000" by (simp add: pg_time_def minus_mod_eq_div_mult)
  then show "pg_time t \<le> t" "t < pg_time t + 1000"
    using pos_mod_bound [of 1000 t] pos_mod_sign [of 1000 t] by linarith+
qed

lemma pg_time_idem [simp]: "pg_time (pg_time t) = pg_time t"
  by (simp add: pg_time_def)

lemma pg_time_UnixMicro [simp]: "pg_time (UnixMicro n) = UnixMicro n"
  by (simp add: pg_time_def UnixMicro_def unix_epoch_def)

end
