(* ===== verification/Authorization_Store.thy ===== *)
theory Authorization_Store
  imports Sql_World
begin

text \<open>
  The record of the grants users gave to clients, \<open>internal/authorization/store.go\<close>, over the
  table \<open>oauth_authorizations\<close>. The statements of each operation are written out on the tables,
  with the constraints of the schema that an insertion can violate.
\<close>

datatype authorization_error =
    AuthNotFound | AuthNewer | AuthClientChanged | AuthInvalid | AuthSql sql_error

definition uuid_Nil :: uuid where "uuid_Nil = ''00000000-0000-0000-0000-000000000000''"

fun canonical_loop :: "string list \<Rightarrow> string list \<Rightarrow> string list" where
  "canonical_loop result [] = result"
| "canonical_loop result (raw # rest) =
     (let scope = TrimSpace raw in
      if scope = [] then canonical_loop result rest
      else if scope \<in> set result then canonical_loop result rest
      else canonical_loop (result @ [scope]) rest)"

definition canonicalScopes :: "string list \<Rightarrow> string list" where
  "canonicalScopes scopes = sort (canonical_loop [] scopes)"

text \<open>
  The constraints on a row: the claims are supported, and \<open>sub\<close> is among them exactly when
  \<open>openid\<close> is among the scopes; an inserted row has a fresh identifier and an existing user.
\<close>

definition authorization_row_ok :: "oauth_authorization \<Rightarrow> bool" where
  "authorization_row_ok a \<longleftrightarrow>
     set (oa_AllowedClaims a) \<subseteq> set [''sub'', ''preferred_username'', ''name'', ''picture'', ''email'',
       ''email_verified'', ''role''] \<and>
     (''sub'' \<in> set (oa_AllowedClaims a) \<longleftrightarrow> ''openid'' \<in> set (oa_Scopes a)) \<and>
     oa_ClientIdentityRevision a > 0 \<and> oa_ClientAuthorizationRevision a > 0"

definition insertable :: "sql_tables \<Rightarrow> oauth_authorization \<Rightarrow> bool" where
  "insertable t a \<longleftrightarrow>
     map_of (t_users t) (oa_UserID a) \<noteq> None \<and> oa_ID a \<notin> oa_ID ` snd ` set (t_authorizations t)"

text \<open>The row that \<open>upsert\<close> proposes, and its effect on a row already there.\<close>

definition proposed_grant :: "uuid \<Rightarrow> uuid \<Rightarrow> oauth_client \<Rightarrow> string \<Rightarrow> string list \<Rightarrow> string list \<Rightarrow> gotime \<Rightarrow>
    oauth_authorization" where
  "proposed_grant i userID c clientID scopes allowedClaims grantedAt =
     \<lparr>oa_ID = i, oa_UserID = userID, oa_ClientID = clientID, oa_ClientNameAtGrant = oc_Name c,
      oa_HomepageURIAtGrant = oc_HomepageURI c, oa_PrivacyPolicyURIAtGrant = oc_PrivacyPolicyURI c,
      oa_TermsOfServiceURIAtGrant = oc_TermsOfServiceURI c,
      oa_ClientIdentityRevision = oc_IdentityRevision c,
      oa_ClientAuthorizationRevision = oc_AuthorizationRevision c,
      oa_Scopes = scopes, oa_AllowedClaims = allowedClaims, oa_GrantedAt = pg_time grantedAt,
      oa_LastUsedAt = None, oa_RevokedAt = None,
      oa_CreatedAt = pg_time grantedAt, oa_UpdatedAt = pg_time grantedAt\<rparr>"

definition renew :: "oauth_authorization \<Rightarrow> oauth_authorization \<Rightarrow> oauth_authorization" where
  "renew old new =
     (if oa_GrantedAt old \<le> oa_GrantedAt new \<and>
         (case oa_RevokedAt old of None \<Rightarrow> True | Some r \<Rightarrow> r < oa_GrantedAt new)
      then new\<lparr>oa_ID := oa_ID old, oa_CreatedAt := oa_CreatedAt old\<rparr>
      else old)"

definition upsert_tx :: "uuid \<Rightarrow> uuid \<Rightarrow> string \<Rightarrow> string list \<Rightarrow> string list \<Rightarrow> gotime \<Rightarrow> int \<Rightarrow> int \<Rightarrow>
    sql_tables \<Rightarrow> authorization_error + (sql_tables \<times> unit)" where
  "upsert_tx i userID clientID scopes allowedClaims grantedAt expectedIdentity expectedAuthorization t =
     (case map_of (t_clients t) clientID of
        None \<Rightarrow> Inl (AuthSql SqlNoRows)
      | Some c \<Rightarrow>
          (if expectedIdentity > 0 \<and>
              (oc_IdentityRevision c \<noteq> expectedIdentity \<or> oc_AuthorizationRevision c \<noteq> expectedAuthorization)
           then Inl AuthClientChanged
           else
             let new = proposed_grant i userID c clientID scopes allowedClaims grantedAt;
                 rows = t_authorizations t
             in if \<not> authorization_row_ok new then Inl (AuthSql SqlConstraint)
                else case map_of rows (userID, clientID) of
                  Some old \<Rightarrow> Inr (t\<lparr>t_authorizations := AList.update (userID, clientID) (renew old new) rows\<rparr>, ())
                | None \<Rightarrow>
                    (if \<not> insertable t new then Inl (AuthSql SqlConstraint)
                     else Inr (t\<lparr>t_authorizations := AList.update (userID, clientID) new rows\<rparr>, ()))))"

definition upsert :: "env \<Rightarrow> 'db world \<Rightarrow> uuid \<Rightarrow> string \<Rightarrow> string list \<Rightarrow> string list \<Rightarrow> gotime \<Rightarrow> int \<Rightarrow> int \<Rightarrow>
    'db world \<times> (authorization_error + unit)" where
  "upsert E w userID clientID scopes allowedClaims grantedAt expectedIdentity expectedAuthorization =
     (if userID = uuid_Nil \<or> TrimSpace clientID = [] then (w, Inl AuthInvalid)
      else case NewUUID E w of (w1, i) \<Rightarrow>
        transact E (AuthSql SqlUnavailable) w1
          (upsert_tx i userID clientID (canonicalScopes scopes) (canonicalScopes allowedClaims) grantedAt
             expectedIdentity expectedAuthorization))"

definition Upsert :: "env \<Rightarrow> 'db world \<Rightarrow> uuid \<Rightarrow> string \<Rightarrow> string list \<Rightarrow> string list \<Rightarrow> gotime \<Rightarrow>
    'db world \<times> (authorization_error + unit)" where
  "Upsert E w userID clientID scopes allowedClaims grantedAt =
     upsert E w userID clientID scopes allowedClaims grantedAt 0 0"

definition UpsertExpected :: "env \<Rightarrow> 'db world \<Rightarrow> uuid \<Rightarrow> string \<Rightarrow> string list \<Rightarrow> string list \<Rightarrow> gotime \<Rightarrow> int \<Rightarrow> int \<Rightarrow>
    'db world \<times> (authorization_error + unit)" where
  "UpsertExpected E w userID clientID scopes allowedClaims grantedAt identityRevision authorizationRevision =
     (if identityRevision < 1 \<or> authorizationRevision < 1 then (w, Inl AuthInvalid)
      else upsert E w userID clientID scopes allowedClaims grantedAt identityRevision authorizationRevision)"

definition mark_used :: "gotime \<Rightarrow> oauth_authorization \<Rightarrow> oauth_authorization" where
  "mark_used at a =
     a\<lparr>oa_LastUsedAt := Some (case oa_LastUsedAt a of None \<Rightarrow> at | Some l \<Rightarrow> max l at),
       oa_UpdatedAt := max (oa_UpdatedAt a) at\<rparr>"

definition MarkUsed :: "env \<Rightarrow> 'db world \<Rightarrow> uuid \<Rightarrow> string \<Rightarrow> gotime \<Rightarrow> 'db world \<times> (authorization_error + unit)" where
  "MarkUsed E w userID clientID usedAt =
     (if userID = uuid_Nil \<or> TrimSpace clientID = [] \<or> usedAt = 0 then (w, Inl AuthInvalid)
      else transact E (AuthSql SqlUnavailable) w (\<lambda>t.
        case map_of (t_authorizations t) (userID, clientID) of
          None \<Rightarrow> Inl AuthNotFound
        | Some a \<Rightarrow>
            (if oa_RevokedAt a \<noteq> None then Inl AuthNotFound
             else Inr (t\<lparr>t_authorizations :=
                      AList.update (userID, clientID) (mark_used (pg_time usedAt) a) (t_authorizations t)\<rparr>, ()))))"

definition GetActive :: "env \<Rightarrow> 'db world \<Rightarrow> uuid \<Rightarrow> string \<Rightarrow> 'db world \<times> (authorization_error + oauth_authorization)" where
  "GetActive E w userID clientID =
     (case query E w (\<lambda>t. case map_of (t_authorizations t) (userID, clientID) of
             None \<Rightarrow> Inl SqlNoRows
           | Some a \<Rightarrow> if oa_RevokedAt a \<noteq> None then Inl SqlNoRows else Inr a) of
        (w1, Inl SqlNoRows) \<Rightarrow> (w1, Inl AuthNotFound)
      | (w1, Inl e) \<Rightarrow> (w1, Inl (AuthSql e))
      | (w1, Inr a) \<Rightarrow> (w1, Inr a))"

definition revoke_tx :: "uuid \<Rightarrow> string \<Rightarrow> gotime \<Rightarrow> sql_tables \<Rightarrow> authorization_error + (sql_tables \<times> unit)" where
  "revoke_tx userID clientID revokedAt t =
     (case map_of (t_authorizations t) (userID, clientID) of
        None \<Rightarrow> Inl AuthNotFound
      | Some a \<Rightarrow>
          (if oa_RevokedAt a \<noteq> None then Inl AuthNotFound
           else if oa_GrantedAt a > revokedAt then Inl AuthNewer
           else Inr (t\<lparr>t_authorizations := AList.update (userID, clientID)
                    (a\<lparr>oa_RevokedAt := Some (pg_time revokedAt), oa_UpdatedAt := pg_time revokedAt\<rparr>)
                    (t_authorizations t)\<rparr>, ())))"

definition Revoke :: "env \<Rightarrow> 'db world \<Rightarrow> uuid \<Rightarrow> string \<Rightarrow> gotime \<Rightarrow> 'db world \<times> (authorization_error + unit)" where
  "Revoke E w userID clientID revokedAt =
     transact E (AuthSql SqlUnavailable) w (revoke_tx userID clientID revokedAt)"

definition IsNotFound :: "authorization_error \<Rightarrow> bool" where
  "IsNotFound e \<longleftrightarrow> e = AuthNotFound \<or> e = AuthSql SqlNoRows"

text \<open>
  \<open>ListByUser\<close>: the active grants with the present state of their clients, the most recently
  used first, then the most recently granted, then by identifier. An unused grant sorts last.
\<close>

record grant_view =
  gv_Grant :: oauth_authorization
  gv_ClientName :: string
  gv_LogoURL :: string
  gv_CurrentIdentityRevision :: int
  gv_CurrentAuthorizationRevision :: int
  gv_ApplicationChanged :: bool
  gv_ReauthorizationRequired :: bool

definition scanAuthorization :: "oauth_authorization \<Rightarrow> oauth_client \<Rightarrow> grant_view" where
  "scanAuthorization a c =
     \<lparr>gv_Grant = a, gv_ClientName = oc_Name c,
      gv_LogoURL = (case oc_CurrentLogoID c of
          None \<Rightarrow> [] | Some i \<Rightarrow> ''/media/client-logos/'' @ i @ ''/128.webp''),
      gv_CurrentIdentityRevision = oc_IdentityRevision c,
      gv_CurrentAuthorizationRevision = oc_AuthorizationRevision c,
      gv_ApplicationChanged = (oa_ClientIdentityRevision a \<noteq> oc_IdentityRevision c),
      gv_ReauthorizationRequired = (oa_ClientAuthorizationRevision a \<noteq> oc_AuthorizationRevision c)\<rparr>"

definition grant_order :: "grant_view \<Rightarrow> (bool \<times> int) \<times> int \<times> string" where
  "grant_order v = (case oa_LastUsedAt (gv_Grant v) of None \<Rightarrow> (False, 0) | Some t \<Rightarrow> (True, t),
     oa_GrantedAt (gv_Grant v), oa_ID (gv_Grant v))"

definition ListByUser :: "env \<Rightarrow> 'db world \<Rightarrow> uuid \<Rightarrow> 'db world \<times> (sql_error + grant_view list)" where
  "ListByUser E w userID =
     query E w (\<lambda>t. Inr (rev (sort_key grant_order (List.map_filter (\<lambda>(k, a).
        if oa_UserID a = userID \<and> oa_RevokedAt a = None
        then map_option (scanAuthorization a) (map_of (t_clients t) (oa_ClientID a)) else None)
        (t_authorizations t)))))"

section \<open>Lemmas\<close>

lemma set_canonical_loop:
  "set (canonical_loop result scopes) = set result \<union> (TrimSpace ` set scopes - {[]})"
  by (induction result scopes rule: canonical_loop.induct) (auto simp: Let_def)

lemma distinct_canonical_loop: "distinct result \<Longrightarrow> distinct (canonical_loop result scopes)"
  by (induction result scopes rule: canonical_loop.induct) (auto simp: Let_def)

lemma canonicalScopes_facts:
  "sorted (canonicalScopes scopes)" "distinct (canonicalScopes scopes)"
  "set (canonicalScopes scopes) = TrimSpace ` set scopes - {[]}"
  by (simp_all add: canonicalScopes_def set_canonical_loop distinct_canonical_loop)

text \<open>The row of a user and a client, and what an operation may do to it.\<close>

definition grant_row :: "sql_tables \<Rightarrow> uuid \<Rightarrow> string \<Rightarrow> oauth_authorization option" where
  "grant_row t u c = map_of (t_authorizations t) (u, c)"

definition revoked_after_grant :: "sql_tables \<Rightarrow> bool" where
  "revoked_after_grant t \<longleftrightarrow>
     (\<forall>u c a r. grant_row t u c = Some a \<and> oa_RevokedAt a = Some r \<longrightarrow> oa_GrantedAt a \<le> r)"

lemma grant_row_update [simp]:
  "grant_row (t\<lparr>t_authorizations := AList.update k a (t_authorizations t)\<rparr>) u c =
     (if (u, c) = k then Some a else grant_row t u c)"
  by (cases k) (auto simp: grant_row_def update_conv')

text \<open>
  The moves of a row: a grant replaces it when it is not older than the row and newer than the
  revocation, a use touches it, a revocation ends it.
\<close>

inductive grant_step :: "oauth_authorization option \<Rightarrow> oauth_authorization option \<Rightarrow> bool" where
  grant_first: "oa_RevokedAt b = None \<Longrightarrow> grant_step None (Some b)"
| grant_renewed: "oa_GrantedAt a \<le> oa_GrantedAt b \<Longrightarrow> (\<And>r. oa_RevokedAt a = Some r \<Longrightarrow> r < oa_GrantedAt b) \<Longrightarrow>
    oa_RevokedAt b = None \<Longrightarrow> oa_ID b = oa_ID a \<Longrightarrow> grant_step (Some a) (Some b)"
| grant_used: "oa_RevokedAt a = None \<Longrightarrow> grant_step (Some a) (Some (mark_used at a))"
| grant_revoked: "oa_RevokedAt a = None \<Longrightarrow> oa_GrantedAt a \<le> r \<Longrightarrow>
    grant_step (Some a) (Some (a\<lparr>oa_RevokedAt := Some (pg_time r), oa_UpdatedAt := pg_time r\<rparr>))"

inductive_cases grant_stepE: "grant_step x y"

lemma renew_step: "renew a b = a \<or> (oa_RevokedAt b = None \<longrightarrow> grant_step (Some a) (Some (renew a b)))"
  by (auto simp: renew_def intro!: grant_renewed split: option.splits)

definition grants_move :: "sql_tables \<Rightarrow> sql_tables \<Rightarrow> bool" where
  "grants_move t t' \<longleftrightarrow>
     (\<forall>u c. grant_row t' u c = grant_row t u c \<or> grant_step (grant_row t u c) (grant_row t' u c))"

lemma grants_move_refl [simp]: "grants_move t t"
  by (simp add: grants_move_def)

lemma grants_move_update:
  assumes "grant_row t u c = Some a \<and> b = a \<or> grant_step (grant_row t u c) (Some b)"
  shows "grants_move t (t\<lparr>t_authorizations := AList.update (u, c) b (t_authorizations t)\<rparr>)"
  using assms by (auto simp: grants_move_def)

lemma upsert_tx_moves:
  assumes "upsert_tx i u c sc ac g ei ea t = Inr (t', x)"
  shows "grants_move t t'"
proof -
  obtain cl where cl: "map_of (t_clients t) c = Some cl" using assms by (auto simp: upsert_tx_def split: option.splits)
  let ?new = "proposed_grant i u cl c sc ac g"
  have live: "oa_RevokedAt ?new = None" by (simp add: proposed_grant_def)
  have t': "t' = t\<lparr>t_authorizations := AList.update (u, c)
      (case grant_row t u c of None \<Rightarrow> ?new | Some old \<Rightarrow> renew old ?new) (t_authorizations t)\<rparr>"
    using assms cl by (auto simp: upsert_tx_def Let_def grant_row_def split: if_splits option.splits)
  show ?thesis
  proof (cases "grant_row t u c")
    case None
    with t' show ?thesis using live by (auto intro!: grants_move_update grant_first)
  next
    case (Some a)
    with t' show ?thesis using renew_step [of a ?new] live grants_move_update [of t u c a "renew a ?new"] by auto
  qed
qed

lemma revoke_tx_moves: "revoke_tx u c r t = Inr (t', x) \<Longrightarrow> grants_move t t'"
  by (auto simp: revoke_tx_def grant_row_def [symmetric] intro!: grants_move_update grant_revoked
      split: option.splits if_splits)

text \<open>Every operation of the store moves every row along the relation, or leaves it alone.\<close>

lemma upsert_moves: "grants_move (w_sql w) (w_sql (fst (upsert E w u c sc ac g ei ea)))"
proof -
  obtain w1 i where w1: "NewUUID E w = (w1, i)" by (cases "NewUUID E w")
  then have "w_sql w1 = w_sql w" using world_simps(8) [of E w] by simp
  then show ?thesis
    using transact_relates [of grants_move "upsert_tx i u c (canonicalScopes sc) (canonicalScopes ac) g ei ea" w1,
        OF grants_move_refl upsert_tx_moves] w1
    by (simp add: upsert_def)
qed

lemma Upsert_moves:
  "grants_move (w_sql w) (w_sql (fst (Upsert E w u c sc ac g)))"
  "grants_move (w_sql w) (w_sql (fst (UpsertExpected E w u c sc ac g ei ea)))"
  by (simp_all add: Upsert_def UpsertExpected_def upsert_moves)

lemma Revoke_moves: "grants_move (w_sql w) (w_sql (fst (Revoke E w u c r)))"
  unfolding Revoke_def by (rule transact_relates [OF grants_move_refl revoke_tx_moves])

lemma MarkUsed_moves: "grants_move (w_sql w) (w_sql (fst (MarkUsed E w u c at)))"
  by (auto simp: MarkUsed_def grant_row_def [symmetric]
      intro!: transact_relates [of grants_move] grants_move_update grant_used
      split: option.splits if_splits)

section \<open>Sequences of operations\<close>

datatype grant_op = Op_upsert uuid string "string list" "string list" gotime int int
  | Op_mark_used uuid string gotime | Op_revoke uuid string gotime

fun grant_exec :: "env \<Rightarrow> grant_op \<Rightarrow> 'db world \<Rightarrow> 'db world" where
  "grant_exec E (Op_upsert u c sc ac g ei ea) w = fst (UpsertExpected E w u c sc ac g ei ea)"
| "grant_exec E (Op_mark_used u c at) w = fst (MarkUsed E w u c at)"
| "grant_exec E (Op_revoke u c r) w = fst (Revoke E w u c r)"

definition grant_run :: "env \<Rightarrow> grant_op list \<Rightarrow> 'db world \<Rightarrow> 'db world" where
  "grant_run E ops w = fold (grant_exec E) ops w"

lemma grant_exec_moves: "grants_move (w_sql w) (w_sql (grant_exec E op w))"
  by (cases op) (simp_all add: Upsert_moves MarkUsed_moves Revoke_moves)

lemma grant_run_steps:
  "grant_step\<^sup>*\<^sup>* (grant_row (w_sql w) u c) (grant_row (w_sql (grant_run E ops w)) u c)"
proof (induction ops arbitrary: w)
  case (Cons op ops)
  have "grant_step\<^sup>*\<^sup>* (grant_row (w_sql w) u c) (grant_row (w_sql (grant_exec E op w)) u c)"
    using grant_exec_moves [of w E op] unfolding grants_move_def
    by (metis r_into_rtranclp rtranclp.rtrancl_refl)
  with Cons.IH [of "grant_exec E op w"] show ?case by (simp add: grant_run_def)
qed (simp add: grant_run_def)

text \<open>
  A row on which a revocation at \<open>r\<close> has been recorded: it is active only under a grant newer
  than \<open>r\<close>, and a revocation recorded on it later is no earlier.
\<close>

definition ended :: "gotime \<Rightarrow> oauth_authorization option \<Rightarrow> bool" where
  "ended r row \<longleftrightarrow> (\<exists>a. row = Some a \<and> (oa_RevokedAt a = None \<longrightarrow> r < oa_GrantedAt a) \<and>
     (\<forall>q. oa_RevokedAt a = Some q \<longrightarrow> r \<le> q))"

lemma mark_used_simps [simp]:
  "oa_RevokedAt (mark_used at a) = oa_RevokedAt a" "oa_GrantedAt (mark_used at a) = oa_GrantedAt a"
  by (simp_all add: mark_used_def)

lemma ended_step: "grant_step x y \<Longrightarrow> ended (pg_time r) x \<Longrightarrow> ended (pg_time r) y"
proof (induction rule: grant_step.induct)
  case (grant_revoked a q)
  then have "pg_time r \<le> q" by (auto simp: ended_def)
  then have "pg_time (pg_time r) \<le> pg_time q" by (rule pg_time_mono)
  then show ?case by (simp add: ended_def)
next
  case (grant_renewed a b)
  then show ?case by (cases "oa_RevokedAt a") (fastforce simp: ended_def)+
qed (auto simp: ended_def)

lemma ended_run: "ended (pg_time r) (grant_row (w_sql w) u c) \<Longrightarrow> ended (pg_time r) (grant_row (w_sql (grant_run E ops w)) u c)"
  using grant_run_steps [of w u c E ops] by (induction rule: rtranclp_induct) (auto intro: ended_step)

lemma Revoke_ended: "Revoke E w u c r = (w', Inr ()) \<Longrightarrow> ended (pg_time r) (grant_row (w_sql w') u c)"
  unfolding Revoke_def
  by (erule transact_Inr) (auto simp: revoke_tx_def ended_def split: option.splits if_splits)

lemma GetActive_Inr: "GetActive E w u c = (w', Inr a) \<Longrightarrow> grant_row (w_sql w) u c = Some a \<and> oa_RevokedAt a = None"
  by (auto simp: GetActive_def query_def grant_row_def
      split: sql_fate.splits option.splits if_splits prod.splits sum.splits sql_error.splits)

text \<open>A renewal that takes effect stores exactly the canonical scopes and claims of the decision.\<close>

lemma UpsertExpected_Inr:
  assumes "UpsertExpected E w u c sc ac g ei ea = (w', Inr ())"
  obtains a cl where "grant_row (w_sql w') u c = Some a" and "map_of (t_clients (w_sql w)) c = Some cl"
    and "oc_IdentityRevision cl = ei" and "oc_AuthorizationRevision cl = ea"
    and "w_redis w' = w_redis w"
    and "grant_row (w_sql w) u c = Some a \<or>
      oa_Scopes a = canonicalScopes sc \<and> oa_AllowedClaims a = canonicalScopes ac \<and>
      oa_GrantedAt a = pg_time g \<and> oa_RevokedAt a = None \<and>
      oa_ClientIdentityRevision a = ei \<and> oa_ClientAuthorizationRevision a = ea"
proof -
  obtain w1 i where w1: "NewUUID E w = (w1, i)" by (cases "NewUUID E w")
  then have e: "w_sql w1 = w_sql w" "w_redis w1 = w_redis w" using world_simps(7,8) [of E w] by simp_all
  have pos: "1 \<le> ei" "1 \<le> ea" and tr: "transact E (AuthSql SqlUnavailable) w1
      (upsert_tx i u c (canonicalScopes sc) (canonicalScopes ac) g ei ea) = (w', Inr ())"
    using assms w1 by (auto simp: UpsertExpected_def upsert_def split: if_splits)
  from tr obtain t where t: "upsert_tx i u c (canonicalScopes sc) (canonicalScopes ac) g ei ea (w_sql w) = Inr (t, ())"
      "w' = (tick w1)\<lparr>w_sql := t\<rparr>"
    by (rule transact_Inr) (simp add: e)
  then obtain cl where cl: "map_of (t_clients (w_sql w)) c = Some cl"
      "oc_IdentityRevision cl = ei" "oc_AuthorizationRevision cl = ea"
    using pos by (auto simp: upsert_tx_def split: option.splits if_splits)
  let ?new = "proposed_grant i u cl c (canonicalScopes sc) (canonicalScopes ac) g"
  have row: "grant_row t u c = Some (case grant_row (w_sql w) u c of None \<Rightarrow> ?new | Some old \<Rightarrow> renew old ?new)"
    using t(1) cl by (auto simp: upsert_tx_def Let_def grant_row_def update_conv' split: if_splits option.splits)
  show thesis
    by (rule that [OF _ cl]) (use row t(2) e cl in \<open>auto simp: renew_def proposed_grant_def split: option.splits if_splits\<close>)
qed

end
