(* ===== verification/Envelope.thy ===== *)
theory Envelope
  imports Sql_World
begin

text \<open>
  Encryption of secrets at rest, \<open>internal/crypto/envelope.go\<close> and the AES and client-secret
  helpers of \<open>internal/crypto/crypto.go\<close>. AES-256-GCM is a parameter, a pair of functions
  \<open>seal\<close> and \<open>open\<close> of key, nonce, text and additional data; SHA-256 is a parameter. Both
  base64 alphabets are decoded as \<open>encoding/base64\<close> does: line breaks are skipped, trailing bits
  are ignored. A byte slice is a \<^typ>\<open>string\<close>.
\<close>

section \<open>Base64\<close>

definition b64std_alphabet :: string where
  "b64std_alphabet = ''ABCDEFGHIJKLMNOPQRSTUVWXYZabcdefghijklmnopqrstuvwxyz0123456789+/''"

fun char_index :: "string \<Rightarrow> char \<Rightarrow> nat option" where
  "char_index [] c = None"
| "char_index (a # as) c = (if a = c then Some 0 else map_option Suc (char_index as c))"

fun b64_quanta :: "nat list \<Rightarrow> nat list option" where
  "b64_quanta [] = Some []"
| "b64_quanta [a] = None"
| "b64_quanta [a, b] = Some [a * 4 + b div 16]"
| "b64_quanta [a, b, c] = Some [a * 4 + b div 16, b mod 16 * 16 + c div 4]"
| "b64_quanta (a # b # c # d # rest) =
     map_option (\<lambda>bs. (a * 4 + b div 16) # (b mod 16 * 16 + c div 4) # (c mod 4 * 64 + d) # bs) (b64_quanta rest)"

definition b64_decode :: "string \<Rightarrow> string \<Rightarrow> string option" where
  "b64_decode alphabet s =
     (case those (map (char_index alphabet) (filter (\<lambda>c. c \<noteq> CHR 0x0D \<and> c \<noteq> CHR 0x0A) s)) of
        None \<Rightarrow> None
      | Some sextets \<Rightarrow> map_option (map char_of) (b64_quanta sextets))"

definition b64url_text :: "string \<Rightarrow> string" where
  "b64url_text s = b64url_encode (map byte s)"

definition b64std_char :: "char \<Rightarrow> char" where
  "b64std_char c = (if c = CHR ''-'' then CHR ''+'' else if c = CHR ''_'' then CHR 0x2F else c)"

definition b64std_text :: "string \<Rightarrow> string" where
  "b64std_text s = map b64std_char (b64url_text s)"

section \<open>Client secrets\<close>

definition HashClientSecret :: "(string \<Rightarrow> string) \<Rightarrow> string \<Rightarrow> string" where
  "HashClientSecret sha256 secret = ''$sha256$'' @ b64std_text (sha256 secret)"

definition VerifyClientSecret :: "(string \<Rightarrow> string) \<Rightarrow> string \<Rightarrow> string \<Rightarrow> bool" where
  "VerifyClientSecret sha256 secret encodedHash =
     (if \<not> HasPrefix encodedHash ''$sha256$'' then False
      else case b64_decode b64std_alphabet (drop (length ''$sha256$'') encodedHash) of
             None \<Rightarrow> False
           | Some expected \<Rightarrow>
               (if length expected \<noteq> 32 then False else expected = sha256 secret))"

section \<open>Envelopes\<close>

record gcm =
  gcm_seal :: "string \<Rightarrow> string \<Rightarrow> string \<Rightarrow> string \<Rightarrow> string"
  gcm_open :: "string \<Rightarrow> string \<Rightarrow> string \<Rightarrow> string \<Rightarrow> string option"

definition NonceSize :: nat where "NonceSize = 12"
definition Overhead :: nat where "Overhead = 16"

datatype envelope_error = ErrInvalidEnvelope | ErrUnknownEnvelopeKey | EnvelopeKeyLength | EnvelopeLabel
  | EnvelopePurpose | EnvelopeNonce | EnvelopeOpen

definition envelopeVersion :: string where "envelopeVersion = ''v1''"

definition label_char :: "char \<Rightarrow> bool" where
  "label_char c \<longleftrightarrow>
     97 \<le> byte c \<and> byte c \<le> 122 \<or> 65 \<le> byte c \<and> byte c \<le> 90 \<or> 48 \<le> byte c \<and> byte c \<le> 57 \<or>
     c = CHR ''-'' \<or> c = CHR ''_'' \<or> c = CHR ''.''"

definition validEnvelopeLabel :: "string \<Rightarrow> bool" where
  "validEnvelopeLabel s = (if s = [] \<or> length s > 64 then False else list_all label_char s)"

definition envelopeAAD :: "string \<Rightarrow> string \<Rightarrow> string \<Rightarrow> string" where
  "envelopeAAD keyID purpose aad =
     envelopeVersion @ [CHR 0x00] @ keyID @ [CHR 0x00] @ purpose @ [CHR 0x00] @ aad"

fun Split :: "char \<Rightarrow> string \<Rightarrow> string list" where
  "Split sep [] = [[]]"
| "Split sep (c # cs) =
     (if c = sep then [] # Split sep cs
      else case Split sep cs of [] \<Rightarrow> [[c]] | p # ps \<Rightarrow> (c # p) # ps)"

definition ParseEnvelope :: "string \<Rightarrow> envelope_error + (string \<times> string \<times> string)" where
  "ParseEnvelope envelope =
     (case Split (CHR '':'') envelope of
        [version, keyID, payload] \<Rightarrow>
          (if version = [] \<or> \<not> validEnvelopeLabel keyID \<or> payload = [] then Inl ErrInvalidEnvelope
           else Inr (version, keyID, payload))
      | _ \<Rightarrow> Inl ErrInvalidEnvelope)"

definition EncryptEnvelope ::
    "gcm \<Rightarrow> env \<Rightarrow> 'db world \<Rightarrow> string \<Rightarrow> string \<Rightarrow> string \<Rightarrow> string \<Rightarrow> string \<Rightarrow> 'db world \<times> (envelope_error + string)" where
  "EncryptEnvelope G E w masterKey keyID purpose plaintext aad =
     (if length masterKey \<noteq> 32 then (w, Inl EnvelopeKeyLength)
      else if \<not> validEnvelopeLabel keyID then (w, Inl EnvelopeLabel)
      else if purpose = [] then (w, Inl EnvelopePurpose)
      else case e_rand E (w_tick w) NonceSize of
             None \<Rightarrow> (tick w, Inl EnvelopeNonce)
           | Some bytes \<Rightarrow>
               (let nonce = map char_of bytes;
                    sealed = nonce @ gcm_seal G masterKey nonce plaintext (envelopeAAD keyID purpose aad)
                in (tick w, Inr (Join [envelopeVersion, keyID, b64url_text sealed] '':''))))"

definition DecryptEnvelope ::
    "gcm \<Rightarrow> (string \<times> string) list \<Rightarrow> string \<Rightarrow> string \<Rightarrow> string \<Rightarrow> envelope_error + string" where
  "DecryptEnvelope G masterKeys purpose envelope aad =
     (case ParseEnvelope envelope of
        Inl e \<Rightarrow> Inl e
      | Inr (version, keyID, payload) \<Rightarrow>
          (if version \<noteq> envelopeVersion then Inl ErrInvalidEnvelope
           else case map_of masterKeys keyID of
             None \<Rightarrow> Inl ErrUnknownEnvelopeKey
           | Some masterKey \<Rightarrow>
               (if length masterKey \<noteq> 32 then Inl EnvelopeKeyLength
                else if purpose = [] then Inl EnvelopePurpose
                else case b64_decode b64url_alphabet payload of
                  None \<Rightarrow> Inl ErrInvalidEnvelope
                | Some sealed \<Rightarrow>
                    (if length sealed < NonceSize + Overhead then Inl ErrInvalidEnvelope
                     else case gcm_open G masterKey (take NonceSize sealed) (drop NonceSize sealed)
                                 (envelopeAAD keyID purpose aad) of
                            None \<Rightarrow> Inl EnvelopeOpen
                          | Some plaintext \<Rightarrow> Inr plaintext))))"

definition Encrypt :: "gcm \<Rightarrow> env \<Rightarrow> 'db world \<Rightarrow> string \<Rightarrow> string \<Rightarrow> 'db world \<times> (envelope_error + string)" where
  "Encrypt G E w plaintext key =
     (if length key \<noteq> 32 then (w, Inl EnvelopeKeyLength)
      else case e_rand E (w_tick w) NonceSize of
             None \<Rightarrow> (tick w, Inl EnvelopeNonce)
           | Some bytes \<Rightarrow>
               (let nonce = map char_of bytes in (tick w, Inr (nonce @ gcm_seal G key nonce plaintext []))))"

definition Decrypt :: "gcm \<Rightarrow> string \<Rightarrow> string \<Rightarrow> envelope_error + string" where
  "Decrypt G ciphertext key =
     (if length key \<noteq> 32 then Inl EnvelopeKeyLength
      else if length ciphertext < NonceSize then Inl ErrInvalidEnvelope
      else case gcm_open G key (take NonceSize ciphertext) (drop NonceSize ciphertext) [] of
             None \<Rightarrow> Inl EnvelopeOpen
           | Some plaintext \<Rightarrow> Inr plaintext)"

section \<open>Lemmas\<close>

text \<open>Decoding what was encoded, in both alphabets.\<close>

lemma char_index_nth:
  "distinct as \<Longrightarrow> i < length as \<Longrightarrow> char_index as (as ! i) = Some i"
  by (induction as arbitrary: i) (auto simp: less_Suc_eq_0_disj nth_eq_iff_index_eq)

lemma alphabet_facts:
  "distinct b64url_alphabet" "length b64url_alphabet = 64"
  "distinct b64std_alphabet" "length b64std_alphabet = 64"
  "map b64std_char b64url_alphabet = b64std_alphabet"
  by (simp_all add: b64url_alphabet_def b64std_alphabet_def b64std_char_def)

lemma char_index_url: "n < 64 \<Longrightarrow> char_index b64url_alphabet (b64url_char n) = Some n"
  using char_index_nth [OF alphabet_facts(1), of n] by (simp add: b64url_char_def alphabet_facts(2))

lemma char_index_std: "n < 64 \<Longrightarrow> char_index b64std_alphabet (b64std_char (b64url_char n)) = Some n"
proof -
  assume n: "n < 64"
  then have "b64std_char (b64url_char n) = b64std_alphabet ! n"
    using nth_map [of n b64url_alphabet b64std_char] by (simp add: b64url_char_def alphabet_facts(2,5))
  with n show ?thesis using char_index_nth [OF alphabet_facts(3), of n] by (simp add: alphabet_facts(4))
qed

fun sextets :: "nat list \<Rightarrow> nat list" where
  "sextets [] = []"
| "sextets [a] = [a div 4, a mod 4 * 16]"
| "sextets [a, b] = [a div 4, a mod 4 * 16 + b div 16, b mod 16 * 4]"
| "sextets (a # b # c # rest) =
     (a div 4) # (a mod 4 * 16 + b div 16) # (b mod 16 * 4 + c div 64) # (c mod 64) # sextets rest"

lemma b64url_encode_sextets: "b64url_encode bs = map b64url_char (sextets bs)"
  by (induction bs rule: sextets.induct) simp_all

lemma sextets_bound: "\<forall>b \<in> set bs. b < 256 \<Longrightarrow> \<forall>x \<in> set (sextets bs). x < 64"
proof (induction bs rule: sextets.induct)
  case (4 a b c rest)
  then show ?case using sextet_bound [of a b] sextet_bound [of b c] by simp
next
  case (3 a b)
  then show ?case using sextet_bound [of a b] sextet_bound [of b 0] by simp
next
  case (2 a)
  then show ?case using sextet_bound [of a 0] by simp
qed simp

lemma quantum_values:
  "a div 4 * 4 + (a mod 4 * 16 + b div 16) div 16 = (a::nat)" if "b < 256"
proof -
  have "b div 16 < 16" using that by simp
  then have "(a mod 4 * 16 + b div 16) div 16 = a mod 4" by simp
  then show ?thesis by simp
qed

lemma quantum_values2:
  "(a mod 4 * 16 + b div 16) mod 16 * 16 + (b mod 16 * 4 + c div 64) div 4 = (b::nat)" if "b < 256" "c < 256"
proof -
  have "b div 16 < 16" "c div 64 < 4" using that by simp_all
  then have "(a mod 4 * 16 + b div 16) mod 16 = b div 16" "(b mod 16 * 4 + c div 64) div 4 = b mod 16" by simp_all
  then show ?thesis by simp
qed

lemma quantum_values3: "(b mod 16 * 4 + c div 64) mod 4 * 64 + c mod 64 = (c::nat)" if "c < 256"
proof -
  have "c div 64 < 4" using that by simp
  then have "(b mod 16 * 4 + c div 64) mod 4 = c div 64" by simp
  then show ?thesis by simp
qed

lemma b64_quanta_sextets: "\<forall>b \<in> set bs. b < 256 \<Longrightarrow> b64_quanta (sextets bs) = Some bs"
proof (induction bs rule: sextets.induct)
  case (2 a)
  then show ?case using quantum_values [of 0 a] by simp
next
  case (3 a b)
  then show ?case using quantum_values [of b a] quantum_values2 [of b 0 a] by simp
next
  case (4 a b c rest)
  then show ?case using quantum_values [of b a] quantum_values2 [of b c a] quantum_values3 [of c b] by simp
qed simp

lemma those_map_Some: "\<forall>x \<in> set xs. f x = Some (g x) \<Longrightarrow> those (map f xs) = Some (map g xs)"
  by (induction xs) auto

lemma b64_decode_encoded:
  assumes "\<And>n. n < 64 \<Longrightarrow> char_index alphabet (tr (b64url_char n)) = Some n"
    and "\<And>n. n < 64 \<Longrightarrow> tr (b64url_char n) \<noteq> CHR 0x0D \<and> tr (b64url_char n) \<noteq> CHR 0x0A"
  shows "b64_decode alphabet (map tr (b64url_text s)) = Some s"
proof -
  let ?ss = "sextets (map byte s)"
  have b: "\<forall>b \<in> set (map byte s). b < 256" by (simp add: byte_less)
  note lt = sextets_bound [OF b]
  have "filter (\<lambda>c. c \<noteq> CHR 0x0D \<and> c \<noteq> CHR 0x0A) (map tr (map b64url_char ?ss)) = map tr (map b64url_char ?ss)"
    by (rule filter_True) (use lt assms(2) in auto)
  moreover have "those (map (char_index alphabet) (map tr (map b64url_char ?ss))) = Some ?ss"
    using those_map_Some [of ?ss "\<lambda>n. char_index alphabet (tr (b64url_char n))" id] lt assms(1) by (simp add: comp_def)
  moreover have "map char_of (map byte s) = s" by (simp add: byte_def comp_def)
  ultimately show ?thesis
    by (simp add: b64_decode_def b64url_text_def b64url_encode_sextets b64_quanta_sextets [OF b])
qed

lemma b64url_roundtrip: "b64_decode b64url_alphabet (b64url_text s) = Some s"
proof -
  have "b64url_char n \<noteq> CHR 0x0D \<and> b64url_char n \<noteq> CHR 0x0A" for n
    using b64url_char_in [of n] by (auto simp: b64url_alphabet_def)
  from b64_decode_encoded [of b64url_alphabet id, OF _ _] this char_index_url show ?thesis by simp
qed

lemma b64std_roundtrip: "b64_decode b64std_alphabet (b64std_text s) = Some s"
proof -
  have "b64std_char (b64url_char n) \<noteq> CHR 0x0D \<and> b64std_char (b64url_char n) \<noteq> CHR 0x0A" for n
    using b64url_char_in [of n] by (auto simp: b64url_alphabet_def b64std_char_def)
  then show ?thesis
    unfolding b64std_text_def by (intro b64_decode_encoded char_index_std)
qed

text \<open>The pieces of an envelope.\<close>

lemma Split_no_sep: "sep \<notin> set s \<Longrightarrow> Split sep s = [s]"
  by (induction s) auto

lemma Split_append: "sep \<notin> set s \<Longrightarrow> Split sep (s @ sep # t) = s # Split sep t"
  by (induction s) auto

lemma label_no_sep: "validEnvelopeLabel s \<Longrightarrow> CHR '':'' \<notin> set s \<and> CHR 0x00 \<notin> set s"
  by (auto simp: validEnvelopeLabel_def label_char_def list_all_iff byte_def split: if_splits)

lemma b64url_no_sep: "CHR '':'' \<notin> set (b64url_text s)"
  using b64url_encode_alphabet [of "map byte s"] by (auto simp: b64url_text_def b64url_alphabet_def)

lemma ParseEnvelope_joined:
  assumes "validEnvelopeLabel keyID" and "s \<noteq> []"
  shows "ParseEnvelope (Join [envelopeVersion, keyID, b64url_text s] '':'') = Inr (envelopeVersion, keyID, b64url_text s)"
proof -
  have "b64url_text s \<noteq> []"
    using length_b64url_encode [of "map byte s"] assms(2) by (cases s) (auto simp: b64url_text_def)
  moreover have "CHR '':'' \<notin> set envelopeVersion" "envelopeVersion \<noteq> []" by (simp_all add: envelopeVersion_def)
  ultimately show ?thesis
    using label_no_sep [OF assms(1)] assms(1) b64url_no_sep [of s]
    by (simp add: ParseEnvelope_def Split_append Split_no_sep)
qed

text \<open>The additional data determine the key identifier, the purpose and the bound data.\<close>

lemma append_sep_inj:
  "sep \<notin> set a \<Longrightarrow> sep \<notin> set b \<Longrightarrow> a @ sep # s = b @ sep # t \<Longrightarrow> a = b \<and> s = t"
  by (induction a arbitrary: b) (auto simp: Cons_eq_append_conv)

lemma envelopeAAD_inj:
  assumes "validEnvelopeLabel k" "validEnvelopeLabel k'" "CHR 0x00 \<notin> set p" "CHR 0x00 \<notin> set p'"
    and "envelopeAAD k p a = envelopeAAD k' p' a'"
  shows "k = k' \<and> p = p' \<and> a = a'"
proof -
  have "k @ CHR 0x00 # p @ CHR 0x00 # a = k' @ CHR 0x00 # p' @ CHR 0x00 # a'"
    using assms(5) by (simp add: envelopeAAD_def)
  with label_no_sep [OF assms(1)] label_no_sep [OF assms(2)]
  have "k = k' \<and> p @ CHR 0x00 # a = p' @ CHR 0x00 # a'" by (intro append_sep_inj [of "CHR 0x00"]) auto
  with append_sep_inj [of "CHR 0x00" p p' a a'] assms(3,4) show ?thesis by blast
qed

text \<open>
  What is relied on: opening undoes sealing and accepts nothing else (the tag is a function of
  key, nonce, text and additional data), the tag is sixteen bytes long, and a request for random
  bytes is answered with that many bytes.
\<close>

definition gcm_laws :: "gcm \<Rightarrow> bool" where
  "gcm_laws G \<longleftrightarrow>
     (\<forall>k n p c a. gcm_open G k n c a = Some p \<longleftrightarrow> c = gcm_seal G k n p a) \<and>
     (\<forall>k n p a. length (gcm_seal G k n p a) = length p + Overhead)"

definition rand_laws :: "env \<Rightarrow> bool" where
  "rand_laws E \<longleftrightarrow> (\<forall>i n bs. e_rand E i n = Some bs \<longrightarrow> length bs = n)"

lemma EncryptEnvelope_Inr:
  assumes "EncryptEnvelope G E w masterKey keyID purpose plaintext aad = (w', Inr envelope)"
  obtains bytes where "e_rand E (w_tick w) NonceSize = Some bytes" and "w' = tick w"
    and "length masterKey = 32" and "validEnvelopeLabel keyID" and "purpose \<noteq> []"
    and "envelope = Join [envelopeVersion, keyID, b64url_text (map char_of bytes @
      gcm_seal G masterKey (map char_of bytes) plaintext (envelopeAAD keyID purpose aad))] '':''"
  using assms by (auto simp: EncryptEnvelope_def Let_def split: if_splits option.splits)

lemma sealed_envelope:
  assumes "gcm_laws G" and "rand_laws E" and "map_of keys keyID = Some masterKey"
    and "EncryptEnvelope G E w masterKey keyID purpose plaintext aad = (w', Inr envelope)"
  obtains nonce where "length nonce = NonceSize"
    and "DecryptEnvelope G keys purpose' envelope aad' = (if purpose' = [] then Inl EnvelopePurpose
      else case gcm_open G masterKey nonce (gcm_seal G masterKey nonce plaintext (envelopeAAD keyID purpose aad))
             (envelopeAAD keyID purpose' aad') of
        None \<Rightarrow> Inl EnvelopeOpen | Some p \<Rightarrow> Inr p)"
proof -
  obtain bytes where b: "e_rand E (w_tick w) NonceSize = Some bytes" and k: "length masterKey = 32"
    and l: "validEnvelopeLabel keyID"
    and e: "envelope = Join [envelopeVersion, keyID, b64url_text (map char_of bytes @
      gcm_seal G masterKey (map char_of bytes) plaintext (envelopeAAD keyID purpose aad))] '':''"
    using EncryptEnvelope_Inr [OF assms(4)] .
  let ?n = "map char_of bytes :: string"
  have n: "length ?n = NonceSize" using assms(2) b by (auto simp: rand_laws_def)
  then have ne: "?n \<noteq> []" by (auto simp: NonceSize_def)
  have c: "length (gcm_seal G masterKey ?n plaintext (envelopeAAD keyID purpose aad)) = length plaintext + Overhead"
    using assms(1) unfolding gcm_laws_def by blast
  have "DecryptEnvelope G keys purpose' envelope aad' = (if purpose' = [] then Inl EnvelopePurpose
      else case gcm_open G masterKey ?n (gcm_seal G masterKey ?n plaintext (envelopeAAD keyID purpose aad))
             (envelopeAAD keyID purpose' aad') of
        None \<Rightarrow> Inl EnvelopeOpen | Some p \<Rightarrow> Inr p)"
    unfolding e DecryptEnvelope_def using ParseEnvelope_joined [OF l] ne
    by (simp add: assms(3) k b64url_roundtrip n [symmetric] c Overhead_def split: option.splits)
  with n show thesis by (rule that)
qed

lemma DecryptEnvelope_own:
  assumes "gcm_laws G" and "rand_laws E" and "map_of keys keyID = Some masterKey"
    and "EncryptEnvelope G E w masterKey keyID purpose plaintext aad = (w', Inr envelope)"
  shows "DecryptEnvelope G keys purpose envelope aad = Inr plaintext"
proof -
  have "purpose \<noteq> []" using EncryptEnvelope_Inr [OF assms(4)] by blast
  moreover have "gcm_open G masterKey n (gcm_seal G masterKey n plaintext a) a = Some plaintext" for n a
    using assms(1) unfolding gcm_laws_def by blast
  moreover obtain nonce where "DecryptEnvelope G keys purpose envelope aad = (if purpose = [] then Inl EnvelopePurpose
      else case gcm_open G masterKey nonce (gcm_seal G masterKey nonce plaintext (envelopeAAD keyID purpose aad))
             (envelopeAAD keyID purpose aad) of
        None \<Rightarrow> Inl EnvelopeOpen | Some p \<Rightarrow> Inr p)"
    using sealed_envelope [OF assms, of purpose aad] by blast
  ultimately show ?thesis by simp
qed

end
