(* ===== verification/Jwk_Manager.thy ===== *)
theory Jwk_Manager
  imports Envelope
begin

text \<open>
  The signing keys, \<open>internal/auth/jwk.go\<close>: their encrypted storage, their rotation under the
  advisory lock, and the keys that verify. RSA key generation and the PEM and DER codecs are a
  parameter \<open>rsa\<close>, HMAC-SHA256 a parameter \<open>hmac\<close>. The transaction that holds the rotation
  lock excludes every other rotation, so a rotation is one atomic step; an error inside it, or a
  refused commit, leaves the table as it was. The constraints of \<open>jwk_keys\<close> are checked on every
  row that is written.
\<close>

record rsa =
  rsa_generate :: "nat \<Rightarrow> int \<Rightarrow> string option"
  rsa_private_pem :: "string \<Rightarrow> string"
  rsa_public_pem :: "string \<Rightarrow> string option"
  rsa_parse_private :: "string \<Rightarrow> string option"
  rsa_parse_public :: "string \<Rightarrow> string option"

datatype jwk_error = JwkMasterKey | JwkNotConfigured | JwkInvalidParameters | JwkSql sql_error
  | JwkNoPrivateKey | JwkEnvelope envelope_error | JwkInvalidPEM | JwkGeneration

record jwk_manager =
  jm_keySize :: int
  jm_rotation :: duration
  jm_verificationRetention :: duration
  jm_derivedKey :: string

definition jwkEnvelopeKeyID :: string where "jwkEnvelopeKeyID = ''primary''"
definition jwkEnvelopePurpose :: string where "jwkEnvelopePurpose = ''jwk-private-key''"
definition defaultClockSkew :: duration where "defaultClockSkew = 2 * Minute"

definition NewJWKManager :: "int \<Rightarrow> duration \<Rightarrow> jwk_manager" where
  "NewJWKManager keySize rotation =
     \<lparr>jm_keySize = keySize, jm_rotation = rotation,
      jm_verificationRetention = 31 * 24 * Hour + defaultClockSkew, jm_derivedKey = []\<rparr>"

definition Configure :: "(string \<Rightarrow> string \<Rightarrow> string) \<Rightarrow> jwk_manager \<Rightarrow> string \<Rightarrow> duration \<Rightarrow> jwk_error + jwk_manager" where
  "Configure hmac m masterKey maximumTokenTTL =
     (if length masterKey \<noteq> 32 then Inl JwkMasterKey
      else Inr (m\<lparr>jm_derivedKey := hmac masterKey ''nyauth/jwk-private-key/v1'',
        jm_verificationRetention := (if maximumTokenTTL > 0 then maximumTokenTTL + defaultClockSkew
                                     else jm_verificationRetention m)\<rparr>))"

definition requireConfigured :: "jwk_manager \<Rightarrow> jwk_error + unit" where
  "requireConfigured m =
     (if length (jm_derivedKey m) \<noteq> 32 then Inl JwkNotConfigured
      else if jm_keySize m < 2048 \<or> jm_rotation m \<le> 0 then Inl JwkInvalidParameters
      else Inr ())"

section \<open>Changes of the table\<close>

definition jwk_row_ok :: "jwk \<Rightarrow> bool" where
  "jwk_row_ok j \<longleftrightarrow>
     (jk_Status j = JWKStatusSigning \<and> jk_EncryptedPrivateKey j \<noteq> None \<or>
      (jk_Status j = JWKStatusVerification \<or> jk_Status j = JWKStatusRetired) \<and> jk_EncryptedPrivateKey j = None) \<and>
     jk_SigningStartedAt j < jk_VerifyUntil j"

text \<open>\<open>UPDATE jwk_keys SET \<dots> WHERE \<dots>\<close>, refused when a written row violates a constraint.\<close>

definition update_keys :: "(jwk \<Rightarrow> bool) \<Rightarrow> (jwk \<Rightarrow> jwk) \<Rightarrow> 'db world \<Rightarrow> 'db world \<times> (jwk_error + unit)" where
  "update_keys P f w =
     (let rows = t_jwk (w_sql w) in
      if list_all (\<lambda>(k, j). P j \<longrightarrow> jwk_row_ok (f j)) rows
      then (w\<lparr>w_sql := (w_sql w)\<lparr>t_jwk := map (\<lambda>(k, j). (k, if P j then f j else j)) rows\<rparr>\<rparr>, Inr ())
      else (w, Inl (JwkSql SqlConstraint)))"

definition to_verification :: "jwk_manager \<Rightarrow> gotime \<Rightarrow> jwk \<Rightarrow> jwk" where
  "to_verification m now j =
     j\<lparr>jk_Status := JWKStatusVerification, jk_EncryptedPrivateKey := None,
       jk_VerifyUntil := pg_time (now + jm_verificationRetention m), jk_UpdatedAt := pg_time now\<rparr>"

definition to_retired :: "gotime \<Rightarrow> jwk \<Rightarrow> jwk" where
  "to_retired now j =
     j\<lparr>jk_Status := JWKStatusRetired, jk_EncryptedPrivateKey := None, jk_UpdatedAt := pg_time now\<rparr>"

definition insert_key :: "jwk \<Rightarrow> 'db world \<Rightarrow> 'db world \<times> (jwk_error + unit)" where
  "insert_key j w =
     (let rows = t_jwk (w_sql w) in
      if \<not> jwk_row_ok j \<or> map_of rows (jk_Kid j) \<noteq> None \<or>
         (jk_Status j = JWKStatusSigning \<and> list_ex (\<lambda>(k, i). jk_Status i = JWKStatusSigning) rows)
      then (w, Inl (JwkSql SqlConstraint))
      else (w\<lparr>w_sql := (w_sql w)\<lparr>t_jwk := rows @ [(jk_Kid j, j)]\<rparr>\<rparr>, Inr ()))"

definition new_signing_key :: "jwk_manager \<Rightarrow> gotime \<Rightarrow> string \<Rightarrow> string \<Rightarrow> string \<Rightarrow> jwk" where
  "new_signing_key m now kid encrypted publicPEM =
     \<lparr>jk_Kid = kid, jk_KeyType = ''RSA'', jk_Usage = ''sig'', jk_Algorithm = ''RS256'',
      jk_EncryptedPrivateKey = Some encrypted, jk_PublicKey = publicPEM,
      jk_Status = JWKStatusSigning, jk_SigningStartedAt = pg_time now,
      jk_VerifyUntil = pg_time (now + (jm_rotation m + jm_verificationRetention m)),
      jk_CreatedAt = pg_time now, jk_UpdatedAt = pg_time now\<rparr>"

definition generateKey :: "gcm \<Rightarrow> rsa \<Rightarrow> env \<Rightarrow> jwk_manager \<Rightarrow> 'db world \<Rightarrow> gotime \<Rightarrow> 'db world \<times> (jwk_error + jwk)" where
  "generateKey G K E m w now =
     (case rsa_generate K (w_tick w) (jm_keySize m) of
        None \<Rightarrow> (tick w, Inl JwkGeneration)
      | Some privateKey \<Rightarrow>
          (case NewUUID E (tick w) of (w1, kid) \<Rightarrow>
             (case rsa_public_pem K privateKey of
                None \<Rightarrow> (w1, Inl JwkGeneration)
              | Some publicPEM \<Rightarrow>
                  (case EncryptEnvelope G E w1 (jm_derivedKey m) jwkEnvelopeKeyID jwkEnvelopePurpose
                          (rsa_private_pem K privateKey) kid of
                     (w2, Inl e) \<Rightarrow> (w2, Inl (JwkEnvelope e))
                   | (w2, Inr encrypted) \<Rightarrow>
                       (let j = new_signing_key m now kid encrypted publicPEM
                        in and_then (insert_key j w2) (\<lambda>w3 _. (w3, Inr j)))))))"

text \<open>\<open>withRotationLock\<close>: the body runs on the tables; its changes are kept when it succeeds and commits.\<close>

definition withRotationLock ::
    "env \<Rightarrow> 'db world \<Rightarrow> ('db world \<Rightarrow> gotime \<Rightarrow> 'db world \<times> (jwk_error + 'a)) \<Rightarrow> 'db world \<times> (jwk_error + 'a)" where
  "withRotationLock E w fn =
     (case e_sql E (w_tick w) of
        Sql_refused \<Rightarrow> (tick w, Inl (JwkSql SqlUnavailable))
      | fate \<Rightarrow>
          (case Now E (tick w) of (w1, now) \<Rightarrow>
             (case fn w1 now of
                (w2, Inl e) \<Rightarrow> (w2\<lparr>w_sql := w_sql w\<rparr>, Inl e)
              | (w2, Inr x) \<Rightarrow>
                  (w2, if fate = Sql_served then Inr x else Inl (JwkSql SqlUnavailable)))))"

section \<open>Operations\<close>

definition signing_row :: "sql_tables \<Rightarrow> jwk option" where
  "signing_row t = find (\<lambda>j. jk_Status j = JWKStatusSigning) (map snd (t_jwk t))"

definition rotate_body :: "gcm \<Rightarrow> rsa \<Rightarrow> env \<Rightarrow> jwk_manager \<Rightarrow> bool \<Rightarrow> 'db world \<Rightarrow> gotime \<Rightarrow> 'db world \<times> (jwk_error + unit)" where
  "rotate_body G K E m force w now =
     and_then (update_keys (\<lambda>j. jk_Status j = JWKStatusVerification \<and> jk_VerifyUntil j \<le> pg_time now) (to_retired now) w)
       (\<lambda>w1 _. case signing_row (w_sql w1) of
            None \<Rightarrow> and_then (generateKey G K E m w1 now) (\<lambda>w2 _. (w2, Inr ()))
          | Some j \<Rightarrow>
              (if \<not> force \<and> now < jk_SigningStartedAt j + jm_rotation m then (w1, Inr ())
               else and_then (update_keys (\<lambda>i. jk_Kid i = jk_Kid j) (to_verification m now) w1)
                      (\<lambda>w2 _. and_then (generateKey G K E m w2 now) (\<lambda>w3 _. (w3, Inr ())))))"

definition jwk_rotate :: "gcm \<Rightarrow> rsa \<Rightarrow> env \<Rightarrow> jwk_manager \<Rightarrow> 'db world \<Rightarrow> bool \<Rightarrow> 'db world \<times> (jwk_error + unit)" where
  "jwk_rotate G K E m w force =
     (case requireConfigured m of
        Inl e \<Rightarrow> (w, Inl e)
      | Inr _ \<Rightarrow> withRotationLock E w (rotate_body G K E m force))"

definition EnsureActiveKey :: "gcm \<Rightarrow> rsa \<Rightarrow> env \<Rightarrow> jwk_manager \<Rightarrow> 'db world \<Rightarrow> 'db world \<times> (jwk_error + unit)" where
  "EnsureActiveKey G K E m w = jwk_rotate G K E m w False"

definition RotateKeys :: "gcm \<Rightarrow> rsa \<Rightarrow> env \<Rightarrow> jwk_manager \<Rightarrow> 'db world \<Rightarrow> 'db world \<times> (jwk_error + unit)" where
  "RotateKeys G K E m w = jwk_rotate G K E m w False"

definition GenerateKey :: "gcm \<Rightarrow> rsa \<Rightarrow> env \<Rightarrow> jwk_manager \<Rightarrow> 'db world \<Rightarrow> 'db world \<times> (jwk_error + jwk)" where
  "GenerateKey G K E m w =
     (case requireConfigured m of
        Inl e \<Rightarrow> (w, Inl e)
      | Inr _ \<Rightarrow> withRotationLock E w (\<lambda>w1 now.
          and_then (update_keys (\<lambda>j. jk_Status j = JWKStatusSigning) (to_verification m now) w1)
            (\<lambda>w2 _. generateKey G K E m w2 now)))"

text \<open>\<open>ORDER BY signing_started_at DESC\<close> on the selected rows.\<close>

definition newest_first :: "jwk list \<Rightarrow> jwk list" where
  "newest_first js = rev (sort_key jk_SigningStartedAt js)"

definition GetActiveKey :: "env \<Rightarrow> 'db world \<Rightarrow> 'db world \<times> (jwk_error + jwk)" where
  "GetActiveKey E w =
     (case query E w (\<lambda>t. case newest_first (filter (\<lambda>j. jk_Status j = JWKStatusSigning) (map snd (t_jwk t))) of
             [] \<Rightarrow> Inl SqlNoRows
           | j # _ \<Rightarrow> Inr j) of
        (w1, Inl e) \<Rightarrow> (w1, Inl (JwkSql e))
      | (w1, Inr j) \<Rightarrow> (w1, Inr j))"

definition GetPrivateKey :: "gcm \<Rightarrow> rsa \<Rightarrow> env \<Rightarrow> jwk_manager \<Rightarrow> 'db world \<Rightarrow> 'db world \<times> (jwk_error + (string \<times> string))" where
  "GetPrivateKey G K E m w =
     (case requireConfigured m of
        Inl e \<Rightarrow> (w, Inl e)
      | Inr _ \<Rightarrow> on_result (\<lambda>j.
          (case jk_EncryptedPrivateKey j of
             None \<Rightarrow> Inl JwkNoPrivateKey
           | Some encrypted \<Rightarrow>
               (if encrypted = [] then Inl JwkNoPrivateKey
                else case DecryptEnvelope G [(jwkEnvelopeKeyID, jm_derivedKey m)] jwkEnvelopePurpose encrypted (jk_Kid j) of
                       Inl e \<Rightarrow> Inl (JwkEnvelope e)
                     | Inr plaintext \<Rightarrow>
                         (case rsa_parse_private K plaintext of
                            None \<Rightarrow> Inl JwkInvalidPEM
                          | Some key \<Rightarrow> Inr (key, jk_Kid j))))) (GetActiveKey E w))"

text \<open>\<open>ListActivePublicKeys\<close>: \<open>NOW()\<close> is the clock of the database.\<close>

definition listed :: "gotime \<Rightarrow> jwk \<Rightarrow> bool" where
  "listed now j \<longleftrightarrow>
     jk_Status j = JWKStatusSigning \<or> (jk_Status j = JWKStatusVerification \<and> jk_VerifyUntil j > now)"

definition ListActivePublicKeys :: "env \<Rightarrow> 'db world \<Rightarrow> 'db world \<times> (jwk_error + jwk list)" where
  "ListActivePublicKeys E w =
     (case query E w (\<lambda>t. Inr (newest_first (filter (listed (e_now E (w_tick w))) (map snd (t_jwk t))))) of
        (w1, Inl e) \<Rightarrow> (w1, Inl (JwkSql e))
      | (w1, Inr js) \<Rightarrow> (w1, Inr js))"

section \<open>Lemmas\<close>

lemma status_distinct_jwk [simp]:
  "JWKStatusSigning \<noteq> JWKStatusVerification" "JWKStatusVerification \<noteq> JWKStatusSigning"
  "JWKStatusSigning \<noteq> JWKStatusRetired" "JWKStatusRetired \<noteq> JWKStatusSigning"
  "JWKStatusVerification \<noteq> JWKStatusRetired" "JWKStatusRetired \<noteq> JWKStatusVerification"
  by (simp_all add: JWKStatusSigning_def JWKStatusVerification_def JWKStatusRetired_def)

lemma moved_simps [simp]:
  "jk_Kid (to_verification m now j) = jk_Kid j" "jk_Kid (to_retired now j) = jk_Kid j"
  "jk_PublicKey (to_verification m now j) = jk_PublicKey j" "jk_PublicKey (to_retired now j) = jk_PublicKey j"
  "jk_Status (to_verification m now j) = JWKStatusVerification" "jk_Status (to_retired now j) = JWKStatusRetired"
  "jk_VerifyUntil (to_verification m now j) = pg_time (now + jm_verificationRetention m)"
  by (simp_all add: to_verification_def to_retired_def)

text \<open>The invariant of the table: rows under their own key, well formed, and one signing key at most.\<close>

definition keys_ok :: "(string \<times> jwk) list \<Rightarrow> bool" where
  "keys_ok rows \<longleftrightarrow> distinct (map fst rows) \<and> (\<forall>(k, j) \<in> set rows. jk_Kid j = k \<and> jwk_row_ok j) \<and>
     length (filter (\<lambda>(k, j). jk_Status j = JWKStatusSigning) rows) \<le> 1"

abbreviation update_rows :: "(jwk \<Rightarrow> bool) \<Rightarrow> (jwk \<Rightarrow> jwk) \<Rightarrow> (string \<times> jwk) list \<Rightarrow> (string \<times> jwk) list" where
  "update_rows P f rows \<equiv> map (\<lambda>(k, j). (k, if P j then f j else j)) rows"

lemma update_keys_Inr:
  assumes "update_keys P f w = (w', Inr x)"
  shows "w' = w\<lparr>w_sql := (w_sql w)\<lparr>t_jwk := update_rows P f (t_jwk (w_sql w))\<rparr>\<rparr>"
    and "\<forall>(k, j) \<in> set (t_jwk (w_sql w)). P j \<longrightarrow> jwk_row_ok (f j)"
  using assms by (auto simp: update_keys_def Let_def list_all_iff split: if_splits)

lemma keys_ok_update:
  assumes "keys_ok rows" and "\<forall>(k, j) \<in> set rows. P j \<longrightarrow> jwk_row_ok (f j)"
    and "\<And>j. jk_Kid (f j) = jk_Kid j" and "\<And>j. jk_Status (f j) \<noteq> JWKStatusSigning"
  shows "keys_ok (update_rows P f rows)"
proof -
  have "length (filter (\<lambda>(k, j). jk_Status j = JWKStatusSigning) (update_rows P f rows)) \<le>
      length (filter (\<lambda>(k, j). jk_Status j = JWKStatusSigning) rows)"
    using assms(4) by (induction rows) (auto split: if_splits)
  moreover have "map fst (update_rows P f rows) = map fst rows" by (induction rows) auto
  moreover have "\<forall>(k, j) \<in> set (update_rows P f rows). jk_Kid j = k \<and> jwk_row_ok j"
    using assms(1-3) by (auto simp: keys_ok_def)
  ultimately show ?thesis using assms(1) unfolding keys_ok_def by (metis (no_types, lifting) order_trans)
qed

lemma generateKey_Inr:
  fixes w :: "'db world"
  assumes "generateKey G K E m w now = (w', Inr j)"
  obtains privateKey encrypted and w1 w2 :: "'db world" where "rsa_public_pem K privateKey = Some (jk_PublicKey j)"
    and "EncryptEnvelope G E w1 (jm_derivedKey m) jwkEnvelopeKeyID jwkEnvelopePurpose
      (rsa_private_pem K privateKey) (jk_Kid j) = (w2, Inr encrypted)"
    and "jk_EncryptedPrivateKey j = Some encrypted" and "jk_Status j = JWKStatusSigning"
    and "jk_SigningStartedAt j = pg_time now" and "jwk_row_ok j"
    and "jk_Algorithm j = ''RS256''" and "jk_KeyType j = ''RSA''" and "jk_Usage j = ''sig''"
    and "map_of (t_jwk (w_sql w)) (jk_Kid j) = None"
    and "\<forall>(k, i) \<in> set (t_jwk (w_sql w)). jk_Status i \<noteq> JWKStatusSigning"
    and "w_sql w' = (w_sql w)\<lparr>t_jwk := t_jwk (w_sql w) @ [(jk_Kid j, j)]\<rparr>" and "w_redis w' = w_redis w"
proof -
  obtain key where key: "rsa_generate K (w_tick w) (jm_keySize m) = Some key"
    using assms by (auto simp: generateKey_def split: option.splits)
  obtain w1 kid where u: "NewUUID E (tick w) = (w1, kid)" by (cases "NewUUID E (tick w)")
  have w1: "w_sql w1 = w_sql w" "w_redis w1 = w_redis w" using u by (auto simp: NewUUID_def)
  obtain pub where pub: "rsa_public_pem K key = Some pub"
    using assms key u by (auto simp: generateKey_def split: option.splits)
  obtain w2 enc where enc: "EncryptEnvelope G E w1 (jm_derivedKey m) jwkEnvelopeKeyID jwkEnvelopePurpose
      (rsa_private_pem K key) kid = (w2, Inr enc)"
    using assms key u pub by (auto simp: generateKey_def split: prod.splits sum.splits)
  have "w2 = tick w1" by (rule EncryptEnvelope_Inr [OF enc])
  then have w2: "w_sql w2 = w_sql w" "w_redis w2 = w_redis w" by (simp_all add: w1)
  let ?j = "new_signing_key m now kid enc pub"
  have g: "generateKey G K E m w now = and_then (insert_key ?j w2) (\<lambda>w3 _. (w3, Inr ?j))"
    by (simp add: generateKey_def key u pub enc Let_def)
  have "and_then (insert_key ?j w2) (\<lambda>w3 _. (w3, Inr ?j)) = (w', Inr j)"
    by (simp only: g [symmetric] assms)
  then have j: "j = ?j" and ins: "insert_key ?j w2 = (w', Inr ())"
    by (auto simp: and_then_Inr)
  have i: "jwk_row_ok ?j" "map_of (t_jwk (w_sql w)) (jk_Kid ?j) = None"
      "\<forall>(k, i) \<in> set (t_jwk (w_sql w)). jk_Status i \<noteq> JWKStatusSigning"
      "w' = w2\<lparr>w_sql := (w_sql w)\<lparr>t_jwk := t_jwk (w_sql w) @ [(jk_Kid ?j, ?j)]\<rparr>\<rparr>"
    using ins by (auto simp: insert_key_def w2 Let_def list_ex_iff new_signing_key_def split: if_splits)
  show thesis
    by (rule that [of key w1 w2 enc]) (use i enc pub w2 in \<open>simp_all add: j new_signing_key_def\<close>)
qed

lemma keys_ok_generate:
  assumes "keys_ok (t_jwk (w_sql w))" and "generateKey G K E m w now = (w', Inr j)"
  shows "keys_ok (t_jwk (w_sql w'))"
  using assms(2)
proof (rule generateKey_Inr)
  assume "map_of (t_jwk (w_sql w)) (jk_Kid j) = None" "jwk_row_ok j"
    "\<forall>(k, i) \<in> set (t_jwk (w_sql w)). jk_Status i \<noteq> JWKStatusSigning"
    "w_sql w' = (w_sql w)\<lparr>t_jwk := t_jwk (w_sql w) @ [(jk_Kid j, j)]\<rparr>"
  moreover from this(3) have "filter (\<lambda>(k, i). jk_Status i = JWKStatusSigning) (t_jwk (w_sql w)) = []"
    by (auto simp: filter_empty_conv)
  ultimately show ?thesis using assms(1) by (auto simp: keys_ok_def map_of_eq_None_iff)
qed

text \<open>A relation on the keys that the body of a rotation respects holds across the rotation.\<close>

lemma withRotationLock_relates:
  assumes "\<And>t. Q t t"
    and "\<And>w1 w2 x. w_sql w1 = w_sql w \<Longrightarrow> fn w1 (e_now E (Suc (w_tick w))) = (w2, Inr x) \<Longrightarrow> Q (w_sql w1) (w_sql w2)"
  shows "Q (w_sql w) (w_sql (fst (withRotationLock E w fn)))"
proof -
  let ?w1 = "tick (tick w)" and ?now = "e_now E (Suc (w_tick w))"
  have n: "Now E (tick w) = (?w1, ?now)" by (simp add: Now_def tick_def)
  show ?thesis
  proof (cases "fn ?w1 ?now")
    case (Pair w2 r)
    then show ?thesis
      using assms(1) [of "w_sql w"] assms(2) [of ?w1 w2]
      by (cases r; cases "e_sql E (w_tick w)") (simp_all add: withRotationLock_def n)
  qed
qed

text \<open>
  A key whose tokens must stay verifiable until \<open>v\<close>: it signs, or it verifies at least until
  then. A rotation at a moment between \<open>s\<close> and \<open>v\<close> keeps it so when \<open>v\<close> is the end of the
  retention counted from \<open>s\<close>.
\<close>

definition verifies_until :: "gotime \<Rightarrow> (string \<times> jwk) list \<Rightarrow> string \<Rightarrow> string \<Rightarrow> bool" where
  "verifies_until v rows kid pem \<longleftrightarrow> (\<exists>j. map_of rows kid = Some j \<and> jk_Kid j = kid \<and> jk_PublicKey j = pem \<and>
     (jk_Status j = JWKStatusSigning \<or> jk_Status j = JWKStatusVerification \<and> v \<le> jk_VerifyUntil j))"

lemma map_of_update_rows: "map_of (update_rows P f rows) k = map_option (\<lambda>j. if P j then f j else j) (map_of rows k)"
  by (induction rows) auto

lemma verifies_update:
  assumes "verifies_until v rows kid pem"
    and "\<And>j. map_of rows kid = Some j \<Longrightarrow> P j \<Longrightarrow>
      jk_Status j = JWKStatusSigning \<or> jk_Status j = JWKStatusVerification \<and> v \<le> jk_VerifyUntil j \<Longrightarrow>
      jk_Kid (f j) = jk_Kid j \<and> jk_PublicKey (f j) = jk_PublicKey j \<and>
      jk_Status (f j) = JWKStatusVerification \<and> v \<le> jk_VerifyUntil (f j)"
  shows "verifies_until v (update_rows P f rows) kid pem"
proof -
  obtain j where j: "map_of rows kid = Some j" "jk_Kid j = kid" "jk_PublicKey j = pem"
      "jk_Status j = JWKStatusSigning \<or> jk_Status j = JWKStatusVerification \<and> v \<le> jk_VerifyUntil j"
    using assms(1) unfolding verifies_until_def by blast
  show ?thesis
    unfolding verifies_until_def map_of_update_rows
    by (rule exI [of _ "if P j then f j else j"]) (use j assms(2) [OF j(1) _ j(4)] in auto)
qed

lemma verifies_generate:
  assumes "verifies_until v (t_jwk (w_sql w)) kid pem" and "generateKey G K E m w now = (w', Inr j)"
  shows "verifies_until v (t_jwk (w_sql w')) kid pem"
  using assms(2)
proof (rule generateKey_Inr)
  assume "w_sql w' = (w_sql w)\<lparr>t_jwk := t_jwk (w_sql w) @ [(jk_Kid j, j)]\<rparr>"
  then show ?thesis using assms(1) by (auto simp: verifies_until_def)
qed

text \<open>The relation between the keys before and after an operation that reads the clock at \<open>now\<close>.\<close>

definition keys_move :: "jwk_manager \<Rightarrow> gotime \<Rightarrow> sql_tables \<Rightarrow> sql_tables \<Rightarrow> bool" where
  "keys_move m now t t' \<longleftrightarrow> (keys_ok (t_jwk t) \<longrightarrow> keys_ok (t_jwk t')) \<and>
     (\<forall>s kid pem. s \<le> now \<and> pg_time now < pg_time (s + jm_verificationRetention m) \<and>
        verifies_until (pg_time (s + jm_verificationRetention m)) (t_jwk t) kid pem \<longrightarrow>
        verifies_until (pg_time (s + jm_verificationRetention m)) (t_jwk t') kid pem)"

lemma keys_move_refl: "keys_move m now t t"
  by (simp add: keys_move_def)

lemma keys_move_trans: "keys_move m now t t' \<Longrightarrow> keys_move m now t' t'' \<Longrightarrow> keys_move m now t t''"
  unfolding keys_move_def by blast

lemma keys_move_retire:
  assumes "update_keys (\<lambda>j. jk_Status j = JWKStatusVerification \<and> jk_VerifyUntil j \<le> pg_time now) (to_retired now) w = (w', Inr x)"
  shows "keys_move m now (w_sql w) (w_sql w')"
proof -
  note u = update_keys_Inr [OF assms]
  show ?thesis
    unfolding keys_move_def u(1)
    by (auto intro!: keys_ok_update verifies_update dest: u(2) [rule_format])
qed

lemma keys_move_verification:
  assumes "update_keys P (to_verification m now) w = (w', Inr x)"
  shows "keys_move m now (w_sql w) (w_sql w')"
proof -
  note u = update_keys_Inr [OF assms]
  have "pg_time (s + jm_verificationRetention m) \<le> pg_time (now + jm_verificationRetention m)" if "s \<le> now" for s
    using that by (simp add: pg_time_mono)
  then show ?thesis
    unfolding keys_move_def u(1)
    by (auto intro!: keys_ok_update verifies_update dest: u(2) [rule_format])
qed

lemma keys_move_generate: "generateKey G K E m w now = (w', Inr j) \<Longrightarrow> keys_move m now (w_sql w) (w_sql w')"
  by (auto simp: keys_move_def intro: keys_ok_generate verifies_generate)

lemma rotate_body_moves:
  assumes "rotate_body G K E m force w now = (w', Inr x)"
  shows "keys_move m now (w_sql w) (w_sql w')"
proof -
  obtain w1 where r: "update_keys (\<lambda>j. jk_Status j = JWKStatusVerification \<and> jk_VerifyUntil j \<le> pg_time now) (to_retired now) w = (w1, Inr ())"
    and rest: "(case signing_row (w_sql w1) of
            None \<Rightarrow> and_then (generateKey G K E m w1 now) (\<lambda>w2 _. (w2, Inr ()))
          | Some j \<Rightarrow>
              (if \<not> force \<and> now < jk_SigningStartedAt j + jm_rotation m then (w1, Inr ())
               else and_then (update_keys (\<lambda>i. jk_Kid i = jk_Kid j) (to_verification m now) w1)
                      (\<lambda>w2 _. and_then (generateKey G K E m w2 now) (\<lambda>w3 _. (w3, Inr ()))))) = (w', Inr ())"
    using assms by (auto simp: rotate_body_def and_then_Inr)
  have "keys_move m now (w_sql w1) (w_sql w')"
    using rest
    by (auto simp: and_then_Inr intro: keys_move_refl keys_move_generate
        keys_move_trans [OF keys_move_verification keys_move_generate] split: option.splits if_splits)
  with keys_move_retire [OF r, of m] show ?thesis by (rule keys_move_trans)
qed

lemma jwk_rotate_moves: "keys_move m (e_now E (Suc (w_tick w))) (w_sql w) (w_sql (fst (jwk_rotate G K E m w force)))"
proof -
  have "keys_move m (e_now E (Suc (w_tick w))) (w_sql w) (w_sql (fst (withRotationLock E w (rotate_body G K E m force))))"
    by (rule withRotationLock_relates [OF keys_move_refl]) (rule rotate_body_moves)
  then show ?thesis by (cases "requireConfigured m") (simp_all add: jwk_rotate_def keys_move_refl)
qed

lemma GenerateKey_moves: "keys_move m (e_now E (Suc (w_tick w))) (w_sql w) (w_sql (fst (GenerateKey G K E m w)))"
proof -
  let ?fn = "\<lambda>w1 now. and_then (update_keys (\<lambda>j. jk_Status j = JWKStatusSigning) (to_verification m now) w1)
      (\<lambda>w2 _. generateKey G K E m w2 now)"
  have moves: "keys_move m now (w_sql w1) (w_sql w2)" if body: "?fn w1 now = (w2, Inr x)" for w1 w2 x now
  proof -
    obtain w3 where u: "update_keys (\<lambda>j. jk_Status j = JWKStatusSigning) (to_verification m now) w1 = (w3, Inr ())"
      and g: "generateKey G K E m w3 now = (w2, Inr x)"
      using body unfolding and_then_Inr by auto
    show ?thesis by (rule keys_move_trans [OF keys_move_verification [OF u] keys_move_generate [OF g]])
  qed
  have "keys_move m (e_now E (Suc (w_tick w))) (w_sql w) (w_sql (fst (withRotationLock E w ?fn)))"
    by (rule withRotationLock_relates [OF keys_move_refl]) (rule moves)
  then show ?thesis by (cases "requireConfigured m") (simp_all add: GenerateKey_def keys_move_refl)
qed

section \<open>Sequences of operations\<close>

datatype key_op = Op_rotate | Op_generate

fun key_exec :: "gcm \<Rightarrow> rsa \<Rightarrow> env \<Rightarrow> jwk_manager \<Rightarrow> key_op \<Rightarrow> 'db world \<Rightarrow> 'db world" where
  "key_exec G K E m Op_rotate w = fst (RotateKeys G K E m w)"
| "key_exec G K E m Op_generate w = fst (GenerateKey G K E m w)"

definition key_run :: "gcm \<Rightarrow> rsa \<Rightarrow> env \<Rightarrow> jwk_manager \<Rightarrow> key_op list \<Rightarrow> 'db world \<Rightarrow> 'db world" where
  "key_run G K E m ops w = fold (key_exec G K E m) ops w"

lemma key_exec_moves: "keys_move m (e_now E (Suc (w_tick w))) (w_sql w) (w_sql (key_exec G K E m op w))"
  by (cases op) (simp_all add: RotateKeys_def jwk_rotate_moves GenerateKey_moves)

lemma key_run_ok: "keys_ok (t_jwk (w_sql w)) \<Longrightarrow> keys_ok (t_jwk (w_sql (key_run G K E m ops w)))"
proof (induction ops arbitrary: w)
  case (Cons op ops)
  then show ?case using key_exec_moves [of m E w G K op] by (simp add: key_run_def keys_move_def)
qed (simp add: key_run_def)

lemma key_run_verifies:
  assumes "\<And>i. s \<le> e_now E i \<and> pg_time (e_now E i) < pg_time (s + jm_verificationRetention m)"
    and "verifies_until (pg_time (s + jm_verificationRetention m)) (t_jwk (w_sql w)) kid pem"
  shows "verifies_until (pg_time (s + jm_verificationRetention m)) (t_jwk (w_sql (key_run G K E m ops w))) kid pem"
  using assms(2)
proof (induction ops arbitrary: w)
  case (Cons op ops)
  then show ?case
    using key_exec_moves [of m E w G K op] assms(1) [of "Suc (w_tick w)"] by (simp add: key_run_def keys_move_def)
qed (simp add: key_run_def)

text \<open>The keys that are listed.\<close>

lemma set_newest_first [simp]: "set (newest_first js) = set js"
  by (simp add: newest_first_def)

lemma ListActivePublicKeys_Inr:
  assumes "ListActivePublicKeys E w = (w', Inr js)"
  shows "set js = {j \<in> snd ` set (t_jwk (w_sql w)). listed (e_now E (w_tick w)) j}" and "w' = tick w"
  using assms by (auto simp: ListActivePublicKeys_def query_def image_iff split: sql_fate.splits) force

lemma verifies_listed:
  assumes "verifies_until v (t_jwk (w_sql w)) kid pem" and "e_now E (w_tick w) < v"
    and "ListActivePublicKeys E w = (w', Inr js)"
  shows "\<exists>j \<in> set js. jk_Kid j = kid \<and> jk_PublicKey j = pem"
proof -
  obtain j where "map_of (t_jwk (w_sql w)) kid = Some j" and j: "jk_Kid j = kid" "jk_PublicKey j = pem"
      "jk_Status j = JWKStatusSigning \<or> jk_Status j = JWKStatusVerification \<and> v \<le> jk_VerifyUntil j"
    using assms(1) by (auto simp: verifies_until_def)
  from map_of_SomeD [OF this(1)] have "j \<in> snd ` set (t_jwk (w_sql w))" by force
  moreover have "listed (e_now E (w_tick w)) j" using j(3) assms(2) by (auto simp: listed_def)
  ultimately show ?thesis using j(1,2) ListActivePublicKeys_Inr(1) [OF assms(3)] by blast
qed

end
