(* ===== verification/Jwt_Claims.thy ===== *)
theory Jwt_Claims
  imports Scopes_Claims Jwk_Manager Step_Up
begin

text \<open>
  The claims of the tokens of \<open>internal/auth/token.go\<close>: the structure \<open>Claims\<close> as the JSON
  object that is signed and as what decoding an object gives back, and the authentication claims
  added to it. Signing and verification are those of the \<open>jwt\<close> package, a parameter \<open>jwt\<close>:
  \<open>jwt_sign\<close> from a private key, a key identifier and an object to a token, \<open>jwt_header\<close> for
  the algorithm and key identifier of an unverified token, and \<open>jwt_parse\<close> from a public key, an
  issuer, a leeway, a time and a token to the object, if everything checks.
\<close>

type_synonym payload = "(string \<times> claim_value) list"

record jwt =
  jwt_sign :: "string \<Rightarrow> string \<Rightarrow> payload \<Rightarrow> string option"
  jwt_header :: "string \<Rightarrow> (string \<times> string option) option"
  jwt_parse :: "string \<Rightarrow> string \<Rightarrow> duration \<Rightarrow> gotime \<Rightarrow> string \<Rightarrow> payload option"

record claims =
  jc_Issuer :: string
  jc_Subject :: string
  jc_Audience :: "string list"
  jc_ExpiresAt :: "int option"
  jc_NotBefore :: "int option"
  jc_IssuedAt :: "int option"
  jc_ID :: string
  jc_Scope :: string
  jc_AllowedClaims :: "string list option"
  jc_ClaimNamesSet :: bool
  jc_TokenUse :: string
  jc_AuthVersion :: int
  jc_Nonce :: string
  jc_AuthenticationContext :: string
  jc_AuthenticationMethods :: "string list"
  jc_AuthenticationTime :: int

section \<open>Encoding\<close>

definition field :: "string \<Rightarrow> bool \<Rightarrow> claim_value \<Rightarrow> payload" where
  "field k present v = (if present then [(k, v)] else [])"

definition claims_payload :: "claims \<Rightarrow> payload" where
  "claims_payload c =
     field ''iss'' (jc_Issuer c \<noteq> []) (CText (jc_Issuer c)) @
     field ''sub'' (jc_Subject c \<noteq> []) (CText (jc_Subject c)) @
     field ''aud'' (jc_Audience c \<noteq> []) (CTexts (jc_Audience c)) @
     field ''exp'' (jc_ExpiresAt c \<noteq> None) (CInt (the (jc_ExpiresAt c))) @
     field ''nbf'' (jc_NotBefore c \<noteq> None) (CInt (the (jc_NotBefore c))) @
     field ''iat'' (jc_IssuedAt c \<noteq> None) (CInt (the (jc_IssuedAt c))) @
     field ''jti'' (jc_ID c \<noteq> []) (CText (jc_ID c)) @
     field ''scope'' (jc_Scope c \<noteq> []) (CText (jc_Scope c)) @
     field ''claim_names'' (omit_empty (jc_AllowedClaims c) \<noteq> None) (CTexts (the (jc_AllowedClaims c))) @
     field ''claim_names_set'' (jc_ClaimNamesSet c) (CBool True) @
     field ''token_use'' True (CText (jc_TokenUse c)) @
     field ''auth_version'' (jc_AuthVersion c \<noteq> 0) (CInt (jc_AuthVersion c)) @
     field ''nonce'' (jc_Nonce c \<noteq> []) (CText (jc_Nonce c)) @
     field ''acr'' (jc_AuthenticationContext c \<noteq> []) (CText (jc_AuthenticationContext c)) @
     field ''amr'' (jc_AuthenticationMethods c \<noteq> []) (CTexts (jc_AuthenticationMethods c)) @
     field ''auth_time'' (jc_AuthenticationTime c \<noteq> 0) (CInt (jc_AuthenticationTime c))"

section \<open>Decoding\<close>

definition text_field :: "payload \<Rightarrow> string \<Rightarrow> string option" where
  "text_field m k = (case map_of m k of None \<Rightarrow> Some [] | Some (CText s) \<Rightarrow> Some s | _ \<Rightarrow> None)"

definition int_field :: "payload \<Rightarrow> string \<Rightarrow> int option" where
  "int_field m k = (case map_of m k of None \<Rightarrow> Some 0 | Some (CInt n) \<Rightarrow> Some n | _ \<Rightarrow> None)"

definition date_field :: "payload \<Rightarrow> string \<Rightarrow> int option option" where
  "date_field m k = (case map_of m k of None \<Rightarrow> Some None | Some (CInt n) \<Rightarrow> Some (Some n) | _ \<Rightarrow> None)"

definition bool_field :: "payload \<Rightarrow> string \<Rightarrow> bool option" where
  "bool_field m k = (case map_of m k of None \<Rightarrow> Some False | Some (CBool b) \<Rightarrow> Some b | _ \<Rightarrow> None)"

definition texts_field :: "payload \<Rightarrow> string \<Rightarrow> string list option option" where
  "texts_field m k = (case map_of m k of None \<Rightarrow> Some None | Some (CTexts l) \<Rightarrow> Some (Some l) | _ \<Rightarrow> None)"

text \<open>\<open>jwt.ClaimStrings\<close>: one string or an array of strings.\<close>

definition audience_field :: "payload \<Rightarrow> string list option" where
  "audience_field m = (case map_of m ''aud'' of
     None \<Rightarrow> Some [] | Some (CText s) \<Rightarrow> Some [s] | Some (CTexts l) \<Rightarrow> Some l | _ \<Rightarrow> None)"

definition list_of :: "'a list option \<Rightarrow> 'a list" where
  "list_of xs = (case xs of None \<Rightarrow> [] | Some l \<Rightarrow> l)"

definition well_typed_claims :: "payload \<Rightarrow> bool" where
  "well_typed_claims m \<longleftrightarrow>
     list_all (\<lambda>k. text_field m k \<noteq> None)
       [''iss'', ''sub'', ''jti'', ''scope'', ''token_use'', ''nonce'', ''acr''] \<and>
     list_all (\<lambda>k. int_field m k \<noteq> None) [''auth_version'', ''auth_time''] \<and>
     list_all (\<lambda>k. date_field m k \<noteq> None) [''exp'', ''nbf'', ''iat''] \<and>
     list_all (\<lambda>k. texts_field m k \<noteq> None) [''claim_names'', ''amr''] \<and>
     bool_field m ''claim_names_set'' \<noteq> None \<and> audience_field m \<noteq> None"

definition decode_claims :: "payload \<Rightarrow> claims option" where
  "decode_claims m =
     (if \<not> well_typed_claims m then None
      else Some \<lparr>jc_Issuer = the (text_field m ''iss''), jc_Subject = the (text_field m ''sub''),
        jc_Audience = the (audience_field m), jc_ExpiresAt = the (date_field m ''exp''),
        jc_NotBefore = the (date_field m ''nbf''), jc_IssuedAt = the (date_field m ''iat''),
        jc_ID = the (text_field m ''jti''), jc_Scope = the (text_field m ''scope''),
        jc_AllowedClaims = the (texts_field m ''claim_names''),
        jc_ClaimNamesSet = the (bool_field m ''claim_names_set''),
        jc_TokenUse = the (text_field m ''token_use''), jc_AuthVersion = the (int_field m ''auth_version''),
        jc_Nonce = the (text_field m ''nonce''), jc_AuthenticationContext = the (text_field m ''acr''),
        jc_AuthenticationMethods = list_of (the (texts_field m ''amr'')),
        jc_AuthenticationTime = the (int_field m ''auth_time'')\<rparr>)"

lemma map_of_field: "map_of (field k b v @ m) k' = (if k' = k \<and> b then Some v else map_of m k')"
  "map_of (field k b v) k' = (if k' = k \<and> b then Some v else None)"
  by (simp_all add: field_def)

lemma payload_fields:
  "text_field (claims_payload c) ''iss'' = Some (jc_Issuer c)"
  "text_field (claims_payload c) ''sub'' = Some (jc_Subject c)"
  "text_field (claims_payload c) ''jti'' = Some (jc_ID c)"
  "text_field (claims_payload c) ''scope'' = Some (jc_Scope c)"
  "text_field (claims_payload c) ''token_use'' = Some (jc_TokenUse c)"
  "text_field (claims_payload c) ''nonce'' = Some (jc_Nonce c)"
  "text_field (claims_payload c) ''acr'' = Some (jc_AuthenticationContext c)"
  "int_field (claims_payload c) ''auth_version'' = Some (jc_AuthVersion c)"
  "int_field (claims_payload c) ''auth_time'' = Some (jc_AuthenticationTime c)"
  "date_field (claims_payload c) ''exp'' = Some (jc_ExpiresAt c)"
  "date_field (claims_payload c) ''nbf'' = Some (jc_NotBefore c)"
  "date_field (claims_payload c) ''iat'' = Some (jc_IssuedAt c)"
  "audience_field (claims_payload c) = Some (jc_Audience c)"
  "texts_field (claims_payload c) ''claim_names'' = Some (omit_empty (jc_AllowedClaims c))"
  "texts_field (claims_payload c) ''amr'' = Some (omit_empty (Some (jc_AuthenticationMethods c)))"
  "bool_field (claims_payload c) ''claim_names_set'' = Some (jc_ClaimNamesSet c)"
  by (auto simp: claims_payload_def map_of_field text_field_def int_field_def date_field_def audience_field_def
      texts_field_def bool_field_def omit_empty_def simp del: map_of_append)

text \<open>Decoding the object of a structure gives the structure back, an empty list of claim names as nil.\<close>

lemma decode_claims_payload:
  "decode_claims (claims_payload c) = Some (c\<lparr>jc_AllowedClaims := omit_empty (jc_AllowedClaims c)\<rparr>)"
proof -
  have "well_typed_claims (claims_payload c)" by (simp add: well_typed_claims_def payload_fields)
  moreover have "list_of (omit_empty (Some (jc_AuthenticationMethods c))) = jc_AuthenticationMethods c"
    by (simp add: list_of_def omit_empty_def)
  ultimately show ?thesis by (simp add: decode_claims_def payload_fields)
qed

section \<open>Authentication claims\<close>

record issuance_authentication =
  ia_Context :: string
  ia_Methods :: "string list"
  ia_AuthTime :: int

definition no_authentication :: issuance_authentication where
  "no_authentication = \<lparr>ia_Context = [], ia_Methods = [], ia_AuthTime = 0\<rparr>"

definition applyAuthenticationClaims ::
    "env \<Rightarrow> 'db world \<Rightarrow> claims \<Rightarrow> issuance_authentication \<Rightarrow> 'db world \<times> claims" where
  "applyAuthenticationClaims E w c a =
     (if TrimSpace (ia_Context a) = [] then (w, c)
      else let c1 = c\<lparr>jc_AuthenticationContext := context_String (NormalizeContext (ia_Context a)),
                      jc_AuthenticationMethods := ia_Methods a\<rparr>
           in if ia_AuthTime a \<le> 0
              then (case Now E w of (w1, now) \<Rightarrow> (w1, c1\<lparr>jc_AuthenticationTime := Unix now\<rparr>))
              else (w, c1\<lparr>jc_AuthenticationTime := ia_AuthTime a\<rparr>))"

definition applyAuthenticationMapClaims ::
    "env \<Rightarrow> 'db world \<Rightarrow> payload \<Rightarrow> issuance_authentication \<Rightarrow> 'db world \<times> payload" where
  "applyAuthenticationMapClaims E w m a =
     (if TrimSpace (ia_Context a) = [] then (w, m)
      else
        let (w1, authTime) = (if ia_AuthTime a \<le> 0 then map_prod id Unix (Now E w) else (w, ia_AuthTime a));
            m1 = AList.update ''auth_time'' (CInt authTime)
                   (AList.update ''acr'' (CText (context_String (NormalizeContext (ia_Context a)))) m)
        in (w1, if length (ia_Methods a) > 0 then AList.update ''amr'' (CTexts (ia_Methods a)) m1 else m1))"

definition introspectionClaims :: "claims \<Rightarrow> payload" where
  "introspectionClaims c =
     [(''active'', CBool True), (''sub'', CText (jc_Subject c)), (''client_id'', CText (hd (jc_Audience c))),
      (''aud'', CTexts (jc_Audience c)), (''scope'', CText (jc_Scope c)), (''exp'', CInt (the (jc_ExpiresAt c))),
      (''iat'', CInt (the (jc_IssuedAt c))), (''jti'', CText (jc_ID c)), (''iss'', CText (jc_Issuer c)),
      (''token_type'', CText ''Bearer'')] @
     field ''acr'' (jc_AuthenticationContext c \<noteq> []) (CText (jc_AuthenticationContext c)) @
     field ''auth_time'' (jc_AuthenticationTime c > 0) (CInt (jc_AuthenticationTime c)) @
     field ''amr'' (length (jc_AuthenticationMethods c) > 0) (CTexts (jc_AuthenticationMethods c))"

lemma applyAuthenticationClaims_world [simp]:
  "w_redis (fst (applyAuthenticationClaims E w c a)) = w_redis w"
  "w_sql (fst (applyAuthenticationClaims E w c a)) = w_sql w"
  by (auto simp: applyAuthenticationClaims_def Now_def Let_def)

text \<open>A context in the vocabulary with a time is copied as it is; a blank one adds nothing.\<close>

definition consistent_authentication :: "issuance_authentication \<Rightarrow> bool" where
  "consistent_authentication a \<longleftrightarrow>
     a = no_authentication \<or> ia_Context a \<in> {ACRLevel1, ACRLevel2} \<and> ia_AuthTime a > 0"

lemma TrimSpace_levels: "TrimSpace ACRLevel1 = ACRLevel1" "TrimSpace ACRLevel2 = ACRLevel2" "TrimSpace [] = []"
  by code_simp+

lemma applyAuthenticationClaims_consistent:
  assumes "consistent_authentication a" and "jc_AuthenticationContext c = []"
    and "jc_AuthenticationMethods c = []" and "jc_AuthenticationTime c = 0"
  shows "applyAuthenticationClaims E w c a = (w, c\<lparr>jc_AuthenticationContext := ia_Context a,
    jc_AuthenticationMethods := ia_Methods a, jc_AuthenticationTime := ia_AuthTime a\<rparr>)"
  using assms(1) unfolding consistent_authentication_def
proof
  assume "a = no_authentication"
  then show ?thesis
    using assms(2-4) by (simp add: applyAuthenticationClaims_def no_authentication_def TrimSpace_levels)
next
  assume "ia_Context a \<in> {ACRLevel1, ACRLevel2} \<and> ia_AuthTime a > 0"
  then have l: "ia_Context a = ACRLevel1 \<or> ia_Context a = ACRLevel2" and t: "\<not> ia_AuthTime a \<le> 0" by auto
  have "context_String (NormalizeContext ACRLevel1) = ACRLevel1" "context_String (NormalizeContext ACRLevel2) = ACRLevel2"
    by (simp_all add: context_String_def NormalizeContext_def TrimSpace_levels)
  with l have "context_String (NormalizeContext (ia_Context a)) = ia_Context a" by metis
  moreover have "TrimSpace (ia_Context a) \<noteq> []" using l TrimSpace_levels by (metis ACR_levels_distinct(3,4))
  ultimately show ?thesis using t by (simp add: applyAuthenticationClaims_def Let_def)
qed

end
