(* ===== verification/Sample_World.thy ===== *)
theory Sample_World
  imports Authorization_Store Jwt_Claims Sample_Runs
begin

text \<open>
  The inputs of the runs that follow the properties of the stores on PostgreSQL and of the token
  service: a user, a client, their tables, an environment whose requests are served, and concrete
  functions for AES-GCM, RSA and JSON web tokens that satisfy the laws the properties assume. The
  sample signature carries the public key of the signer and the object, encoded so that decoding
  gives them back.
\<close>

definition calm :: env where
  "calm = \<lparr>e_sql = \<lambda>_. Sql_served, e_rand = \<lambda>_ n. Some (replicate n 7),
     e_uuid = \<lambda>i. ''id'' @ replicate i (CHR ''i''), e_now = \<lambda>i. int i * 1000,
     e_parse_uuid = Some, e_pg_uuid = Some\<rparr>"

definition sample_client :: oauth_client where
  "sample_client = \<lparr>oc_ID = ''c'', oc_SecretHash = None, oc_SecretHint = None, oc_SecretVersion = 1,
     oc_SecretRotatedAt = None, oc_SecretLastUsedAt = None, oc_Name = ''app'', oc_HomepageURI = [],
     oc_PrivacyPolicyURI = [], oc_TermsOfServiceURI = [], oc_CurrentLogoID = None,
     oc_IdentityRevision = 1, oc_AuthorizationRevision = 1, oc_RedirectURIs = [''https://app''],
     oc_PostLogoutRedirectURIs = [], oc_Grants = [GrantAuthorizationCode], oc_Scopes = [''openid''],
     oc_OptionalScopes = [], oc_AllowedClaims = None, oc_IsPublic = True, oc_AccessPolicy = ClientAccessOpen,
     oc_OwnerID = None, oc_PublisherType = [], oc_PublisherVerification = []\<rparr>"

definition sample_user :: user where
  "sample_user = \<lparr>us_ID = ''u'', us_Username = ''ann'', us_Email = None, us_EmailVerifiedAt = None,
     us_PasswordHash = None, us_PasswordChangedAt = None, us_DisplayName = None, us_AvatarURL = None,
     us_Status = UserStatusActive, us_Role = ''user'', us_AuthVersion = 1, us_SessionVersion = 1,
     us_MustChangePassword = False, us_LoginMFAEnabled = False, us_LastAuthenticatedAt = None,
     us_LastLoginAt = None\<rparr>"

definition sample_tables :: sql_tables where
  "sample_tables = \<lparr>t_users = [(''u'', sample_user)], t_clients = [(''c'', sample_client)], t_access = [],
     t_authorizations = [], t_jwk = []\<rparr>"

definition sample_world :: "unit world" where
  "sample_world = \<lparr>w_redis = (), w_sql = sample_tables, w_tick = 0\<rparr>"

definition sample_gcm :: gcm where
  "sample_gcm = \<lparr>gcm_seal = \<lambda>k n p a. p @ replicate 16 (CHR ''t''),
     gcm_open = \<lambda>k n c a. if 16 \<le> length c \<and> drop (length c - 16) c = replicate 16 (CHR ''t'')
       then Some (take (length c - 16) c) else None\<rparr>"

definition sample_rsa :: rsa where
  "sample_rsa = \<lparr>rsa_generate = \<lambda>i _. Some (replicate (i + 1) (CHR ''k'')), rsa_private_pem = \<lambda>k. k,
     rsa_public_pem = \<lambda>k. Some (''P'' @ k), rsa_parse_private = \<lambda>s. Some s, rsa_parse_public = \<lambda>s. Some s\<rparr>"

definition sample_manager :: jwk_manager where
  "sample_manager = \<lparr>jm_keySize = 2048, jm_rotation = Hour, jm_verificationRetention = Hour + defaultClockSkew,
     jm_derivedKey = replicate 32 (CHR ''d'')\<rparr>"

definition quiet :: env where
  "quiet = calm\<lparr>e_now := \<lambda>_. 5000\<rparr>"

lemma sample_gcm_laws: "gcm_laws sample_gcm"
  by (auto simp: gcm_laws_def sample_gcm_def Overhead_def) (metis append_take_drop_id)

lemma calm_rand: "rand_laws calm"
  by (simp add: rand_laws_def calm_def)

section \<open>Sample tokens\<close>

text \<open>Self-delimiting encodings: binary numbers, strings and lists behind their length.\<close>

fun enc_nat :: "nat \<Rightarrow> string" where
  "enc_nat n = (if n = 0 then ''.'' else (if odd n then CHR ''1'' else CHR ''0'') # enc_nat (n div 2))"

declare enc_nat.simps [simp del]

fun dec_nat :: "string \<Rightarrow> (nat \<times> string) option" where
  "dec_nat [] = None"
| "dec_nat (c # cs) =
     (if c = CHR ''.'' then Some (0, cs)
      else map_option (\<lambda>(n, r). (2 * n + (if c = CHR ''1'' then 1 else 0), r)) (dec_nat cs))"

lemma dec_enc_nat [simp]: "dec_nat (enc_nat n @ r) = Some (n, r)"
  by (induction n rule: enc_nat.induct) (subst enc_nat.simps, auto)

definition enc_text :: "string \<Rightarrow> string" where
  "enc_text s = enc_nat (length s) @ s"

definition dec_text :: "string \<Rightarrow> (string \<times> string) option" where
  "dec_text cs = map_option (\<lambda>(n, r). (take n r, drop n r)) (dec_nat cs)"

lemma dec_enc_text [simp]: "dec_text (enc_text s @ r) = Some (s, r)"
  by (simp add: dec_text_def enc_text_def)

primrec dec_times :: "nat \<Rightarrow> (string \<Rightarrow> ('a \<times> string) option) \<Rightarrow> string \<Rightarrow> ('a list \<times> string) option" where
  "dec_times 0 d cs = Some ([], cs)"
| "dec_times (Suc n) d cs =
     Option.bind (d cs) (\<lambda>(x, r). map_option (\<lambda>(xs, r'). (x # xs, r')) (dec_times n d r))"

definition enc_list :: "('a \<Rightarrow> string) \<Rightarrow> 'a list \<Rightarrow> string" where
  "enc_list e xs = enc_nat (length xs) @ concat (map e xs)"

definition dec_list :: "(string \<Rightarrow> ('a \<times> string) option) \<Rightarrow> string \<Rightarrow> ('a list \<times> string) option" where
  "dec_list d cs = Option.bind (dec_nat cs) (\<lambda>(n, r). dec_times n d r)"

lemma dec_enc_list:
  assumes "\<And>x r. d (e x @ r) = Some (x, r)"
  shows "dec_list d (enc_list e xs @ r) = Some (xs, r)"
proof -
  have "dec_times (length xs) d (concat (map e xs) @ r) = Some (xs, r)"
    by (induction xs) (simp_all add: assms)
  then show ?thesis by (simp add: dec_list_def enc_list_def)
qed

fun enc_claim :: "claim_value \<Rightarrow> string" where
  "enc_claim (CText s) = CHR ''t'' # enc_text s"
| "enc_claim (CBool b) = (if b then ''y'' else ''n'')"
| "enc_claim (CInt n) = (if n < 0 then CHR ''m'' else CHR ''p'') # enc_nat (nat \<bar>n\<bar>)"
| "enc_claim (CTexts l) = CHR ''l'' # enc_list enc_text l"

fun dec_claim :: "string \<Rightarrow> (claim_value \<times> string) option" where
  "dec_claim [] = None"
| "dec_claim (c # cs) =
     (if c = CHR ''t'' then map_option (map_prod CText id) (dec_text cs)
      else if c = CHR ''y'' then Some (CBool True, cs)
      else if c = CHR ''n'' then Some (CBool False, cs)
      else if c = CHR ''m'' then map_option (map_prod (\<lambda>n. CInt (- int n)) id) (dec_nat cs)
      else if c = CHR ''p'' then map_option (map_prod (\<lambda>n. CInt (int n)) id) (dec_nat cs)
      else map_option (map_prod CTexts id) (dec_list dec_text cs))"

lemma dec_enc_claim [simp]: "dec_claim (enc_claim v @ r) = Some (v, r)"
  by (cases v) (simp_all add: dec_enc_list)

definition enc_field :: "string \<times> claim_value \<Rightarrow> string" where
  "enc_field f = enc_text (fst f) @ enc_claim (snd f)"

definition dec_field :: "string \<Rightarrow> ((string \<times> claim_value) \<times> string) option" where
  "dec_field cs = Option.bind (dec_text cs) (\<lambda>(k, r). map_option (\<lambda>(v, r'). ((k, v), r')) (dec_claim r))"

lemma dec_enc_field: "dec_field (enc_field f @ r) = Some (f, r)"
  by (cases f) (simp add: dec_field_def enc_field_def)

text \<open>A token: the key identifier, the public key of the signer and the object.\<close>

definition sample_token :: "string \<Rightarrow> string \<Rightarrow> payload \<Rightarrow> string" where
  "sample_token kid pub m = enc_text kid @ enc_text pub @ enc_list enc_field m"

definition parse_sample :: "string \<Rightarrow> (string \<times> string \<times> payload) option" where
  "parse_sample cs =
     Option.bind (dec_text cs) (\<lambda>(kid, r). Option.bind (dec_text r) (\<lambda>(pub, r').
       map_option (\<lambda>(m, _). (kid, pub, m)) (dec_list dec_field r')))"

lemma parse_sample_token: "parse_sample (sample_token kid pub m) = Some (kid, pub, m)"
  using dec_enc_list [of dec_field enc_field m "[]"]
  by (simp add: parse_sample_def sample_token_def dec_enc_field)

end
