(* ===== verification/Sql_Properties.thy ===== *)
theory Sql_Properties
  imports Sample_World
begin

text \<open>
  Properties of the stores on PostgreSQL: the record of the users' grants, the signing keys, and
  the encryption of secrets at rest.
\<close>

section \<open>Grants\<close>

text \<open>
  C25. A revocation yields only to a newer grant. After a revocation at \<open>r\<close> has been recorded,
  along any sequence of renewals, uses and revocations, whatever requests fail or lose their reply,
  the row stays, and the grant that is reported active was given after \<open>r\<close>: a consent that was
  decided before the revocation but arrives later does not revive the grant.
\<close>

theorem revocation_yields_only_to_newer_grant:
  assumes "Revoke E w u c r = (w1, Inr ())"
  shows "grant_row (w_sql (grant_run E ops w1)) u c \<noteq> None \<and>
    (GetActive E (grant_run E ops w1) u c = (w2, Inr a) \<longrightarrow> pg_time r < oa_GrantedAt a)"
proof -
  have "ended (pg_time r) (grant_row (w_sql (grant_run E ops w1)) u c)"
    by (rule ended_run [OF Revoke_ended [OF assms]])
  then show ?thesis using GetActive_Inr [of E "grant_run E ops w1" u c w2 a] by (auto simp: ended_def)
qed

definition granted_world :: "unit world" where
  "granted_world = grant_run calm [Op_upsert ''u'' ''c'' [''openid''] [''sub''] 5000 1 1] sample_world"

theorem revocation_yields_only_to_newer_grant_witness:
  "snd (Revoke calm granted_world ''u'' ''c'' 9000) = Inr () \<and>
   (let w = grant_run calm [Op_upsert ''u'' ''c'' [''openid''] [''sub''] 8000 1 1]
        (fst (Revoke calm granted_world ''u'' ''c'' 9000))
    in \<forall>a. snd (GetActive calm w ''u'' ''c'') = Inr a \<longrightarrow> 9000 < oa_GrantedAt a)"
proof -
  let ?r = "Revoke calm granted_world ''u'' ''c'' 9000"
  have s: "snd ?r = Inr ()" by code_simp
  then have r: "?r = (fst ?r, Inr ())" by (cases ?r) simp
  have t: "pg_time 9000 = 9000" by (simp add: pg_time_def)
  note p = revocation_yields_only_to_newer_grant
      [OF r, of "[Op_upsert ''u'' ''c'' [''openid''] [''sub''] 8000 1 1]", unfolded t]
  show ?thesis using s p by (simp add: Let_def) (metis prod.collapse)
qed



section \<open>Signing keys\<close>

text \<open>
  C27. Signing keys outlive the tokens they sign. If a key signs at the time \<open>s\<close>, then along any
  sequence of rotations and forced generations, and for as long as the clock has not passed the end
  of the retention counted from \<open>s\<close> (the longest lifetime of a token and the clock skew), the
  list of verification keys contains the key unchanged; and the table keeps one signing key at most.
\<close>

theorem signing_keys_outlive_tokens:
  assumes "keys_ok (t_jwk (w_sql w))" and "map_of (t_jwk (w_sql w)) kid = Some j"
    and "jk_Status j = JWKStatusSigning"
    and "\<And>i. s \<le> e_now E i \<and> e_now E i < pg_time (s + jm_verificationRetention m)"
    and "ListActivePublicKeys E (key_run G K E m ops w) = (w', Inr js)"
  shows "(\<exists>i \<in> set js. jk_Kid i = kid \<and> jk_PublicKey i = jk_PublicKey j) \<and>
    length (filter (\<lambda>i. jk_Status i = JWKStatusSigning) (map snd (t_jwk (w_sql (key_run G K E m ops w))))) \<le> 1"
proof
  let ?v = "pg_time (s + jm_verificationRetention m)"
  have "jk_Kid j = kid" using assms(1) map_of_SomeD [OF assms(2)] by (auto simp: keys_ok_def)
  then have "verifies_until ?v (t_jwk (w_sql w)) kid (jk_PublicKey j)"
    using assms(2,3) by (auto simp: verifies_until_def)
  moreover have "s \<le> e_now E i \<and> pg_time (e_now E i) < ?v" for i
    using assms(4) [of i] pg_time_le(1) [of "e_now E i"] by linarith
  ultimately have "verifies_until ?v (t_jwk (w_sql (key_run G K E m ops w))) kid (jk_PublicKey j)"
    by (intro key_run_verifies)
  from verifies_listed [OF this _ assms(5)] assms(4)
  show "\<exists>i \<in> set js. jk_Kid i = kid \<and> jk_PublicKey i = jk_PublicKey j" by blast
  have "length (filter (\<lambda>(k, i). jk_Status i = JWKStatusSigning) (t_jwk (w_sql (key_run G K E m ops w)))) \<le> 1"
    using key_run_ok [OF assms(1), of G K E m ops] unfolding keys_ok_def by blast
  then show "length (filter (\<lambda>i. jk_Status i = JWKStatusSigning) (map snd (t_jwk (w_sql (key_run G K E m ops w))))) \<le> 1"
    by (simp add: filter_map comp_def case_prod_unfold)
qed

definition keyed_world :: "unit world" where
  "keyed_world = key_run sample_gcm sample_rsa calm sample_manager [Op_rotate] sample_world"

theorem signing_keys_outlive_tokens_witness:
  "\<exists>i \<in> set (projr (snd (ListActivePublicKeys quiet
        (key_run sample_gcm sample_rsa quiet sample_manager [Op_generate, Op_rotate] keyed_world)))).
     jk_Kid i = fst (hd (t_jwk (w_sql keyed_world)))"
proof -
  let ?k = "hd (t_jwk (w_sql keyed_world))"
  let ?l = "ListActivePublicKeys quiet (key_run sample_gcm sample_rsa quiet sample_manager [Op_generate, Op_rotate] keyed_world)"
  have ok: "keys_ok (t_jwk (w_sql keyed_world))"
    unfolding keyed_world_def by (rule key_run_ok) (simp add: keys_ok_def sample_world_def sample_tables_def)
  have k: "map_of (t_jwk (w_sql keyed_world)) (fst ?k) = Some (snd ?k)" "jk_Status (snd ?k) = JWKStatusSigning"
    by code_simp+
  have e: "e_now quiet i = 5000" for i by (simp add: quiet_def)
  have "5000 < pg_time (5000 + jm_verificationRetention sample_manager)" by code_simp
  then have c: "5000 \<le> e_now quiet i \<and> e_now quiet i < pg_time (5000 + jm_verificationRetention sample_manager)" for i
    by (simp add: e)
  have "isl (snd ?l) = False" by code_simp
  then have l: "?l = (fst ?l, Inr (projr (snd ?l)))" by (cases ?l; cases "snd ?l") auto
  from signing_keys_outlive_tokens [OF ok k c l] show ?thesis by blast
qed

text \<open>
  C28. A generated key is usable: the private key that signing then obtains from the encrypted
  column is the one whose public half the row publishes, under the identifier of the row.
\<close>

theorem generated_key_signs:
  assumes "gcm_laws G" and "rand_laws E" and "\<And>k. rsa_parse_private K (rsa_private_pem K k) = Some k"
    and "GenerateKey G K E m w = (w1, Inr j)" and "GetPrivateKey G K E m w1 = (w2, r)"
    and "e_sql E (w_tick w1) = Sql_served"
  shows "\<exists>key. r = Inr (key, jk_Kid j) \<and> rsa_public_pem K key = Some (jk_PublicKey j)"
proof -
  obtain u: "requireConfigured m = Inr ()" using assms(4) by (cases "requireConfigured m") (auto simp: GenerateKey_def)
  obtain w0 now where g: "generateKey G K E m w0 now = (w1, Inr j)"
    using assms(4) u
    by (auto simp: GenerateKey_def withRotationLock_def and_then_Inr Now_def split: sql_fate.splits prod.splits sum.splits if_splits)
  from g obtain key enc and wa wb :: "'a world" where k: "rsa_public_pem K key = Some (jk_PublicKey j)"
    and enc: "EncryptEnvelope G E wa (jm_derivedKey m) jwkEnvelopeKeyID jwkEnvelopePurpose (rsa_private_pem K key) (jk_Kid j) = (wb, Inr enc)"
    and j: "jk_EncryptedPrivateKey j = Some enc" "jk_Status j = JWKStatusSigning"
    and none: "\<forall>(k, i) \<in> set (t_jwk (w_sql w0)). jk_Status i \<noteq> JWKStatusSigning"
    and rows: "w_sql w1 = (w_sql w0)\<lparr>t_jwk := t_jwk (w_sql w0) @ [(jk_Kid j, j)]\<rparr>"
    by (rule generateKey_Inr)
  have "filter (\<lambda>i. jk_Status i = JWKStatusSigning) (map snd (t_jwk (w_sql w1))) = [j]"
    using none j(2) by (auto simp: rows filter_empty_conv)
  then have active: "GetActiveKey E w1 = (tick w1, Inr j)"
    by (simp add: GetActiveKey_def query_def assms(6) newest_first_def)
  have "enc \<noteq> []"
    by (rule EncryptEnvelope_Inr [OF enc]) (simp add: envelopeVersion_def)
  moreover have "DecryptEnvelope G [(jwkEnvelopeKeyID, jm_derivedKey m)] jwkEnvelopePurpose enc (jk_Kid j) = Inr (rsa_private_pem K key)"
    by (rule DecryptEnvelope_own [OF assms(1,2) _ enc]) simp
  ultimately have "r = Inr (key, jk_Kid j)"
    using assms(5) by (simp add: GetPrivateKey_def u active j(1) assms(3))
  with k show ?thesis by blast
qed

theorem generated_key_signs_witness:
  "\<exists>key i. snd (GetPrivateKey sample_gcm sample_rsa calm sample_manager
      (fst (GenerateKey sample_gcm sample_rsa calm sample_manager sample_world))) = Inr (key, i)"
proof -
  let ?g = "GenerateKey sample_gcm sample_rsa calm sample_manager sample_world"
  have p: "rsa_parse_private sample_rsa (rsa_private_pem sample_rsa k) = Some k" for k by (simp add: sample_rsa_def)
  have "isl (snd ?g) = False" by code_simp
  then have g: "?g = (fst ?g, Inr (projr (snd ?g)))" by (cases ?g; cases "snd ?g") auto
  have q: "GetPrivateKey sample_gcm sample_rsa calm sample_manager (fst ?g) =
      (fst (GetPrivateKey sample_gcm sample_rsa calm sample_manager (fst ?g)),
       snd (GetPrivateKey sample_gcm sample_rsa calm sample_manager (fst ?g)))" by simp
  have e: "e_sql calm (w_tick (fst ?g)) = Sql_served" by (simp add: calm_def)
  from generated_key_signs [OF sample_gcm_laws calm_rand p g q e] show ?thesis by blast
qed

section \<open>Secrets at rest\<close>



text \<open>
  A client secret is accepted for a stored hash exactly when it has the digest the hash was
  made from, and a hash in any other format accepts no secret.
\<close>

lemma client_secret_verification:
  assumes "\<And>x. length (sha256 x) = 32"
  shows "(VerifyClientSecret sha256 secret (HashClientSecret sha256 other) \<longleftrightarrow> sha256 secret = sha256 other) \<and>
    (VerifyClientSecret sha256 secret stored \<longrightarrow> HasPrefix stored ''$sha256$'')"
proof
  have p: "HasPrefix (''$sha256$'' @ s) ''$sha256$''" for s by simp
  show "VerifyClientSecret sha256 secret (HashClientSecret sha256 other) \<longleftrightarrow> sha256 secret = sha256 other"
    using p [of "b64std_text (sha256 other)"]
    by (simp add: VerifyClientSecret_def HashClientSecret_def b64std_roundtrip assms) auto
  show "VerifyClientSecret sha256 secret stored \<longrightarrow> HasPrefix stored ''$sha256$''"
    by (auto simp: VerifyClientSecret_def)
qed

end
