(* ===== verification/Client_Store.thy ===== *)
theory Client_Store
  imports Envelope
begin

text \<open>
  What the OAuth endpoints ask of the client and user tables: \<open>GetByID\<close>,
  \<open>ClientAuthorizationRevision\<close>, \<open>AuthenticateClient\<close>, \<open>UserMayAccess\<close>, the rotation of
  secrets and the replacement of an allowlist of \<open>internal/client/store.go\<close>, and \<open>GetByID\<close> of
  \<open>internal/user/store.go\<close>.
\<close>

definition client_GetByID :: "env \<Rightarrow> 'db world \<Rightarrow> string \<Rightarrow> 'db world \<times> (sql_error + oauth_client)" where
  "client_GetByID E w i =
     query E w (\<lambda>t. case map_of (t_clients t) i of None \<Rightarrow> Inl SqlNoRows | Some c \<Rightarrow> Inr c)"

definition ClientAuthorizationRevision :: "env \<Rightarrow> 'db world \<Rightarrow> string \<Rightarrow> 'db world \<times> (sql_error + int)" where
  "ClientAuthorizationRevision E w clientID =
     query E w (\<lambda>t. case map_of (t_clients t) clientID of
       None \<Rightarrow> Inl SqlNoRows | Some c \<Rightarrow> Inr (oc_AuthorizationRevision c))"

definition user_GetByID :: "env \<Rightarrow> 'db world \<Rightarrow> uuid \<Rightarrow> 'db world \<times> (sql_error + user)" where
  "user_GetByID E w i =
     query E w (\<lambda>t. case map_of (t_users t) i of None \<Rightarrow> Inl SqlNoRows | Some u \<Rightarrow> Inr u)"

text \<open>
  \<open>AuthenticateClient\<close>: every failure is the same error, so that a caller learns nothing; the
  moment of use is recorded in the row and in the client that is returned.
\<close>

definition AuthenticateClient ::
    "(string \<Rightarrow> string) \<Rightarrow> env \<Rightarrow> 'db world \<Rightarrow> string \<Rightarrow> string \<Rightarrow> 'db world \<times> (unit + oauth_client)" where
  "AuthenticateClient sha256 E w clientID clientSecret =
     (case Now E w of (w1, usedAt) \<Rightarrow>
        transact E () w1 (\<lambda>t.
          case map_of (t_clients t) clientID of
            None \<Rightarrow> Inl ()
          | Some c \<Rightarrow>
              (case oc_SecretHash c of
                 None \<Rightarrow> Inl ()
               | Some hash \<Rightarrow>
                   (if \<not> VerifyClientSecret sha256 clientSecret hash then Inl ()
                    else Inr (t\<lparr>t_clients := AList.update clientID
                                  (c\<lparr>oc_SecretLastUsedAt := Some (pg_time usedAt)\<rparr>) (t_clients t)\<rparr>,
                              c\<lparr>oc_SecretLastUsedAt := Some usedAt\<rparr>)))))"

definition access_decision :: "string \<Rightarrow> bool \<Rightarrow> string option \<Rightarrow> bool" where
  "access_decision policy allowlisted role =
     (if policy = ClientAccessAdminsOnly then role = Some ''admin''
      else if policy = ClientAccessAllowlist then allowlisted
      else True)"

definition UserMayAccess :: "env \<Rightarrow> 'db world \<Rightarrow> string \<Rightarrow> string \<Rightarrow> 'db world \<times> (sql_error + bool)" where
  "UserMayAccess E w clientID userID =
     (case query E w (\<lambda>t. case e_pg_uuid E userID of
             None \<Rightarrow> Inl SqlConstraint
           | Some u \<Rightarrow>
               (case map_of (t_clients t) clientID of
                  None \<Rightarrow> Inl SqlNoRows
                | Some c \<Rightarrow> Inr (oc_AccessPolicy c, (clientID, u) \<in> set (t_access t),
                                map_option us_Role (map_of (t_users t) u)))) of
        (w1, Inl SqlNoRows) \<Rightarrow> (w1, Inr False)
      | (w1, Inl e) \<Rightarrow> (w1, Inl e)
      | (w1, Inr (policy, allowlisted, role)) \<Rightarrow> (w1, Inr (access_decision policy allowlisted role)))"

text \<open>\<open>rotateSecret\<close>: the new hash replaces the old one; public clients have no secret.\<close>

definition rotateSecret ::
    "env \<Rightarrow> 'db world \<Rightarrow> string \<Rightarrow> string \<Rightarrow> bool \<Rightarrow> string \<Rightarrow> string \<Rightarrow> gotime \<Rightarrow> 'db world \<times> (sql_error + int)" where
  "rotateSecret E w clientID ownerID owned secretHash secretHint rotatedAt =
     transact E SqlUnavailable w (\<lambda>t.
       case map_of (t_clients t) clientID of
         None \<Rightarrow> Inl SqlNoRows
       | Some c \<Rightarrow>
           (if oc_IsPublic c \<or> (owned \<and> oc_OwnerID c \<noteq> Some ownerID) then Inl SqlNoRows
            else Inr (t\<lparr>t_clients := AList.update clientID
                   (c\<lparr>oc_SecretHash := Some secretHash, oc_SecretHint := Some secretHint,
                      oc_SecretVersion := oc_SecretVersion c + 1,
                      oc_SecretRotatedAt := Some (pg_time rotatedAt), oc_SecretLastUsedAt := None\<rparr>) (t_clients t)\<rparr>,
                 oc_SecretVersion c + 1)))"

definition RotateSecretForOwner ::
    "env \<Rightarrow> 'db world \<Rightarrow> string \<Rightarrow> string \<Rightarrow> string \<Rightarrow> string \<Rightarrow> gotime \<Rightarrow> 'db world \<times> (sql_error + int)" where
  "RotateSecretForOwner E w clientID ownerID secretHash secretHint rotatedAt =
     rotateSecret E w clientID ownerID True secretHash secretHint rotatedAt"

section \<open>Lemmas\<close>

lemma lookups_sql [simp]:
  "w_sql (fst (client_GetByID E w i)) = w_sql w" "w_redis (fst (client_GetByID E w i)) = w_redis w"
  "w_sql (fst (ClientAuthorizationRevision E w i)) = w_sql w" "w_redis (fst (ClientAuthorizationRevision E w i)) = w_redis w"
  "w_sql (fst (user_GetByID E w i)) = w_sql w" "w_redis (fst (user_GetByID E w i)) = w_redis w"
  by (simp_all add: client_GetByID_def ClientAuthorizationRevision_def user_GetByID_def)

lemma UserMayAccess_world [simp]:
  "w_sql (fst (UserMayAccess E w c u)) = w_sql w" "w_redis (fst (UserMayAccess E w c u)) = w_redis w"
  by (auto simp: UserMayAccess_def query_def split: sql_fate.splits option.splits prod.splits sum.splits sql_error.splits)

lemma client_GetByID_Inr: "client_GetByID E w i = (w', Inr c) \<Longrightarrow> map_of (t_clients (w_sql w)) i = Some c \<and> w' = tick w"
  by (auto simp: client_GetByID_def query_Inr split: option.splits)

lemma user_GetByID_Inr: "user_GetByID E w i = (w', Inr u) \<Longrightarrow> map_of (t_users (w_sql w)) i = Some u \<and> w' = tick w"
  by (auto simp: user_GetByID_def query_Inr split: option.splits)

lemma ClientAuthorizationRevision_Inr:
  "ClientAuthorizationRevision E w i = (w', Inr n) \<Longrightarrow>
     \<exists>c. map_of (t_clients (w_sql w)) i = Some c \<and> n = oc_AuthorizationRevision c \<and> w' = tick w"
  by (auto simp: ClientAuthorizationRevision_def query_Inr split: option.splits)

lemma AuthenticateClient_Inr:
  assumes "AuthenticateClient sha256 E w i secret = (w', Inr c)"
  obtains c0 hash at where "map_of (t_clients (w_sql w)) i = Some c0" and "oc_SecretHash c0 = Some hash"
    and "VerifyClientSecret sha256 secret hash" and "c = c0\<lparr>oc_SecretLastUsedAt := Some at\<rparr>"
    and "w_redis w' = w_redis w"
proof -
  obtain w1 at where n: "Now E w = (w1, at)" by (cases "Now E w")
  then have w1: "w_sql w1 = w_sql w" "w_redis w1 = w_redis w" by (auto simp: Now_def)
  show thesis
    using assms n
    by (auto simp: AuthenticateClient_def w1 split: option.splits if_splits elim!: transact_Inr)
      (rule that, assumption+, simp_all add: w1)
qed

text \<open>Access under a policy: administrators only, the allowlist, or everybody.\<close>

lemma UserMayAccess_True:
  assumes "UserMayAccess E w c u = (w', Inr True)"
  shows "\<exists>cl v. map_of (t_clients (w_sql w)) c = Some cl \<and> e_pg_uuid E u = Some v \<and>
    (oc_AccessPolicy cl = ClientAccessAdminsOnly \<longrightarrow> (\<exists>x. map_of (t_users (w_sql w)) v = Some x \<and> us_Role x = ''admin'')) \<and>
    (oc_AccessPolicy cl = ClientAccessAllowlist \<longrightarrow> (c, v) \<in> set (t_access (w_sql w)))"
  using assms
  by (auto simp: UserMayAccess_def query_def access_decision_def ClientAccessAdminsOnly_def ClientAccessAllowlist_def
      split: sql_fate.splits option.splits prod.splits sum.splits sql_error.splits if_splits)

end
