(* ===== verification/Token_Service.thy ===== *)
theory Token_Service
  imports Jwt_Claims Client_Store Authorization_Store Session_Store
begin

text \<open>
  The token service, \<open>internal/auth/token.go\<close>: lifetimes, issuance, validation, refresh,
  revocation and introspection. The packages it is built on are gathered in one record
  \<open>services\<close>. A component that may be missing (a nil pointer in the structure) is a flag. The
  loader of public keys that tests install is not modelled: keys come from the key manager.
\<close>

section \<open>Configuration\<close>

record token_lifetimes =
  tl_AccessToken :: duration
  tl_RefreshToken :: duration
  tl_AuthorizationCode :: duration

record token_service =
  ts_issuer :: string
  ts_fallback :: token_lifetimes
  ts_lifetimeSource :: "token_lifetimes option"
  ts_revocationTTL :: duration
  ts_codeRetention :: duration
  ts_users :: bool
  ts_accessPolicy :: bool
  ts_authorizationUsage :: bool

record 'db services =
  sv_redis :: "'db redis"
  sv_digest :: "string \<Rightarrow> string"
  sv_sha256 :: "string \<Rightarrow> string"
  sv_gcm :: gcm
  sv_rsa :: rsa
  sv_jwt :: jwt
  sv_env :: env
  sv_keys :: jwk_manager
  sv_tokens :: token_service

definition jwtClockSkew :: duration where "jwtClockSkew = 2 * Minute"

definition maxDuration :: "duration list \<Rightarrow> duration" where
  "maxDuration vs = fold (\<lambda>v maximum. if v > maximum then v else maximum) vs 0"

definition NewTokenService :: "string \<Rightarrow> duration \<Rightarrow> duration \<Rightarrow> token_service" where
  "NewTokenService issuer accessTTL refreshTTL =
     \<lparr>ts_issuer = TrimRightSlash issuer,
      ts_fallback = \<lparr>tl_AccessToken = accessTTL, tl_RefreshToken = refreshTTL, tl_AuthorizationCode = 0\<rparr>,
      ts_lifetimeSource = None, ts_revocationTTL = maxDuration [accessTTL, refreshTTL], ts_codeRetention = 0,
      ts_users = False, ts_accessPolicy = False, ts_authorizationUsage = False\<rparr>"

definition SetLifetimeSource ::
    "token_service \<Rightarrow> token_lifetimes \<Rightarrow> duration \<Rightarrow> duration \<Rightarrow> duration \<Rightarrow> token_service" where
  "SetLifetimeSource ts source maximumAccessTTL maximumRefreshTTL maximumCodeTTL =
     ts\<lparr>ts_lifetimeSource := Some source,
        ts_revocationTTL := maxDuration [ts_revocationTTL ts, maximumAccessTTL, maximumRefreshTTL],
        ts_codeRetention := maxDuration [tl_AuthorizationCode (ts_fallback ts), maximumCodeTTL]\<rparr>"

definition SetAuthorizationCodeFallback :: "token_service \<Rightarrow> duration \<Rightarrow> token_service" where
  "SetAuthorizationCodeFallback ts ttl =
     (if ttl \<le> 0 then ts
      else ts\<lparr>ts_fallback := (ts_fallback ts)\<lparr>tl_AuthorizationCode := ttl\<rparr>,
              ts_codeRetention := maxDuration [ts_codeRetention ts, ttl]\<rparr>)"

definition Lifetimes :: "token_service \<Rightarrow> token_lifetimes" where
  "Lifetimes ts =
     (case ts_lifetimeSource ts of
        None \<Rightarrow> ts_fallback ts
      | Some candidate \<Rightarrow>
          \<lparr>tl_AccessToken = (if tl_AccessToken candidate > 0 then tl_AccessToken candidate
                             else tl_AccessToken (ts_fallback ts)),
           tl_RefreshToken = (if tl_RefreshToken candidate > 0 then tl_RefreshToken candidate
                              else tl_RefreshToken (ts_fallback ts)),
           tl_AuthorizationCode = (if tl_AuthorizationCode candidate > 0 then tl_AuthorizationCode candidate
                                   else tl_AuthorizationCode (ts_fallback ts))\<rparr>)"

definition AuthorizationCodeRetention :: "token_service \<Rightarrow> duration" where
  "AuthorizationCodeRetention ts =
     (if ts_codeRetention ts > 0 then ts_codeRetention ts else tl_AuthorizationCode (Lifetimes ts))"

section \<open>Errors\<close>

datatype token_error =
    ErrInvalidToken | ErrClientMismatch | ErrTokenReuse | ErrTokenValidationUnavailable
  | TokenAuthVersion | TokenKey jwk_error | TokenSigning | TokenRandom | TokenStore store_error

definition map_error :: "('e \<Rightarrow> 'f) \<Rightarrow> 's \<times> ('e + 'a) \<Rightarrow> 's \<times> ('f + 'a)" where
  "map_error g m = (fst m, case snd m of Inl e \<Rightarrow> Inl (g e) | Inr x \<Rightarrow> Inr x)"

section \<open>Checks on a token's subject and grant\<close>

definition validateUser :: "'db services \<Rightarrow> 'db world \<Rightarrow> string \<Rightarrow> int \<Rightarrow> 'db world \<times> (token_error + unit)" where
  "validateUser S w subject authVersion =
     (if authVersion = 0 then (w, Inr ())
      else if \<not> ts_users (sv_tokens S) then (w, Inl ErrInvalidToken)
      else case e_parse_uuid (sv_env S) subject of
             None \<Rightarrow> (w, Inl ErrInvalidToken)
           | Some i \<Rightarrow>
               (case user_GetByID (sv_env S) w i of
                  (w1, Inl SqlNoRows) \<Rightarrow> (w1, Inl ErrInvalidToken)
                | (w1, Inl _) \<Rightarrow> (w1, Inl ErrTokenValidationUnavailable)
                | (w1, Inr u) \<Rightarrow>
                    (w1, if us_Status u \<noteq> UserStatusActive \<or> us_AuthVersion u \<noteq> authVersion
                         then Inl ErrInvalidToken else Inr ())))"

definition currentClientAuthorizationRevision ::
    "'db services \<Rightarrow> 'db world \<Rightarrow> string \<Rightarrow> 'db world \<times> (token_error + int)" where
  "currentClientAuthorizationRevision S w clientID =
     (if \<not> ts_accessPolicy (sv_tokens S) then (w, Inl ErrInvalidToken)
      else on_result (\<lambda>revision. if revision < 1 then Inl ErrInvalidToken else Inr revision)
             (map_error (\<lambda>_. ErrTokenValidationUnavailable) (ClientAuthorizationRevision (sv_env S) w clientID)))"

definition validateAuthorization :: "'db services \<Rightarrow> 'db world \<Rightarrow> token_data \<Rightarrow> 'db world \<times> (token_error + unit)" where
  "validateAuthorization S w data =
     (if td_AuthVersion data = 0 then (w, Inr ())
      else if td_AuthorizationIssuedAt data \<le> 0 \<or> td_UserID data = [] \<or> td_ClientID data = []
      then (w, Inl ErrInvalidToken)
      else
        and_then (map_error (\<lambda>_. ErrTokenValidationUnavailable)
            (on_redis w (IsUserClientAuthorizationRevoked (sv_redis S) (sv_digest S) (w_redis w)
               (td_UserID data) (td_ClientID data) (td_AuthorizationIssuedAt data))))
          (\<lambda>w1 revoked.
             if revoked then (w1, Inl ErrInvalidToken)
             else and_then (currentClientAuthorizationRevision S w1 (td_ClientID data))
               (\<lambda>w2 currentRevision.
                  let issuedRevision = (if td_ClientAuthorizationRevision data = 0 then 1
                                        else td_ClientAuthorizationRevision data)
                  in (w2, if issuedRevision \<noteq> currentRevision then Inl ErrInvalidToken else Inr ()))))"

definition validateAccessPolicy :: "'db services \<Rightarrow> 'db world \<Rightarrow> token_data \<Rightarrow> 'db world \<times> (token_error + unit)" where
  "validateAccessPolicy S w data =
     (if td_AuthVersion data = 0 \<or> \<not> ts_accessPolicy (sv_tokens S) then (w, Inr ())
      else on_result (\<lambda>allowed. if \<not> allowed then Inl ErrInvalidToken else Inr ())
             (map_error (\<lambda>_. ErrTokenValidationUnavailable)
                (UserMayAccess (sv_env S) w (td_ClientID data) (td_UserID data))))"

section \<open>Signed tokens\<close>

definition access_claims :: "token_service \<Rightarrow> gotime \<Rightarrow> string \<Rightarrow> string \<Rightarrow> string \<Rightarrow> string list \<Rightarrow>
    string list option \<Rightarrow> int \<Rightarrow> duration \<Rightarrow> claims" where
  "access_claims ts now jti clientID subject scopes allowedClaims authVersion accessTTL =
     \<lparr>jc_Issuer = ts_issuer ts, jc_Subject = subject, jc_Audience = [clientID],
      jc_ExpiresAt = Some (Unix (now + accessTTL)), jc_NotBefore = Some (Unix now), jc_IssuedAt = Some (Unix now),
      jc_ID = jti, jc_Scope = joinScopes scopes, jc_AllowedClaims = allowedClaims,
      jc_ClaimNamesSet = (allowedClaims \<noteq> None), jc_TokenUse = ''access'', jc_AuthVersion = authVersion,
      jc_Nonce = [], jc_AuthenticationContext = [], jc_AuthenticationMethods = [], jc_AuthenticationTime = 0\<rparr>"

definition signAccessToken ::
    "'db services \<Rightarrow> 'db world \<Rightarrow> string \<Rightarrow> string \<Rightarrow> string list \<Rightarrow> string list option \<Rightarrow> int \<Rightarrow> duration \<Rightarrow>
     issuance_authentication \<Rightarrow> 'db world \<times> (token_error + (string \<times> string))" where
  "signAccessToken S w clientID subject scopes allowedClaims authVersion accessTTL authentication =
     and_then (map_error TokenKey (GetPrivateKey (sv_gcm S) (sv_rsa S) (sv_env S) (sv_keys S) w))
       (\<lambda>w1 (privateKey, kid).
          let (w2, now) = Now (sv_env S) w1;
              (w3, jti) = NewUUID (sv_env S) w2;
              (w4, c) = applyAuthenticationClaims (sv_env S) w3
                          (access_claims (sv_tokens S) now jti clientID subject scopes allowedClaims authVersion accessTTL)
                          authentication
          in (w4, case jwt_sign (sv_jwt S) privateKey kid (claims_payload c) of
                    None \<Rightarrow> Inl TokenSigning
                  | Some signed \<Rightarrow> Inr (signed, jti)))"

fun find_public_key :: "rsa \<Rightarrow> string \<Rightarrow> jwk list \<Rightarrow> token_error + string" where
  "find_public_key K kid [] = Inl ErrInvalidToken"
| "find_public_key K kid (key # keys) =
     (if jk_Kid key \<noteq> kid \<or> jk_Algorithm key \<noteq> ''RS256'' \<or> jk_KeyType key \<noteq> ''RSA'' \<or> jk_Usage key \<noteq> ''sig''
      then find_public_key K kid keys
      else case rsa_parse_public K (jk_PublicKey key) of
             None \<Rightarrow> Inl ErrTokenValidationUnavailable
           | Some publicKey \<Rightarrow> Inr publicKey)"

definition getPublicKey :: "'db services \<Rightarrow> 'db world \<Rightarrow> string \<Rightarrow> 'db world \<times> (token_error + string)" where
  "getPublicKey S w kid =
     on_result (find_public_key (sv_rsa S) kid)
       (map_error (\<lambda>_. ErrTokenValidationUnavailable) (ListActivePublicKeys (sv_env S) w))"

definition checked_claims :: "string \<Rightarrow> payload option \<Rightarrow> token_error + claims" where
  "checked_claims issuer parsed =
     (case Option.bind parsed decode_claims of
        None \<Rightarrow> Inl ErrInvalidToken
      | Some c \<Rightarrow>
          (if jc_Issuer c \<noteq> issuer \<or> jc_ExpiresAt c = None \<or> jc_IssuedAt c = None \<or> jc_NotBefore c = None
           then Inl ErrInvalidToken else Inr c))"

definition parseSignedToken :: "'db services \<Rightarrow> 'db world \<Rightarrow> string \<Rightarrow> 'db world \<times> (token_error + claims)" where
  "parseSignedToken S w tokenString =
     (case jwt_header (sv_jwt S) tokenString of
        None \<Rightarrow> (w, Inl ErrInvalidToken)
      | Some (alg, kid) \<Rightarrow>
          (if alg \<noteq> ''RS256'' \<or> kid = None \<or> kid = Some [] then (w, Inl ErrInvalidToken)
           else and_then (getPublicKey S w (the kid)) (\<lambda>w1 publicKey.
             case Now (sv_env S) w1 of (w2, now) \<Rightarrow>
               (w2, checked_claims (ts_issuer (sv_tokens S))
                      (jwt_parse (sv_jwt S) publicKey (ts_issuer (sv_tokens S)) jwtClockSkew now tokenString)))))"

text \<open>The comparison of the claims of an access token with the record stored for it.\<close>

definition metadata_matches :: "token_data \<Rightarrow> claims \<Rightarrow> bool" where
  "metadata_matches d c \<longleftrightarrow>
     td_TokenUse d = ''access'' \<and> td_ClientID d = hd (jc_Audience c) \<and> td_UserID d = jc_Subject c \<and>
     td_AuthVersion d = jc_AuthVersion c \<and> joinScopes (td_Scopes d) = jc_Scope c \<and>
     td_ClaimNamesSet d = jc_ClaimNamesSet c \<and> list_of (td_AllowedClaims d) = list_of (jc_AllowedClaims c) \<and>
     td_AuthenticationContext d = jc_AuthenticationContext c \<and>
     td_AuthenticationTime d = jc_AuthenticationTime c \<and>
     td_AuthenticationMethods d = jc_AuthenticationMethods c"

definition ValidateAccessToken :: "'db services \<Rightarrow> 'db world \<Rightarrow> string \<Rightarrow> 'db world \<times> (token_error + claims)" where
  "ValidateAccessToken S w tokenString =
     and_then (map_error (\<lambda>e. if e = ErrTokenValidationUnavailable then e else ErrInvalidToken)
         (parseSignedToken S w tokenString))
       (\<lambda>w1 c.
          if jc_TokenUse c \<noteq> ''access'' \<or> jc_ID c = [] \<or> length (jc_Audience c) \<noteq> 1 then (w1, Inl ErrInvalidToken)
          else and_then (map_error (\<lambda>e. if e = ErrNotFound then ErrInvalidToken else ErrTokenValidationUnavailable)
                 (on_redis w1 (GetToken (sv_redis S) (sv_digest S) (w_redis w1) (jc_ID c))))
            (\<lambda>w2 metadata.
               if \<not> metadata_matches metadata c then (w2, Inl ErrInvalidToken)
               else and_then (validateUser S w2 (jc_Subject c) (jc_AuthVersion c)) (\<lambda>w3 _.
                    and_then (validateAuthorization S w3 metadata) (\<lambda>w4 _.
                    and_then (validateAccessPolicy S w4 metadata) (\<lambda>w5 _. (w5, Inr c))))))"

definition ValidateIDToken :: "'db services \<Rightarrow> 'db world \<Rightarrow> string \<Rightarrow> 'db world \<times> (token_error + claims)" where
  "ValidateIDToken S w tokenString =
     (case parseSignedToken S w tokenString of
        (w1, Inl _) \<Rightarrow> (w1, Inl ErrInvalidToken)
      | (w1, Inr c) \<Rightarrow>
          (if jc_TokenUse c \<noteq> ''id'' \<or> jc_Subject c = [] \<or> length (jc_Audience c) \<noteq> 1
           then (w1, Inl ErrInvalidToken)
           else and_then (validateUser S w1 (jc_Subject c) (jc_AuthVersion c)) (\<lambda>w2 _. (w2, Inr c))))"

section \<open>Issuance\<close>

record token_pair =
  tp_AccessToken :: string
  tp_TokenType :: string
  tp_ExpiresIn :: int
  tp_RefreshToken :: string
  tp_Scope :: string
  tp_IDToken :: string

text \<open>The record stored for a token, and the recording of a grant's use, whose failure is only logged.\<close>

definition issued_data :: "string \<Rightarrow> string \<Rightarrow> string list \<Rightarrow> string list option \<Rightarrow> string \<Rightarrow> int \<Rightarrow>
    issuance_authentication \<Rightarrow> string \<Rightarrow> int \<Rightarrow> int \<Rightarrow> token_data" where
  "issued_data clientID subject scopes allowedClaims tokenUse authVersion a familyKey authorizationIssuedAt clientRevision =
     \<lparr>td_ClientID = clientID, td_UserID = subject, td_Scopes = scopes, td_AllowedClaims = allowedClaims,
      td_ClaimNamesSet = (allowedClaims \<noteq> None), td_TokenUse = tokenUse, td_AuthVersion = authVersion,
      td_AuthenticationContext = ia_Context a, td_AuthenticationMethods = ia_Methods a,
      td_AuthenticationTime = ia_AuthTime a, td_FamilyID = [], td_FamilyKey = familyKey, td_UserKey = [],
      td_AuthorizationIssuedAt = authorizationIssuedAt, td_ClientAuthorizationRevision = clientRevision\<rparr>"

definition record_usage :: "'db services \<Rightarrow> 'db world \<Rightarrow> string \<Rightarrow> string \<Rightarrow> int \<Rightarrow> 'db world" where
  "record_usage S w subject clientID authVersion =
     (if authVersion > 0 \<and> ts_authorizationUsage (sv_tokens S)
      then case Now (sv_env S) w of (w1, now) \<Rightarrow>
        (case e_parse_uuid (sv_env S) subject of
           None \<Rightarrow> w1
         | Some u \<Rightarrow> fst (MarkUsed (sv_env S) w1 u clientID now))
      else w)"

definition save_new_refresh :: "'db services \<Rightarrow> 'db world \<Rightarrow> token_data \<Rightarrow> duration \<Rightarrow>
    'db world \<times> (token_error + (string \<times> string))" where
  "save_new_refresh S w data ttl =
     (case GenerateRandomString (sv_env S) w 32 of
        (w1, None) \<Rightarrow> (w1, Inl TokenRandom)
      | (w1, Some refresh) \<Rightarrow>
          (case GenerateRandomString (sv_env S) w1 32 of (w2, family) \<Rightarrow>
             on_result (\<lambda>stored. Inr (refresh, td_FamilyKey stored))
               (map_error TokenStore
                  (on_redis w2 (SaveRefreshToken (sv_redis S) (sv_digest S) (w_redis w2) refresh data ttl family)))))"

definition revoke_refresh :: "'db services \<Rightarrow> 'db world \<Rightarrow> string \<Rightarrow> string \<Rightarrow> 'db world \<times> unit result" where
  "revoke_refresh S w refreshToken clientID =
     on_redis w (RevokeRefreshTokenForClient (sv_redis S) (sv_digest S) (w_redis w) refreshToken clientID
       (ts_revocationTTL (sv_tokens S)))"

text \<open>The record of the access token; when it cannot be stored, the new refresh token is revoked.\<close>

definition store_access ::
    "'db services \<Rightarrow> 'db world \<Rightarrow> string \<Rightarrow> string \<Rightarrow> token_data \<Rightarrow> string \<Rightarrow> duration \<Rightarrow> 'db world \<times> (token_error + unit)" where
  "store_access S w clientID jti data refresh ttl =
     (case (if td_FamilyKey data = []
            then on_redis w (SaveToken (sv_redis S) (sv_digest S) (w_redis w) jti data ttl)
            else on_redis w (SaveTokenForRefreshFamily (sv_redis S) (sv_digest S) (w_redis w) jti data (td_FamilyKey data) ttl)) of
        (w1, Inl e) \<Rightarrow> (if refresh \<noteq> [] then fst (revoke_refresh S w1 refresh clientID) else w1, Inl (TokenStore e))
      | (w1, Inr _) \<Rightarrow> (w1, Inr ()))"

definition generateTokenPair ::
    "'db services \<Rightarrow> 'db world \<Rightarrow> string \<Rightarrow> string \<Rightarrow> string list \<Rightarrow> string list option \<Rightarrow> int \<Rightarrow> bool \<Rightarrow> string \<Rightarrow>
     int \<Rightarrow> int \<Rightarrow> issuance_authentication \<Rightarrow> 'db world \<times> (token_error + token_pair)" where
  "generateTokenPair S w clientID subject scopes allowedClaims authVersion issueRefresh familyKey
       authorizationIssuedAt clientAuthorizationRevision authentication =
     (let lifetimes = Lifetimes (sv_tokens S)
      in and_then (signAccessToken S w clientID subject scopes allowedClaims authVersion (tl_AccessToken lifetimes) authentication)
       (\<lambda>w1 (access, jti).
          and_then
            (if issueRefresh
             then save_new_refresh S w1
                    (issued_data clientID subject scopes allowedClaims ''refresh'' authVersion authentication []
                       authorizationIssuedAt clientAuthorizationRevision) (tl_RefreshToken lifetimes)
             else (w1, Inr ([], familyKey)))
            (\<lambda>w2 (refresh, family).
               and_then (store_access S w2 clientID jti
                   (issued_data clientID subject scopes allowedClaims ''access'' authVersion authentication family
                      authorizationIssuedAt clientAuthorizationRevision) refresh (tl_AccessToken lifetimes))
                 (\<lambda>w3 _.
                    (record_usage S w3 subject clientID authVersion,
                     Inr \<lparr>tp_AccessToken = access, tp_TokenType = ''Bearer'',
                          tp_ExpiresIn = tl_AccessToken lifetimes div Second,
                          tp_RefreshToken = (if issueRefresh then refresh else []),
                          tp_Scope = joinScopes scopes, tp_IDToken = []\<rparr>)))))"

definition normalizedClientRevision :: "int \<Rightarrow> int" where
  "normalizedClientRevision revision = (if revision = 0 then 1 else revision)"

definition grant_subject :: "string \<Rightarrow> string \<Rightarrow> int \<Rightarrow> int \<Rightarrow> int \<Rightarrow> token_data" where
  "grant_subject clientID userID authVersion authorizationIssuedAt clientRevision =
     issued_data clientID userID [] None [] authVersion no_authentication [] authorizationIssuedAt clientRevision"

text \<open>\<open>GenerateAuthorizationCodeTokenPairAtRevisionWithClaimsAndAuthentication\<close>.\<close>

definition GenerateAuthorizationCodeTokenPair ::
    "'db services \<Rightarrow> 'db world \<Rightarrow> string \<Rightarrow> string \<Rightarrow> string list \<Rightarrow> string list option \<Rightarrow> int \<Rightarrow> int \<Rightarrow> int \<Rightarrow>
     issuance_authentication \<Rightarrow> bool \<Rightarrow> 'db world \<times> (token_error + token_pair)" where
  "GenerateAuthorizationCodeTokenPair S w clientID userID scopes allowedClaims authVersion authorizationIssuedAt
       expectedClientRevision authentication issueRefresh =
     (if authVersion \<le> 0 \<or> authorizationIssuedAt \<le> 0 then (w, Inl TokenAuthVersion)
      else and_then (currentClientAuthorizationRevision S w clientID) (\<lambda>w1 clientRevision.
        if expectedClientRevision > 0 \<and> clientRevision \<noteq> normalizedClientRevision expectedClientRevision
        then (w1, Inl ErrInvalidToken)
        else and_then (validateAuthorization S w1
               (grant_subject clientID userID authVersion authorizationIssuedAt clientRevision)) (\<lambda>w2 _.
          generateTokenPair S w2 clientID userID scopes allowedClaims authVersion issueRefresh []
            authorizationIssuedAt clientRevision authentication)))"

definition GenerateClientTokenPair ::
    "'db services \<Rightarrow> 'db world \<Rightarrow> string \<Rightarrow> string list \<Rightarrow> 'db world \<times> (token_error + token_pair)" where
  "GenerateClientTokenPair S w clientID scopes =
     generateTokenPair S w clientID clientID scopes None 0 False [] 0 0 no_authentication"

section \<open>ID tokens\<close>

definition id_claims :: "token_service \<Rightarrow> gotime \<Rightarrow> string \<Rightarrow> string \<Rightarrow> string \<Rightarrow> duration \<Rightarrow> int \<Rightarrow> string \<Rightarrow> payload" where
  "id_claims ts now jti clientID userID accessTTL authVersion nonce =
     [(''iss'', CText (ts_issuer ts)), (''sub'', CText userID), (''aud'', CText clientID),
      (''exp'', CInt (Unix (now + accessTTL))), (''iat'', CInt (Unix now)), (''nbf'', CInt (Unix now)),
      (''jti'', CText jti), (''token_use'', CText ''id''), (''auth_version'', CInt authVersion)] @
     field ''nonce'' (nonce \<noteq> []) (CText nonce)"

definition add_claims :: "payload \<Rightarrow> payload \<Rightarrow> payload" where
  "add_claims info m = fold (\<lambda>(k, v). AList.update k v) info m"

text \<open>\<open>GenerateIDTokenWithClaimsAndAuthentication\<close>.\<close>

definition subject_version :: "'db services \<Rightarrow> 'db world \<Rightarrow> string \<Rightarrow> 'db world \<times> (token_error + int)" where
  "subject_version S w userID =
     (case e_parse_uuid (sv_env S) userID of
        None \<Rightarrow> (w, Inr 0)
      | Some i \<Rightarrow>
          (if \<not> ts_users (sv_tokens S) then (w, Inr 0)
           else on_result (\<lambda>u. if us_Status u \<noteq> UserStatusActive then Inl ErrInvalidToken else Inr (us_AuthVersion u))
                  (map_error (\<lambda>_. ErrInvalidToken) (user_GetByID (sv_env S) w i))))"

definition GenerateIDToken ::
    "'db services \<Rightarrow> 'db world \<Rightarrow> string \<Rightarrow> string \<Rightarrow> string list \<Rightarrow> string \<Rightarrow> user_info \<Rightarrow> issuance_authentication \<Rightarrow>
     'db world \<times> (token_error + string)" where
  "GenerateIDToken S w clientID userID allowedClaims nonce userInfo authentication =
     and_then (subject_version S w userID) (\<lambda>w1 authVersion.
       and_then (map_error TokenKey (GetPrivateKey (sv_gcm S) (sv_rsa S) (sv_env S) (sv_keys S) w1))
         (\<lambda>w2 (privateKey, kid).
            let (w3, now) = Now (sv_env S) w2;
                (w4, jti) = NewUUID (sv_env S) w3;
                (w5, m) = applyAuthenticationMapClaims (sv_env S) w4
                            (id_claims (sv_tokens S) now jti clientID userID (tl_AccessToken (Lifetimes (sv_tokens S)))
                               authVersion nonce) authentication
            in (w5, case jwt_sign (sv_jwt S) privateKey kid (add_claims (claimLimitedUserInfo allowedClaims userInfo) m) of
                      None \<Rightarrow> Inl TokenSigning
                    | Some signed \<Rightarrow> Inr signed)))"

section \<open>Refresh, revocation and introspection\<close>

text \<open>A check whose failure revokes the family of the refresh token before it is reported.\<close>

definition or_revoke :: "'db services \<Rightarrow> string \<Rightarrow> string \<Rightarrow> 'db world \<times> (token_error + 'a) \<Rightarrow> 'db world \<times> (token_error + 'a)" where
  "or_revoke S refreshToken clientID m =
     (case m of
        (w, Inl e) \<Rightarrow> (fst (revoke_refresh S w refreshToken clientID), Inl e)
      | (w, Inr x) \<Rightarrow> (w, Inr x))"

definition renewed_access :: "token_data \<Rightarrow> string list \<Rightarrow> token_data" where
  "renewed_access data effectiveClaims =
     data\<lparr>td_AllowedClaims := Some effectiveClaims, td_ClaimNamesSet := True, td_TokenUse := ''access'',
          td_FamilyID := [], td_UserKey := []\<rparr>"

definition rotate_pair ::
    "'db services \<Rightarrow> 'db world \<Rightarrow> string \<Rightarrow> token_data \<Rightarrow> string list \<Rightarrow> 'db world \<times> (token_error + token_pair)" where
  "rotate_pair S w refreshToken data effectiveClaims =
     (let lifetimes = Lifetimes (sv_tokens S) in
      case GenerateRandomString (sv_env S) w 32 of
        (w1, None) \<Rightarrow> (w1, Inl TokenRandom)
      | (w1, Some newRefresh) \<Rightarrow>
          and_then (signAccessToken S w1 (td_ClientID data) (td_UserID data) (td_Scopes data) (Some effectiveClaims)
              (td_AuthVersion data) (tl_AccessToken lifetimes)
              \<lparr>ia_Context = td_AuthenticationContext data, ia_Methods = td_AuthenticationMethods data,
               ia_AuthTime = td_AuthenticationTime data\<rparr>)
            (\<lambda>w2 (access, jti).
               on_result (\<lambda>_. Inr
                   \<lparr>tp_AccessToken = access, tp_TokenType = ''Bearer'', tp_ExpiresIn = tl_AccessToken lifetimes div Second,
                    tp_RefreshToken = newRefresh, tp_Scope = joinScopes (td_Scopes data), tp_IDToken = []\<rparr>)
                 (map_error (\<lambda>e. if e = ErrRefreshTokenReuse then ErrTokenReuse else ErrInvalidToken)
                    (on_redis w2 (RotateRefreshTokenAndStoreAccess (sv_redis S) (sv_digest S) (w_redis w2)
                       refreshToken newRefresh jti data (renewed_access data effectiveClaims)
                       (tl_RefreshToken lifetimes) (tl_AccessToken lifetimes))))))"

definition RefreshTokenWithClaimPolicy ::
    "'db services \<Rightarrow> 'db world \<Rightarrow> string \<Rightarrow> string \<Rightarrow> string list \<Rightarrow> claim_map \<Rightarrow> 'db world \<times> (token_error + token_pair)" where
  "RefreshTokenWithClaimPolicy S w refreshToken clientID allowedScopes scopeClaims =
     and_then (map_error (\<lambda>_. ErrInvalidToken)
         (on_redis w (GetRefreshTokenState (sv_redis S) (sv_digest S) (w_redis w) refreshToken)))
       (\<lambda>w1 (data, used).
          if td_ClientID data \<noteq> clientID \<or> td_TokenUse data \<noteq> ''refresh'' then (w1, Inl ErrClientMismatch)
          else if \<not> scopesAreSubset (td_Scopes data) allowedScopes
          then or_revoke S refreshToken clientID (w1, Inl ErrInvalidToken)
          else
            let effectiveClaims = effectiveClaimNames (td_Scopes data) (td_AllowedClaims data) (td_ClaimNamesSet data)
            in if scopeClaims \<noteq> None \<and>
                  \<not> scopesAreSubset effectiveClaims (claimsForGrantedScopes (td_Scopes data) scopeClaims)
               then or_revoke S refreshToken clientID (w1, Inl ErrInvalidToken)
               else if used
               then (case revoke_refresh S w1 refreshToken clientID of
                       (w2, Inl e) \<Rightarrow> (w2, Inl (if e = ErrNotFound then ErrTokenReuse else TokenStore e))
                     | (w2, Inr _) \<Rightarrow> (w2, Inl ErrTokenReuse))
               else and_then (or_revoke S refreshToken clientID (validateUser S w1 (td_UserID data) (td_AuthVersion data))) (\<lambda>w2 _.
                    and_then (or_revoke S refreshToken clientID (validateAuthorization S w2 data)) (\<lambda>w3 _.
                    and_then (or_revoke S refreshToken clientID (validateAccessPolicy S w3 data)) (\<lambda>w4 _.
                      rotate_pair S w4 refreshToken data effectiveClaims))))"

definition RevokeTokenForClient :: "'db services \<Rightarrow> 'db world \<Rightarrow> string \<Rightarrow> string \<Rightarrow> 'db world \<times> (token_error + unit)" where
  "RevokeTokenForClient S w token clientID =
     (case revoke_refresh S w token clientID of
        (w1, Inr _) \<Rightarrow> (w1, Inr ())
      | (w1, Inl e) \<Rightarrow>
          (if e = ErrTokenBindingMismatch then (w1, Inl ErrClientMismatch)
           else if e \<noteq> ErrNotFound then (w1, Inl (TokenStore e))
           else case ValidateAccessToken S w1 token of
                  (w2, Inl e2) \<Rightarrow> (w2, if e2 = ErrInvalidToken then Inr () else Inl e2)
                | (w2, Inr c) \<Rightarrow>
                    (if length (jc_Audience c) \<noteq> 1 \<or> hd (jc_Audience c) \<noteq> clientID then (w2, Inl ErrClientMismatch)
                     else map_error TokenStore
                            (on_redis w2 (RevokeToken (sv_redis S) (sv_digest S) (w_redis w2) (jc_ID c))))))"

definition inactive :: payload where "inactive = [(''active'', CBool False)]"

definition refresh_introspection :: "'db services \<Rightarrow> 'db world \<Rightarrow> token_data \<Rightarrow> 'db world \<times> payload" where
  "refresh_introspection S w data =
     applyAuthenticationMapClaims (sv_env S) w
       [(''active'', CBool True), (''sub'', CText (td_UserID data)), (''client_id'', CText (td_ClientID data)),
        (''scope'', CText (joinScopes (td_Scopes data))), (''token_type'', CText ''refresh_token'')]
       \<lparr>ia_Context = td_AuthenticationContext data, ia_Methods = td_AuthenticationMethods data,
        ia_AuthTime = td_AuthenticationTime data\<rparr>"

definition introspect_refresh ::
    "'db services \<Rightarrow> 'db world \<Rightarrow> string \<Rightarrow> string \<Rightarrow> string list \<Rightarrow> 'db world \<times> payload" where
  "introspect_refresh S w tokenString clientID allowedScopes =
     (case on_redis w (GetRefreshToken (sv_redis S) (sv_digest S) (w_redis w) tokenString) of
        (w1, Inl _) \<Rightarrow> (w1, inactive)
      | (w1, Inr data) \<Rightarrow>
          (if td_ClientID data \<noteq> clientID \<or> td_TokenUse data \<noteq> ''refresh'' \<or>
              \<not> scopesAreSubset (td_Scopes data) allowedScopes
           then (w1, inactive)
           else case and_then (validateUser S w1 (td_UserID data) (td_AuthVersion data)) (\<lambda>w2 _.
                     and_then (validateAuthorization S w2 data) (\<lambda>w3 _. validateAccessPolicy S w3 data)) of
                  (w4, Inl _) \<Rightarrow> (w4, inactive)
                | (w4, Inr _) \<Rightarrow> refresh_introspection S w4 data))"

definition IntrospectTokenForClient ::
    "'db services \<Rightarrow> 'db world \<Rightarrow> string \<Rightarrow> string \<Rightarrow> string list \<Rightarrow> 'db world \<times> payload" where
  "IntrospectTokenForClient S w tokenString clientID allowedScopes =
     (case ValidateAccessToken S w tokenString of
        (w1, Inr c) \<Rightarrow>
          (if length (jc_Audience c) = 1 \<and> hd (jc_Audience c) = clientID then (w1, introspectionClaims c)
           else introspect_refresh S w1 tokenString clientID allowedScopes)
      | (w1, Inl _) \<Rightarrow> introspect_refresh S w1 tokenString clientID allowedScopes)"

definition IntrospectToken :: "'db services \<Rightarrow> 'db world \<Rightarrow> string \<Rightarrow> 'db world \<times> payload" where
  "IntrospectToken S w tokenString =
     (case ValidateAccessToken S w tokenString of
        (w1, Inl _) \<Rightarrow> (w1, inactive)
      | (w1, Inr c) \<Rightarrow> (w1, introspectionClaims c))"

end
