(* ===== verification/Token_Checks.thy ===== *)
theory Token_Checks
  imports Token_Service
begin

text \<open>
  What the checks of the token service do to the world and what their success says about it. The
  checks only read; a request is the sequence of store operations it runs, \<open>does\<close>, so that
  what holds along every sequence of store operations holds along the requests.
\<close>

section \<open>Requests as sequences of store operations\<close>

definition does :: "'db redis \<Rightarrow> (string \<Rightarrow> string) \<Rightarrow> (store_op \<Rightarrow> bool) \<Rightarrow> 'db \<Rightarrow> 'db \<Rightarrow> bool" where
  "does R h P db db' \<longleftrightarrow> (\<exists>ops. list_all P ops \<and> db' = run R h ops db)"

lemma run_append: "run R h (xs @ ys) db = run R h ys (run R h xs db)"
  by (simp add: run_def)

lemma does_refl [simp]: "does R h P db db"
  unfolding does_def by (intro exI [of _ "[]"]) simp

lemma does_trans: "does R h P db db1 \<Longrightarrow> does R h P db1 db2 \<Longrightarrow> does R h P db db2"
  unfolding does_def by (metis list_all_append run_append)

lemma does_mono: "does R h P db db' \<Longrightarrow> (\<And>op. P op \<Longrightarrow> Q op) \<Longrightarrow> does R h Q db db'"
  unfolding does_def by (metis list.pred_mono_strong)

lemma does_exec: "P op \<Longrightarrow> does R h P db (exec R h op db)"
  unfolding does_def by (intro exI [of _ "[op]"]) simp

lemma does_read: "P Read \<Longrightarrow> does R h P db (snd (LINK R db))"
  using does_exec [of P Read R h db] by simp

lemma does_and_then:
  "does R h P db (w_redis (fst m)) \<Longrightarrow>
   (\<And>x. snd m = Inr x \<Longrightarrow> does R h P (w_redis (fst m)) (w_redis (fst (f (fst m) x)))) \<Longrightarrow>
   does R h P db (w_redis (fst (and_then m f)))"
  by (rule fst_and_thenI [of "\<lambda>w. does R h P db (w_redis w)"]) (auto intro: does_trans)

context redis_server
begin

lemma does_typed: "does R h P db db' \<Longrightarrow> typed R db \<Longrightarrow> typed R db'"
  by (auto simp: does_def run_typed)

lemma does_sound:
  assumes "does R h (lifetimes rt) db db'" and "sound R (rt div Millisecond) {} db" and "0 < rt" and "Second dvd rt"
  shows "sound R (rt div Millisecond) {} db'"
  using assms run_sound [OF assms(2-4)] by (auto simp: does_def list_all_iff)

text \<open>Reading changes no value: a value that is found was there before.\<close>

lemma reads_GET:
  assumes "does R h (\<lambda>op. op = Read) db db'"
  shows "GET R db' k = GET R db k \<or> GET R db' k = None"
proof -
  obtain ops where ops: "list_all (\<lambda>op. op = Read) ops" "db' = run R h ops db"
    using assms by (auto simp: does_def)
  have "GET R (run R h ops db) k = GET R db k \<or> GET R (run R h ops db) k = None"
    using ops(1)
  proof (induction ops arbitrary: db)
    case (Cons op ops)
    then show ?case using Cons.IH [of "snd (LINK R db)"] LINK_GET [of db k] by fastforce
  qed simp
  then show ?thesis by (simp add: ops(2))
qed

lemma does_GET_other:
  assumes "does R h P db db'" and "typed R db" and "\<And>op. P op \<Longrightarrow> k \<notin> written h op"
  shows "GET R db' k = GET R db k \<or> GET R db' k = None"
proof -
  obtain ops where ops: "list_all P ops" "db' = run R h ops db" using assms(1) by (auto simp: does_def)
  have "GET R (run R h ops db) k = GET R db k \<or> GET R (run R h ops db) k = None"
    using ops(1) assms(2)
  proof (induction ops arbitrary: db)
    case (Cons op ops)
    then show ?case
      using Cons.IH [OF _ exec_typed [of db h op]] exec_GET [of db k h op] assms(3) by fastforce
  qed simp
  then show ?thesis by (simp add: ops(2))
qed

lemma reads_GET_Some: "does R h (\<lambda>op. op = Read) db db' \<Longrightarrow> GET R db' k = Some v \<Longrightarrow> GET R db k = Some v"
  using reads_GET [of h db db' k] by auto

end

lemma fst_call_read: "fst (call R e db (\<lambda>d. (d, f d))) = snd (LINK R db)"
  by (simp add: call_split split: prod.splits delivery.splits)

lemma fst_reads:
  "fst (getJSON R db k decode) = snd (LINK R db)"
  "fst (IsUserClientAuthorizationRevoked R h db u c t) = snd (LINK R db)"
  by (simp_all add: getJSON_def IsUserClientAuthorizationRevoked_def fst_call_read)

section \<open>The checks only read\<close>

lemma map_error_simps [simp]:
  "fst (map_error g m) = fst m" "map_error g (s, Inl e) = (s, Inl (g e))" "map_error g (s, Inr x) = (s, Inr x)"
  by (simp_all add: map_error_def)

lemma map_error_Inr: "map_error g m = (s, Inr x) \<longleftrightarrow> m = (s, Inr x)"
  by (cases m) (auto simp: map_error_def split: sum.splits)

lemma on_redis_Inr: "on_redis w m = (w', Inr x) \<longleftrightarrow> (\<exists>db. m = (db, Inr x) \<and> w' = w\<lparr>w_redis := db\<rparr>)"
  by (cases m) auto

lemma validateUser_world [simp]:
  "w_redis (fst (validateUser S w u v)) = w_redis w" "w_sql (fst (validateUser S w u v)) = w_sql w"
  by (auto simp: validateUser_def user_GetByID_def query_def
      split: option.splits prod.splits sum.splits sql_error.splits sql_fate.splits)

lemma currentClientAuthorizationRevision_world [simp]:
  "w_redis (fst (currentClientAuthorizationRevision S w c)) = w_redis w"
  "w_sql (fst (currentClientAuthorizationRevision S w c)) = w_sql w"
  by (simp_all add: currentClientAuthorizationRevision_def)

lemma validateAccessPolicy_world [simp]:
  "w_redis (fst (validateAccessPolicy S w d)) = w_redis w" "w_sql (fst (validateAccessPolicy S w d)) = w_sql w"
  by (simp_all add: validateAccessPolicy_def)

lemma ListActivePublicKeys_world [simp]:
  "w_redis (fst (ListActivePublicKeys E w)) = w_redis w" "w_sql (fst (ListActivePublicKeys E w)) = w_sql w"
  by (simp_all add: ListActivePublicKeys_def split_beta split: sum.splits)

lemma parseSignedToken_world [simp]:
  "w_redis (fst (parseSignedToken S w t)) = w_redis w" "w_sql (fst (parseSignedToken S w t)) = w_sql w"
proof -
  have w: "w_redis (fst (getPublicKey S w k)) = w_redis w \<and> w_sql (fst (getPublicKey S w k)) = w_sql w" for k
    by (simp add: getPublicKey_def)
  have "P (fst (parseSignedToken S w t))" if "P w" and "\<And>k. P (fst (getPublicKey S w k))"
    and "\<And>k. P (fst (Now (sv_env S) (fst (getPublicKey S w k))))" for P
    unfolding parseSignedToken_def
    by (auto simp: that(1) split_beta intro!: fst_and_thenI [of P] that(2,3) split: option.splits)
  note this [where P = "\<lambda>v. w_redis v = w_redis w \<and> w_sql v = w_sql w", simplified w, simplified]
  with w show "w_redis (fst (parseSignedToken S w t)) = w_redis w" "w_sql (fst (parseSignedToken S w t)) = w_sql w"
    by simp_all
qed

definition reads :: "'db services \<Rightarrow> 'db world \<Rightarrow> 'db world \<Rightarrow> bool" where
  "reads S w w' \<longleftrightarrow>
     does (sv_redis S) (sv_digest S) (\<lambda>op. op = Read) (w_redis w) (w_redis w') \<and> w_sql w' = w_sql w"

lemma reads_same: "w_redis w' = w_redis w \<Longrightarrow> w_sql w' = w_sql w \<Longrightarrow> reads S w w'"
  by (simp add: reads_def)

lemma reads_trans: "reads S w w1 \<Longrightarrow> reads S w1 w2 \<Longrightarrow> reads S w w2"
  by (auto simp: reads_def intro: does_trans)

lemma reads_and_then:
  "reads S w (fst m) \<Longrightarrow> (\<And>w' x. m = (w', Inr x) \<Longrightarrow> reads S w' (fst (f w' x))) \<Longrightarrow> reads S w (fst (and_then m f))"
  by (cases m; cases "snd m") (auto intro: reads_trans)

lemma reads_on_redis: "fst m = snd (LINK (sv_redis S) (w_redis w)) \<Longrightarrow> reads S w (fst (on_redis w m))"
  by (simp add: reads_def does_read)

lemma reads_if: "(b \<Longrightarrow> reads S w (fst x)) \<Longrightarrow> (\<not> b \<Longrightarrow> reads S w (fst y)) \<Longrightarrow> reads S w (fst (if b then x else y))"
  by simp

lemma reads_map_error: "reads S w (fst m) \<Longrightarrow> reads S w (fst (map_error g m))"
  by simp

lemmas reads_intros = reads_and_then reads_if reads_map_error reads_on_redis

lemma check_reads:
  "reads S w w" "reads S w (fst (w, r))" "reads S w (fst (validateUser S w u v))"
  "reads S w (fst (currentClientAuthorizationRevision S w c))" "reads S w (fst (validateAccessPolicy S w d))"
  "reads S w (fst (parseSignedToken S w t))"
  by (auto intro: reads_same)

lemma validateAuthorization_reads: "reads S w (fst (validateAuthorization S w d))"
  unfolding validateAuthorization_def Let_def by (intro reads_intros check_reads fst_reads)

lemma ValidateAccessToken_reads: "reads S w (fst (ValidateAccessToken S w t))"
  unfolding ValidateAccessToken_def GetToken_def
  by (intro reads_intros check_reads fst_reads validateAuthorization_reads)

section \<open>What success of a check says\<close>

text \<open>The subject is an active user whose credentials have not changed since.\<close>

definition subject_current :: "env \<Rightarrow> sql_tables \<Rightarrow> string \<Rightarrow> int \<Rightarrow> bool" where
  "subject_current E t subject v =
     (case e_parse_uuid E subject of
        None \<Rightarrow> False
      | Some i \<Rightarrow> (case map_of (t_users t) i of
                     None \<Rightarrow> False
                   | Some u \<Rightarrow> us_Status u = UserStatusActive \<and> us_AuthVersion u = v))"

text \<open>The client's policy admits the user, and the client has the revision the grant was made for.\<close>

definition admitted :: "env \<Rightarrow> sql_tables \<Rightarrow> string \<Rightarrow> string \<Rightarrow> bool" where
  "admitted E t client user =
     (case (map_of (t_clients t) client, e_pg_uuid E user) of
        (Some cl, Some u) \<Rightarrow>
          access_decision (oc_AccessPolicy cl) ((client, u) \<in> set (t_access t)) (map_option us_Role (map_of (t_users t) u))
      | _ \<Rightarrow> False)"

definition grant_current :: "env \<Rightarrow> sql_tables \<Rightarrow> token_data \<Rightarrow> bool" where
  "grant_current E t d \<longleftrightarrow> admitted E t (td_ClientID d) (td_UserID d) \<and>
     map_option oc_AuthorizationRevision (map_of (t_clients t) (td_ClientID d)) =
       Some (normalizedClientRevision (td_ClientAuthorizationRevision d))"

lemma validateUser_Inr:
  "validateUser S w u v = (w', Inr x) \<Longrightarrow> v = 0 \<or> subject_current (sv_env S) (w_sql w) u v"
  by (auto simp: validateUser_def subject_current_def user_GetByID_def query_def
      split: option.splits prod.splits sum.splits sql_error.splits sql_fate.splits if_splits)

lemma currentClientAuthorizationRevision_Inr:
  assumes "currentClientAuthorizationRevision S w c = (w', Inr n)"
  shows "(\<exists>cl. map_of (t_clients (w_sql w)) c = Some cl \<and> oc_AuthorizationRevision cl = n) \<and> 1 \<le> n \<and>
    ts_accessPolicy (sv_tokens S) \<and> w' = tick w"
  using assms
  by (auto simp: currentClientAuthorizationRevision_def on_result_Inr map_error_Inr
      split: if_splits dest!: ClientAuthorizationRevision_Inr)

lemma validateAccessPolicy_Inr:
  assumes "validateAccessPolicy S w d = (w', Inr x)" and "td_AuthVersion d \<noteq> 0" and "ts_accessPolicy (sv_tokens S)"
  shows "admitted (sv_env S) (w_sql w) (td_ClientID d) (td_UserID d)"
  using assms
  by (auto simp: validateAccessPolicy_def admitted_def on_result_Inr map_error_Inr UserMayAccess_def query_def
      split: if_splits prod.splits sum.splits sql_error.splits sql_fate.splits option.splits)

lemma find_public_key_Inr:
  "find_public_key K kid js = Inr pub \<Longrightarrow> \<exists>j \<in> set js. jk_Kid j = kid \<and> rsa_parse_public K (jk_PublicKey j) = Some pub"
  by (induction js) (auto split: if_splits option.splits)

text \<open>The claims were signed under a key that is on the list of verification keys.\<close>

definition signed_claims :: "'db services \<Rightarrow> sql_tables \<Rightarrow> string \<Rightarrow> claims \<Rightarrow> bool" where
  "signed_claims S t token c \<longleftrightarrow>
     (\<exists>(k, j) \<in> set (t_jwk t). \<exists>pub now m.
        jwt_header (sv_jwt S) token = Some (''RS256'', Some (jk_Kid j)) \<and> jk_Status j \<noteq> JWKStatusRetired \<and>
        rsa_parse_public (sv_rsa S) (jk_PublicKey j) = Some pub \<and>
        jwt_parse (sv_jwt S) pub (ts_issuer (sv_tokens S)) jwtClockSkew now token = Some m \<and>
        decode_claims m = Some c)"

lemma checked_claims_Inr: "checked_claims issuer parsed = Inr c \<longleftrightarrow>
    (\<exists>m. parsed = Some m \<and> decode_claims m = Some c) \<and>
    jc_Issuer c = issuer \<and> jc_ExpiresAt c \<noteq> None \<and> jc_IssuedAt c \<noteq> None \<and> jc_NotBefore c \<noteq> None"
  by (cases parsed) (auto simp: checked_claims_def split: option.split)

lemma parseSignedToken_Inr:
  assumes "parseSignedToken S w token = (w', Inr c)"
  shows "signed_claims S (w_sql w) token c \<and> jc_Issuer c = ts_issuer (sv_tokens S) \<and>
    jc_ExpiresAt c \<noteq> None \<and> jc_IssuedAt c \<noteq> None"
proof -
  obtain kid w1 pub now m where h: "jwt_header (sv_jwt S) token = Some (''RS256'', Some kid)"
      and g: "getPublicKey S w kid = (w1, Inr pub)"
      and p: "jwt_parse (sv_jwt S) pub (ts_issuer (sv_tokens S)) jwtClockSkew now token = Some m"
        "decode_claims m = Some c" "jc_Issuer c = ts_issuer (sv_tokens S)" "jc_ExpiresAt c \<noteq> None" "jc_IssuedAt c \<noteq> None"
    using assms
    by (auto simp: parseSignedToken_def and_then_Inr Now_def checked_claims_Inr
        split: option.split_asm prod.split_asm if_split_asm) blast
  from g obtain js where js: "ListActivePublicKeys (sv_env S) w = (w1, Inr js)" "find_public_key (sv_rsa S) kid js = Inr pub"
    by (auto simp: getPublicKey_def on_result_Inr map_error_Inr)
  from find_public_key_Inr [OF js(2)] obtain j where j: "j \<in> set js" "jk_Kid j = kid"
      "rsa_parse_public (sv_rsa S) (jk_PublicKey j) = Some pub" by blast
  from j(1) obtain k where k: "(k, j) \<in> set (t_jwk (w_sql w))" and l: "listed (e_now (sv_env S) (w_tick w)) j"
    unfolding ListActivePublicKeys_Inr(1) [OF js(1)] by auto
  have "jk_Status j \<noteq> JWKStatusRetired" using l by (auto simp: listed_def)
  with k j(2,3) h p show ?thesis unfolding signed_claims_def by blast
qed

text \<open>No revocation of the grant that is still on record is as late as the grant.\<close>

definition unrevoked :: "'db services \<Rightarrow> 'db world \<Rightarrow> token_data \<Rightarrow> bool" where
  "unrevoked S w d \<longleftrightarrow>
     (\<forall>n. GET (sv_redis S) (w_redis w) (authorizationRevocationKey (sv_digest S) (td_UserID d) (td_ClientID d)) = Some (VNum n)
        \<longrightarrow> n < td_AuthorizationIssuedAt d)"

lemma unrevoked_reads:
  assumes "redis_server (sv_redis S)" and "reads S w w'" and "unrevoked S w d"
  shows "unrevoked S w' d"
  using redis_server.reads_GET_Some [OF assms(1)] assms(2,3) by (fastforce simp: unrevoked_def reads_def)

lemma validateAuthorization_Inr:
  assumes R: "redis_server (sv_redis S)" and v: "validateAuthorization S w d = (w', Inr x)" and a: "td_AuthVersion d \<noteq> 0"
  shows "0 < td_AuthorizationIssuedAt d \<and> unrevoked S w' d \<and> ts_accessPolicy (sv_tokens S) \<and>
    (\<exists>cl. map_of (t_clients (w_sql w)) (td_ClientID d) = Some cl \<and>
      oc_AuthorizationRevision cl = normalizedClientRevision (td_ClientAuthorizationRevision d))"
proof -
  obtain db n where r: "IsUserClientAuthorizationRevoked (sv_redis S) (sv_digest S) (w_redis w) (td_UserID d) (td_ClientID d)
        (td_AuthorizationIssuedAt d) = (db, Inr False)"
      and c: "currentClientAuthorizationRevision S (w\<lparr>w_redis := db\<rparr>) (td_ClientID d) = (w', Inr n)"
      and n: "normalizedClientRevision (td_ClientAuthorizationRevision d) = n"
      and t: "0 < td_AuthorizationIssuedAt d"
    using v a
    by (auto simp: validateAuthorization_def and_then_Inr map_error_Inr on_redis_Inr Let_def normalizedClientRevision_def
        split: if_splits)
  have "unrevoked S (w\<lparr>w_redis := db\<rparr>) d"
    using redis_server.IsUserClientAuthorizationRevoked_Inr(2) [OF R r] by (fastforce simp: unrevoked_def)
  then have "unrevoked S w' d" using currentClientAuthorizationRevision_Inr [OF c] by (simp add: unrevoked_def)
  then show ?thesis using currentClientAuthorizationRevision_Inr [OF c] n t by auto
qed

lemma validated_grant:
  assumes R: "redis_server (sv_redis S)" and "validateAuthorization S w d = (w1, Inr x)"
    and "validateAccessPolicy S w2 d = (w3, Inr y)" and "w_sql w2 = w_sql w" and "td_AuthVersion d \<noteq> 0"
  shows "grant_current (sv_env S) (w_sql w) d"
  using validateAuthorization_Inr [OF R assms(2,5)] validateAccessPolicy_Inr [OF assms(3,5)] assms(4)
  by (auto simp: grant_current_def)

text \<open>The checks on the grant of a token, in the order in which every operation makes them.\<close>

lemma checked_grant:
  assumes R: "redis_server (sv_redis S)"
    and u: "validateUser S w s (td_AuthVersion d) = (w1, Inr x)"
    and a: "validateAuthorization S w1 d = (w2, Inr y)"
    and p: "validateAccessPolicy S w2 d = (w3, Inr z)" and v: "td_AuthVersion d \<noteq> 0"
  shows "subject_current (sv_env S) (w_sql w) s (td_AuthVersion d) \<and> grant_current (sv_env S) (w_sql w) d \<and> unrevoked S w3 d"
proof -
  have s1: "w_sql w1 = w_sql w" using validateUser_world(2) [of S w s "td_AuthVersion d"] u by simp
  have s2: "reads S w1 w2" using validateAuthorization_reads [of S w1 d] a by simp
  have s3: "reads S w2 w3" using check_reads(5) [of S w2 d] p by simp
  have "unrevoked S w3 d" using unrevoked_reads [OF R s3] validateAuthorization_Inr [OF R a v] by blast
  moreover have "grant_current (sv_env S) (w_sql w1) d"
    by (rule validated_grant [OF R a p _ v]) (use s2 in \<open>simp add: reads_def\<close>)
  ultimately show ?thesis using validateUser_Inr [OF u] v s1 by auto
qed

lemma ValidateAccessToken_Inr:
  assumes R: "redis_server (sv_redis S)" and v: "ValidateAccessToken S w token = (w', Inr c)"
  obtains d client where "jc_TokenUse c = ''access''" and "jc_Audience c = [client]" and "signed_claims S (w_sql w) token c"
    and "GET (sv_redis S) (w_redis w) (secretKey (sv_digest S) tokenPrefix (jc_ID c)) = Some (VToken d)"
    and "metadata_matches d c"
    and "jc_AuthVersion c \<noteq> 0 \<longrightarrow> subject_current (sv_env S) (w_sql w) (jc_Subject c) (jc_AuthVersion c) \<and>
      grant_current (sv_env S) (w_sql w) d \<and> unrevoked S w' d"
proof -
  obtain w1 db d w3 w4 where p: "parseSignedToken S w token = (w1, Inr c)"
      and u: "jc_TokenUse c = ''access''" "length (jc_Audience c) = 1"
      and g: "GetToken (sv_redis S) (sv_digest S) (w_redis w1) (jc_ID c) = (db, Inr d)" and m: "metadata_matches d c"
      and vs: "validateUser S (w1\<lparr>w_redis := db\<rparr>) (jc_Subject c) (jc_AuthVersion c) = (w3, Inr ())"
        "validateAuthorization S w3 d = (w4, Inr ())" "validateAccessPolicy S w4 d = (w', Inr ())"
    using v by (auto simp: ValidateAccessToken_def and_then_Inr map_error_Inr on_redis_Inr split: if_splits)
  have w1: "w_redis w1 = w_redis w" "w_sql w1 = w_sql w" using parseSignedToken_world [of S w token] p by simp_all
  obtain x where "GET (sv_redis S) (w_redis w1) (secretKey (sv_digest S) tokenPrefix (jc_ID c)) = Some x" "decode_token x = Some d"
    using redis_server.getJSON_Inr [OF R g [unfolded GetToken_def]] .
  then have d: "GET (sv_redis S) (w_redis w) (secretKey (sv_digest S) tokenPrefix (jc_ID c)) = Some (VToken d)"
    by (simp add: w1 decode_SomeD)
  have e: "td_AuthVersion d = jc_AuthVersion c" using m by (simp add: metadata_matches_def)
  obtain client where "jc_Audience c = [client]" using u(2) by (cases "jc_Audience c") auto
  from that [OF u(1) this _ d m] show thesis
    using parseSignedToken_Inr [OF p] checked_grant [OF R vs(1) [folded e] vs(2,3)] by (simp add: w1 e)
qed

text \<open>
  While the mark of a revocation is there, an accepted token of the user for the client was granted
  after it, whatever the stores did in between.
\<close>

lemma accepted_after_revocation:
  assumes R: "redis_server (sv_redis S)" and "typed (sv_redis S) db"
    and r: "RevokeUserClientAuthorization (sv_redis S) (sv_digest S) db u client ttl = (db1, Inr r)"
    and w: "w_redis w = run (sv_redis S) (sv_digest S) ops db1"
    and un: "unexpired (sv_redis S) (sv_digest S) (authorizationRevocationKey (sv_digest S) u client) ops db1"
    and v: "ValidateAccessToken S w token = (w', Inr c)"
    and m: "GET (sv_redis S) (w_redis w') (authorizationRevocationKey (sv_digest S) u client) \<noteq> None"
    and c: "jc_AuthVersion c \<noteq> 0" "jc_Subject c = u" "jc_Audience c = [client]"
  shows "\<exists>d. GET (sv_redis S) (w_redis w) (secretKey (sv_digest S) tokenPrefix (jc_ID c)) = Some (VToken d) \<and>
    r < td_AuthorizationIssuedAt d"
proof -
  let ?R = "sv_redis S" and ?k = "authorizationRevocationKey (sv_digest S) u client"
  obtain d where d: "GET ?R (w_redis w) (secretKey (sv_digest S) tokenPrefix (jc_ID c)) = Some (VToken d)"
      "metadata_matches d c" "unrevoked S w' d"
    using ValidateAccessToken_Inr [OF R v] c(1) by metis
  have id: "td_UserID d = u" "td_ClientID d = client" using d(2) c(2,3) by (simp_all add: metadata_matches_def)
  obtain x where x: "GET ?R (w_redis w') ?k = Some x" using m by auto
  have t: "typed ?R db1"
    using redis_server.evolves_clock(2) [OF R, of "sv_digest S" u client db ttl] assms(2) r by (simp add: evolves_def)
  have "does ?R (sv_digest S) (\<lambda>op. op = Read) (w_redis w) (w_redis w')"
    using ValidateAccessToken_reads [of S w token] v by (simp add: reads_def)
  from redis_server.reads_GET_Some [OF R this x]
  have "GET ?R (run ?R (sv_digest S) ops db1) ?k = Some x" by (simp add: w)
  from redis_server.run_reading [OF R t disjI2 [OF refl]
      redis_server.RevokeUserClientAuthorization_Inr(2) [OF R r] un this]
  obtain n where "n \<ge> r" "x = VNum n" by blast
  with d(1,3) x id show ?thesis by (fastforce simp: unrevoked_def)
qed

end
