(* ===== verification/Token_Issue.thy ===== *)
theory Token_Issue
  imports Token_Checks
begin

text \<open>
  What issuing and refreshing tokens does to the stores. Every request of the token service is a
  sequence of store operations that keeps the lifetimes of the family invariant, and the tables of
  clients, users and keys stay as they are. A token that is issued is signed under the active key
  and recorded, and the record agrees with its claims.
\<close>

section \<open>Frames\<close>

lemma GetActiveKey_Inr:
  "GetActiveKey E w = (w', Inr j) \<Longrightarrow>
     \<exists>k. (k, j) \<in> set (t_jwk (w_sql w)) \<and> jk_Status j = JWKStatusSigning \<and> w' = tick w"
proof -
  assume a: "GetActiveKey E w = (w', Inr j)"
  let ?js = "newest_first (filter (\<lambda>j. jk_Status j = JWKStatusSigning) (map snd (t_jwk (w_sql w))))"
  from a have "\<exists>js. ?js = j # js" and w: "w' = tick w"
    by (auto simp: GetActiveKey_def query_def split: sql_fate.splits list.splits)
  then have "j \<in> set ?js" by (metis list.set_intros(1))
  with w show ?thesis by (auto simp only: set_newest_first set_filter set_map) auto
qed

lemma fst_GetPrivateKey: "fst (GetPrivateKey G K E m w) = (if isl (requireConfigured m) then w else tick w)"
  by (auto simp: GetPrivateKey_def GetActiveKey_def query_def split: sum.splits sql_fate.splits list.splits)

lemma GetPrivateKey_world [simp]:
  "w_redis (fst (GetPrivateKey G K E m w)) = w_redis w" "w_sql (fst (GetPrivateKey G K E m w)) = w_sql w"
  by (simp_all add: fst_GetPrivateKey)

lemma GetPrivateKey_Inr:
  assumes "GetPrivateKey G K E m w = (w', Inr (priv, kid))"
  shows "\<exists>k j. (k, j) \<in> set (t_jwk (w_sql w)) \<and> jk_Status j = JWKStatusSigning \<and> kid = jk_Kid j"
proof -
  obtain j where a: "GetActiveKey E w = (w', Inr j)" and k: "kid = jk_Kid j"
    using assms
    by (cases "GetActiveKey E w"; cases "snd (GetActiveKey E w)")
       (auto simp: GetPrivateKey_def split: sum.split_asm option.split_asm if_split_asm)
  from GetActiveKey_Inr [OF a] k show ?thesis by blast
qed

text \<open>The key that signs depends on the table only, as long as requests are served.\<close>

lemma GetPrivateKey_cong:
  assumes "t_jwk (w_sql w) = t_jwk (w_sql v)" and "\<And>i. e_sql E i = Sql_served"
  shows "snd (GetPrivateKey G K E m w) = snd (GetPrivateKey G K E m v)"
proof -
  have "snd (GetActiveKey E w) = snd (GetActiveKey E v)"
    using assms by (simp add: GetActiveKey_def query_def split: list.splits)
  then show ?thesis by (simp add: GetPrivateKey_def on_result_def split: sum.splits)
qed

lemma signAccessToken_world [simp]:
  "w_redis (fst (signAccessToken S w c s sc ac v ttl a)) = w_redis w"
  "w_sql (fst (signAccessToken S w c s sc ac v ttl a)) = w_sql w"
proof -
  have "w_redis (fst (signAccessToken S w c s sc ac v ttl a)) = w_redis w \<and>
      w_sql (fst (signAccessToken S w c s sc ac v ttl a)) = w_sql w"
    unfolding signAccessToken_def
    by (rule fst_and_thenI [of "\<lambda>x. w_redis x = w_redis w \<and> w_sql x = w_sql w"])
       (auto simp: Now_def NewUUID_def split_beta Let_def)
  then show "w_redis (fst (signAccessToken S w c s sc ac v ttl a)) = w_redis w"
    "w_sql (fst (signAccessToken S w c s sc ac v ttl a)) = w_sql w" by simp_all
qed

text \<open>Recording the use of a grant touches only the table of grants.\<close>

definition same_but_grants :: "sql_tables \<Rightarrow> sql_tables \<Rightarrow> bool" where
  "same_but_grants t t' \<longleftrightarrow> t' = t\<lparr>t_authorizations := t_authorizations t'\<rparr>"

lemma same_but_grants_refl [simp]: "same_but_grants t t"
  by (simp add: same_but_grants_def)

lemma same_but_grants_trans: "same_but_grants t t1 \<Longrightarrow> same_but_grants t1 t2 \<Longrightarrow> same_but_grants t t2"
  unfolding same_but_grants_def by (cases t; cases t1; cases t2) simp

lemma same_but_grantsD:
  assumes "same_but_grants t t'"
  shows "t_users t' = t_users t" "t_clients t' = t_clients t" "t_access t' = t_access t" "t_jwk t' = t_jwk t"
  using assms unfolding same_but_grants_def by (metis sql_tables.select_convs sql_tables.surjective sql_tables.update_convs(4))+

lemma MarkUsed_frame:
  "w_redis (fst (MarkUsed E w u c at)) = w_redis w" "same_but_grants (w_sql w) (w_sql (fst (MarkUsed E w u c at)))"
proof -
  show "w_redis (fst (MarkUsed E w u c at)) = w_redis w" by (simp add: MarkUsed_def)
  show "same_but_grants (w_sql w) (w_sql (fst (MarkUsed E w u c at)))"
    unfolding MarkUsed_def
    by (auto intro!: transact_relates [of same_but_grants] split: option.splits if_splits)
       (simp add: same_but_grants_def)
qed

lemma record_usage_frame:
  "w_redis (record_usage S w s c v) = w_redis w" "same_but_grants (w_sql w) (w_sql (record_usage S w s c v))"
  using MarkUsed_frame [where E = "sv_env S" and w = "fst (Now (sv_env S) w)"]
  by (auto simp: record_usage_def split_beta split: option.split)

section \<open>Requests keep the lifetimes of token families\<close>

text \<open>Refresh tokens live \<open>rt\<close> and access tokens at most as long.\<close>

definition issues_within :: "duration \<Rightarrow> token_service \<Rightarrow> bool" where
  "issues_within rt ts \<longleftrightarrow> tl_RefreshToken (Lifetimes ts) = rt \<and> tl_AccessToken (Lifetimes ts) \<le> rt"

definition serves :: "'db services \<Rightarrow> (store_op \<Rightarrow> bool) \<Rightarrow> 'db world \<Rightarrow> 'db world \<Rightarrow> bool" where
  "serves S P w w' \<longleftrightarrow>
     does (sv_redis S) (sv_digest S) P (w_redis w) (w_redis w') \<and> same_but_grants (w_sql w) (w_sql w')"

lemma serves_refl [simp]: "serves S P w w"
  by (simp add: serves_def)

lemma serves_trans: "serves S P w w1 \<Longrightarrow> serves S P w1 w2 \<Longrightarrow> serves S P w w2"
  by (auto simp: serves_def intro: does_trans same_but_grants_trans)

lemma serves_mono: "serves S P w w' \<Longrightarrow> (\<And>op. P op \<Longrightarrow> Q op) \<Longrightarrow> serves S Q w w'"
  by (auto simp: serves_def intro: does_mono)

lemma serves_reads: "reads S w w' \<Longrightarrow> P Read \<Longrightarrow> serves S P w w'"
  by (auto simp: serves_def reads_def intro: does_mono)

lemma serves_typed:
  "redis_server (sv_redis S) \<Longrightarrow> serves S P w w' \<Longrightarrow> typed (sv_redis S) (w_redis w) \<Longrightarrow> typed (sv_redis S) (w_redis w')"
  by (auto simp: serves_def dest: redis_server.does_typed)

lemma serves_same: "w_redis w' = w_redis w \<Longrightarrow> same_but_grants (w_sql w) (w_sql w') \<Longrightarrow> serves S P w w'"
  by (simp add: serves_def)

lemma serves_and_then:
  "serves S P w (fst m) \<Longrightarrow> (\<And>w' x. m = (w', Inr x) \<Longrightarrow> serves S P w' (fst (f w' x))) \<Longrightarrow> serves S P w (fst (and_then m f))"
  by (cases m; cases "snd m") (auto intro: serves_trans)

lemma serves_op:
  "P op \<Longrightarrow> fst m = exec (sv_redis S) (sv_digest S) op (w_redis w) \<Longrightarrow> serves S P w (fst (on_redis w m))"
  by (simp add: serves_def does_exec)

lemma serves_if: "(b \<Longrightarrow> serves S P w (fst x)) \<Longrightarrow> (\<not> b \<Longrightarrow> serves S P w (fst y)) \<Longrightarrow> serves S P w (fst (if b then x else y))"
  by simp

lemma serves_transform:
  "serves S P w (fst m) \<Longrightarrow> serves S P w (fst (map_error g m))"
  "serves S P w (fst m) \<Longrightarrow> serves S P w (fst (on_result k m))"
  by simp_all

lemma serves_case:
  assumes "serves S P w (fst m)"
    and "\<And>w' e. m = (w', Inl e) \<Longrightarrow> serves S P w' (fst (f w' e))"
    and "\<And>w' x. m = (w', Inr x) \<Longrightarrow> serves S P w' (fst (g w' x))"
  shows "serves S P w (fst (case m of (w', Inl e) \<Rightarrow> f w' e | (w', Inr x) \<Rightarrow> g w' x))"
  using assms by (cases m; cases "snd m") (auto intro: serves_trans)

lemmas serves_intros = serves_and_then serves_if serves_transform

text \<open>Each operation on Redis that a request may run, as a step.\<close>

lemma serves_token_ops:
  assumes "P Read" and "\<And>t. token_lifetimes rt t \<Longrightarrow> P (Token_op t)"
  shows "td_FamilyKey d = [] \<Longrightarrow> serves S P w (fst (on_redis w (SaveToken (sv_redis S) (sv_digest S) (w_redis w) i d ttl)))"
    and "ttl \<le> rt \<Longrightarrow> serves S P w (fst (on_redis w (SaveTokenForRefreshFamily (sv_redis S) (sv_digest S) (w_redis w) i d f ttl)))"
    and "serves S P w (fst (on_redis w (SaveRefreshToken (sv_redis S) (sv_digest S) (w_redis w) i d rt r)))"
    and "ttl \<le> rt \<Longrightarrow> serves S P w (fst (on_redis w (RotateRefreshTokenAndStoreAccess (sv_redis S) (sv_digest S) (w_redis w) i j k d d' rt ttl)))"
    and "serves S P w (fst (on_redis w (RevokeRefreshTokenForClient (sv_redis S) (sv_digest S) (w_redis w) i c ttl)))"
    and "serves S P w (fst (on_redis w (RevokeToken (sv_redis S) (sv_digest S) (w_redis w) i)))"
    and "serves S P w (fst (on_redis w (GetRefreshToken (sv_redis S) (sv_digest S) (w_redis w) i)))"
    and "serves S P w (fst (on_redis w (GetRefreshTokenState (sv_redis S) (sv_digest S) (w_redis w) i)))"
proof -
  note r = does_read [of P, OF assms(1)]
  show "td_FamilyKey d = [] \<Longrightarrow> serves S P w (fst (on_redis w (SaveToken (sv_redis S) (sv_digest S) (w_redis w) i d ttl)))"
    by (rule serves_op [where op = "Token_op (Save_token i d ttl)"]) (simp_all add: assms)
  show "ttl \<le> rt \<Longrightarrow> serves S P w (fst (on_redis w (SaveTokenForRefreshFamily (sv_redis S) (sv_digest S) (w_redis w) i d f ttl)))"
    by (rule serves_op [where op = "Token_op (Save_family_token i d f ttl)"]) (simp_all add: assms)
  show "serves S P w (fst (on_redis w (SaveRefreshToken (sv_redis S) (sv_digest S) (w_redis w) i d rt r)))"
    by (rule serves_op [where op = "Token_op (Save_refresh i d rt r)"]) (simp_all add: assms)
  show "ttl \<le> rt \<Longrightarrow> serves S P w (fst (on_redis w (RotateRefreshTokenAndStoreAccess (sv_redis S) (sv_digest S) (w_redis w) i j k d d' rt ttl)))"
    by (rule serves_op [where op = "Token_op (Rotate_refresh_with_access i j k d d' rt ttl)"]) (simp_all add: assms)
  show "serves S P w (fst (on_redis w (RevokeRefreshTokenForClient (sv_redis S) (sv_digest S) (w_redis w) i c ttl)))"
    by (rule serves_op [where op = "Token_op (Revoke_refresh_for_client i c ttl)"]) (simp_all add: assms)
  show "serves S P w (fst (on_redis w (RevokeToken (sv_redis S) (sv_digest S) (w_redis w) i)))"
    by (rule serves_op [where op = "Token_op (Revoke_token i)"]) (simp_all add: assms)
  show "serves S P w (fst (on_redis w (GetRefreshToken (sv_redis S) (sv_digest S) (w_redis w) i)))"
    by (rule serves_op [where op = Read]) (simp_all add: assms GetRefreshToken_def fst_reads)
  have "does (sv_redis S) (sv_digest S) P db (fst (GetRefreshTokenState (sv_redis S) (sv_digest S) db i))" for db
    unfolding GetRefreshTokenState_def split_beta
    by (cases "snd (getJSON (sv_redis S) db (refreshPrefix @ sv_digest S i) decode_token)")
       (auto simp: fst_reads intro: does_trans [OF r r] r)
  then show "serves S P w (fst (on_redis w (GetRefreshTokenState (sv_redis S) (sv_digest S) (w_redis w) i)))"
    by (simp add: serves_def)
qed

text \<open>The steps a token request may take.\<close>

definition token_step :: "duration \<Rightarrow> store_op \<Rightarrow> bool" where
  "token_step rt op = (case op of Token_op t \<Rightarrow> token_lifetimes rt t | Read \<Rightarrow> True | _ \<Rightarrow> False)"

lemma token_step_simps [simp]: "token_step rt Read" "token_step rt (Token_op t) = token_lifetimes rt t"
  by (simp_all add: token_step_def)

lemma token_step_lifetimes: "token_step rt op \<Longrightarrow> lifetimes rt op"
  by (simp add: token_step_def lifetimes_def split: store_op.splits)

lemma token_step_I: "token_lifetimes rt t \<Longrightarrow> token_step rt (Token_op t)"
  by simp

lemmas token_ops_serve = serves_token_ops [OF token_step_simps(1) token_step_I]

lemma serves_checks:
  "serves S (token_step rt) w (fst (validateUser S w u v))"
  "serves S (token_step rt) w (fst (validateAuthorization S w d))"
  "serves S (token_step rt) w (fst (validateAccessPolicy S w d))"
  "serves S (token_step rt) w (fst (currentClientAuthorizationRevision S w c))"
  "serves S (token_step rt) w (fst (ValidateAccessToken S w t))"
  "serves S (token_step rt) w (fst (signAccessToken S w c s sc ac n ttl a))"
  by (auto intro: serves_reads [OF reads_same] serves_reads [OF validateAuthorization_reads]
      serves_reads [OF ValidateAccessToken_reads])

lemma save_new_refresh_serves: "serves S (token_step rt) w (fst (save_new_refresh S w d rt))"
proof -
  obtain w1 o1 where r1: "GenerateRandomString (sv_env S) w 32 = (w1, o1)" by fastforce
  obtain w2 o2 where r2: "GenerateRandomString (sv_env S) w1 32 = (w2, o2)" by fastforce
  have s: "serves S (token_step rt) w w1" "serves S (token_step rt) w w2"
    using r1 r2 by (auto simp: GenerateRandomString_def intro: serves_same)
  show ?thesis
  proof (cases o1)
    case (Some refresh)
    have "serves S (token_step rt) w (fst (on_result g (map_error TokenStore (on_redis w2
        (SaveRefreshToken (sv_redis S) (sv_digest S) (w_redis w2) refresh d rt o2)))))" for g
      by (intro serves_transform) (rule serves_trans [OF s(2) token_ops_serve(3)])
    then show ?thesis by (simp only: save_new_refresh_def r1 r2 Some prod.case option.case)
  qed (use s in \<open>simp add: save_new_refresh_def r1\<close>)
qed

lemma serves_pair: "serves S P w (fst (w, x))"
  by simp

lemma serves_record_usage: "serves S P w (record_usage S w s c v)"
  by (rule serves_same [OF record_usage_frame])

lemma serves_revoke_refresh: "serves S (token_step rt) w (fst (revoke_refresh S w t c))"
  unfolding revoke_refresh_def by (rule token_ops_serve)

lemma store_access_serves:
  assumes "ttl \<le> rt"
  shows "serves S (token_step rt) w (fst (store_access S w c jti d refresh ttl))"
proof -
  let ?m = "if td_FamilyKey d = [] then on_redis w (SaveToken (sv_redis S) (sv_digest S) (w_redis w) jti d ttl)
      else on_redis w (SaveTokenForRefreshFamily (sv_redis S) (sv_digest S) (w_redis w) jti d (td_FamilyKey d) ttl)"
  have "serves S (token_step rt) w (fst ?m)" using assms by (intro serves_if token_ops_serve)
  then show ?thesis
    unfolding store_access_def
    by (cases ?m; cases "snd ?m") (auto simp only: prod.case sum.case fst_conv snd_conv split: if_split
        intro: serves_trans [OF _ serves_revoke_refresh])
qed

lemma generateTokenPair_serves:
  assumes "issues_within rt (sv_tokens S)"
  shows "serves S (token_step rt) w (fst (generateTokenPair S w c s sc ac v b f t r a))"
proof -
  have rt: "tl_RefreshToken (Lifetimes (sv_tokens S)) = rt" "tl_AccessToken (Lifetimes (sv_tokens S)) \<le> rt"
    using assms by (simp_all add: issues_within_def)
  have "serves S (token_step rt) w1 (fst (record_usage S w1 s c v, x))" for w1 x
    using serves_record_usage by simp
  then show ?thesis
    unfolding generateTokenPair_def Let_def rt(1) split_beta
    by (intro serves_intros serves_checks serves_pair save_new_refresh_serves store_access_serves [OF rt(2)])
qed

lemma serves_or_revoke: "serves S (token_step rt) w (fst m) \<Longrightarrow> serves S (token_step rt) w (fst (or_revoke S t c m))"
  by (auto simp: or_revoke_def split: prod.split sum.split intro: serves_trans [OF _ serves_revoke_refresh])

lemma rotate_pair_serves:
  assumes "issues_within rt (sv_tokens S)"
  shows "serves S (token_step rt) w (fst (rotate_pair S w t d cl))"
proof -
  obtain w1 o1 where r1: "GenerateRandomString (sv_env S) w 32 = (w1, o1)" by fastforce
  have s: "serves S (token_step rt) w w1" using r1 by (auto simp: GenerateRandomString_def intro: serves_same)
  show ?thesis
  proof (cases o1)
    case None
    then show ?thesis using s by (simp add: rotate_pair_def r1)
  next
    case (Some n)
    have rt: "tl_RefreshToken (Lifetimes (sv_tokens S)) = rt" "tl_AccessToken (Lifetimes (sv_tokens S)) \<le> rt"
      using assms by (simp_all add: issues_within_def)
    show ?thesis
      unfolding rotate_pair_def r1 Some prod.case option.case Let_def rt(1)
      by (rule serves_trans [OF s])
         (auto simp only: split_beta intro!: serves_intros serves_checks token_ops_serve(4) rt(2))
  qed
qed

lemma applyAuthenticationMapClaims_world:
  "w_redis (fst (applyAuthenticationMapClaims E w m a)) = w_redis w"
  "w_sql (fst (applyAuthenticationMapClaims E w m a)) = w_sql w"
  by (auto simp: applyAuthenticationMapClaims_def Now_def Let_def split: prod.split)

lemma serves_introspection: "serves S P w (fst (refresh_introspection S w d))"
  by (rule serves_same) (simp_all add: refresh_introspection_def applyAuthenticationMapClaims_world)

text \<open>Every request to the token service.\<close>

lemma token_requests_serve:
  assumes "issues_within rt (sv_tokens S)"
  shows "serves S (token_step rt) w (fst (GenerateAuthorizationCodeTokenPair S w c u sc ac v t r a b))"
    and "serves S (token_step rt) w (fst (GenerateClientTokenPair S w c sc))"
    and "serves S (token_step rt) w (fst (RefreshTokenWithClaimPolicy S w tok c sc cm))"
    and "serves S (token_step rt) w (fst (RevokeTokenForClient S w tok c))"
    and "serves S (token_step rt) w (fst (IntrospectTokenForClient S w tok c sc))"
proof -
  note g = generateTokenPair_serves [OF assms]
  show "serves S (token_step rt) w (fst (GenerateAuthorizationCodeTokenPair S w c u sc ac v t r a b))"
    unfolding GenerateAuthorizationCodeTokenPair_def
    by (intro serves_intros serves_checks g) (simp_all)
  show "serves S (token_step rt) w (fst (GenerateClientTokenPair S w c sc))"
    unfolding GenerateClientTokenPair_def by (rule g)
  show "serves S (token_step rt) w (fst (RefreshTokenWithClaimPolicy S w tok c sc cm))"
    unfolding RefreshTokenWithClaimPolicy_def Let_def split_beta
    by (intro serves_intros serves_checks serves_pair serves_or_revoke token_ops_serve rotate_pair_serves [OF assms])
      (use serves_revoke_refresh in \<open>auto split: sum.split\<close>)
  show "serves S (token_step rt) w (fst (RevokeTokenForClient S w tok c))"
    unfolding RevokeTokenForClient_def
    by (intro serves_case serves_intros serves_checks serves_pair serves_revoke_refresh token_ops_serve)
  show "serves S (token_step rt) w (fst (IntrospectTokenForClient S w tok c sc))"
    unfolding IntrospectTokenForClient_def introspect_refresh_def
    by (intro serves_case serves_intros serves_checks serves_pair token_ops_serve serves_introspection)
qed

section \<open>What is issued\<close>

definition with_authentication :: "claims \<Rightarrow> issuance_authentication \<Rightarrow> claims" where
  "with_authentication c a = c\<lparr>jc_AuthenticationContext := ia_Context a,
     jc_AuthenticationMethods := ia_Methods a, jc_AuthenticationTime := ia_AuthTime a\<rparr>"

lemma signAccessToken_Inr:
  fixes w :: "'db world"
  assumes "signAccessToken S w c s sc ac v ttl a = (w', Inr (tok, jti))" and "consistent_authentication a"
  obtains w1 :: "'db world" and priv kid i where
    "GetPrivateKey (sv_gcm S) (sv_rsa S) (sv_env S) (sv_keys S) w = (w1, Inr (priv, kid))"
    and "jti = e_uuid (sv_env S) (Suc i)" and "w_tick w \<le> i" and "Suc i < w_tick w'"
    and "jwt_sign (sv_jwt S) priv kid (claims_payload (with_authentication
           (access_claims (sv_tokens S) (e_now (sv_env S) i) jti c s sc ac v ttl) a)) = Some tok"
proof -
  obtain w1 priv kid where k: "GetPrivateKey (sv_gcm S) (sv_rsa S) (sv_env S) (sv_keys S) w = (w1, Inr (priv, kid))"
    using assms(1) by (auto simp: signAccessToken_def and_then_Inr map_error_Inr)
  define i where "i = w_tick w1"
  let ?c = "access_claims (sv_tokens S) (e_now (sv_env S) i) (e_uuid (sv_env S) (Suc i)) c s sc ac v ttl"
  have ap: "applyAuthenticationClaims (sv_env S) x ?c a = (x, with_authentication ?c a)" for x :: "'db world"
    unfolding with_authentication_def
    by (rule applyAuthenticationClaims_consistent [OF assms(2)]) (simp_all add: access_claims_def)
  have r: "jti = e_uuid (sv_env S) (Suc i)" "w' = tick (tick w1)"
      "jwt_sign (sv_jwt S) priv kid (claims_payload (with_authentication ?c a)) = Some tok"
    using assms(1)
    by (auto simp: signAccessToken_def k Now_def NewUUID_def tick_def i_def [symmetric] ap Let_def
        split: option.split_asm)
  have "w1 = w \<or> w1 = tick w"
    using fst_GetPrivateKey [of "sv_gcm S" "sv_rsa S" "sv_env S" "sv_keys S" w] k by (simp split: if_splits)
  then have "w_tick w \<le> i" by (auto simp: i_def tick_def)
  from that [OF k r(1) this _ r(3) [folded r(1)]] show thesis by (simp add: r(2) i_def tick_def)
qed

lemma SaveTokenForRefreshFamily_Inr:
  assumes R: "redis_server R" and "typed R db" and s: "SaveTokenForRefreshFamily R h db jti d f ttl = (db', Inr x)"
  shows "GET R db' (secretKey h tokenPrefix jti) = Some (VToken (json_token (d\<lparr>td_FamilyKey := f\<rparr>)))"
proof -
  let ?k = "secretKey h tokenPrefix jti" and ?d = "snd (LINK R db)"
  let ?v = "VToken (json_token (d\<lparr>td_FamilyKey := f\<rparr>))"
  obtain ms n where ms: "ttlMilliseconds ttl = Inr ms" and n: "n \<noteq> 0"
      and c: "call R ErrRedis db (saveFamilyTokenScript R ?k (family_set f) (revoked_marker f) ?v ms) = (db', Inr n)"
    using s by (auto simp: SaveTokenForRefreshFamily_def on_result_Inr split: if_split_asm sum.split_asm)
  have "saveFamilyTokenScript R ?k (family_set f) (revoked_marker f) ?v ms ?d = (db', Inr n)"
    using call_Inr [OF c] by simp
  then have db': "db' = raise_ttl R (SADD R (SET R ?d ?k ?v ms) (family_set f) ?k) (family_set f) ms"
    using n by (auto simp: saveFamilyTokenScript_def split: if_split_asm)
  have m: "0 < ms" using ttlMilliseconds_pos [OF ms] by simp
  have t: "typed R ?d" by (rule redis_server.typed_LINK [OF R assms(2)])
  have ne: "family_set f \<noteq> ?k" by (simp add: key_simps)
  have "GET R ?d (family_set f) = None" "ZSCORE R ?d (family_set f) = Map.empty"
    using typed_no_string [OF t] typed_no_zset [OF t] by (simp_all add: key_simps)
  then have pre: "GET R (SET R ?d ?k ?v ms) (family_set f) = None" "ZSCORE R (SET R ?d ?k ?v ms) (family_set f) = Map.empty"
    using ne m by (simp_all add: redis_server.SET_obs [OF R])
  show ?thesis
    unfolding db' using m
    by (simp add: raise_ttl_def redis_server.PEXPIRE_obs [OF R] redis_server.SADD_obs [OF R pre] redis_server.SET_obs [OF R])
qed

lemma store_access_Inr:
  assumes R: "redis_server (sv_redis S)" and t: "typed (sv_redis S) (w_redis w)"
    and s: "store_access S w c jti d refresh ttl = (w', Inr x)"
  shows "GET (sv_redis S) (w_redis w') (secretKey (sv_digest S) tokenPrefix jti) = Some (VToken (json_token d))"
proof (cases "td_FamilyKey d = []")
  case True
  then show ?thesis
    using s redis_server.setJSON_Inr [OF R]
    by (auto simp: store_access_def on_redis_Inr SaveToken_def on_redis_def split: prod.split_asm sum.split_asm)
      (metis prod.collapse)
next
  case False
  then show ?thesis
    using s SaveTokenForRefreshFamily_Inr [OF R t]
    by (auto simp: store_access_def on_redis_def split: prod.split_asm sum.split_asm)
      (metis prod.collapse token_data.surjective token_data.update_convs(12))
qed

end
