(* ===== verification/Token_Accept.thy ===== *)
theory Token_Accept
  imports Token_Issue
begin

text \<open>
  Acceptance of what was issued. The laws of the \<open>jwt\<close> package are hypotheses: the header of
  a signed token names its algorithm and key, and parsing it with the matching public key returns
  the signed object while its times hold. On a system whose requests are served, the checks of an
  access token then succeed.
\<close>

section \<open>Laws of the package\<close>

definition unix_time :: "int \<Rightarrow> gotime" where
  "unix_time n = n * Second + unix_epoch"

text \<open>\<open>exp\<close>, \<open>nbf\<close> and \<open>iat\<close> with a leeway.\<close>

definition times_hold :: "payload \<Rightarrow> duration \<Rightarrow> gotime \<Rightarrow> bool" where
  "times_hold m leeway now =
     (case (date_field m ''exp'', date_field m ''nbf'', date_field m ''iat'') of
        (Some (Some e), Some (Some n), Some (Some i)) \<Rightarrow>
          now < unix_time e + leeway \<and> unix_time n - leeway \<le> now \<and> unix_time i - leeway \<le> now
      | _ \<Rightarrow> False)"

definition jwt_laws :: "rsa \<Rightarrow> jwt \<Rightarrow> bool" where
  "jwt_laws K J \<longleftrightarrow>
     (\<forall>priv kid m tok. jwt_sign J priv kid m = Some tok \<longrightarrow>
        jwt_header J tok = Some (''RS256'', Some kid) \<and>
        (\<forall>pem pub issuer leeway now.
           rsa_public_pem K priv = Some pem \<longrightarrow> rsa_parse_public K pem = Some pub \<longrightarrow>
           text_field m ''iss'' = Some issuer \<longrightarrow> times_hold m leeway now \<longrightarrow>
           jwt_parse J pub issuer leeway now tok = Some m))"

lemma unix_time_Unix: "unix_time (Unix t) \<le> t" "t < unix_time (Unix t) + Second"
proof -
  have "unix_time (Unix t) = t - (t - unix_epoch) mod 1000000000"
    by (simp add: unix_time_def Unix_def Second_def Millisecond_def minus_mod_eq_div_mult [symmetric])
  then show "unix_time (Unix t) \<le> t" "t < unix_time (Unix t) + Second"
    using pos_mod_bound [of 1000000000 "t - unix_epoch"] pos_mod_sign [of 1000000000 "t - unix_epoch"]
    by (simp_all add: Second_def Millisecond_def)
qed

text \<open>An access token's times hold for two minutes around its issue.\<close>

lemma access_times_hold:
  assumes "now \<le> at + jwtClockSkew" and "at \<le> now + jwtClockSkew" and "Second \<le> ttl"
  shows "times_hold (claims_payload (with_authentication (access_claims ts at jti c s sc ac v ttl) a)) jwtClockSkew now"
  using assms unix_time_Unix [of at] unix_time_Unix [of "at + ttl"]
  by (simp add: times_hold_def payload_fields with_authentication_def access_claims_def)

lemma access_claim_fields [simp]:
  fixes ts now jti c s sc ac v ttl a
  defines "k \<equiv> with_authentication (access_claims ts now jti c s sc ac v ttl) a"
  shows "jc_Issuer k = ts_issuer ts" "jc_Subject k = s" "jc_Audience k = [c]" "jc_ExpiresAt k \<noteq> None" "jc_NotBefore k \<noteq> None"
    "jc_IssuedAt k \<noteq> None" "jc_ID k = jti" "jc_Scope k = joinScopes sc" "jc_AllowedClaims k = ac"
    "jc_TokenUse k = ''access''" "jc_AuthVersion k = v" "jc_AuthenticationContext k = ia_Context a"
    "jc_AuthenticationMethods k = ia_Methods a" "jc_AuthenticationTime k = ia_AuthTime a"
  by (simp_all add: k_def with_authentication_def access_claims_def)

section \<open>The verification key\<close>

definition usable_key :: "string \<Rightarrow> jwk \<Rightarrow> bool" where
  "usable_key kid j \<longleftrightarrow> jk_Kid j = kid \<and> jk_Algorithm j = ''RS256'' \<and> jk_KeyType j = ''RSA'' \<and> jk_Usage j = ''sig''"

text \<open>The row of the signing key publishes the public half of the key that signs.\<close>

definition signing_key_published :: "'db services \<Rightarrow> 'db world \<Rightarrow> bool" where
  "signing_key_published S w =
     (case snd (GetPrivateKey (sv_gcm S) (sv_rsa S) (sv_env S) (sv_keys S) w) of
        Inl _ \<Rightarrow> True
      | Inr (priv, kid) \<Rightarrow>
          (case map_of (t_jwk (w_sql w)) kid of
             None \<Rightarrow> False
           | Some j \<Rightarrow> kid \<noteq> [] \<and> usable_key kid j \<and> rsa_public_pem (sv_rsa S) priv = Some (jk_PublicKey j) \<and>
                       rsa_parse_public (sv_rsa S) (jk_PublicKey j) \<noteq> None))"

lemma find_public_key_found:
  assumes "j \<in> set js" and "usable_key kid j" and "\<And>i. i \<in> set js \<Longrightarrow> jk_Kid i = kid \<Longrightarrow> i = j"
    and "rsa_parse_public K (jk_PublicKey j) = Some pub"
  shows "find_public_key K kid js = Inr pub"
  using assms(1,3)
proof (induction js)
  case (Cons i js)
  show ?case
  proof (cases "jk_Kid i = kid")
    case True
    then have "i = j" using Cons.prems(2) by simp
    then show ?thesis using assms(2,4) by (simp add: usable_key_def)
  next
    case False
    then have "j \<in> set js" using Cons.prems(1) assms(2) by (auto simp: usable_key_def)
    then show ?thesis using Cons False by simp
  qed
qed simp

lemma getPublicKey_found:
  assumes "keys_ok (t_jwk (w_sql w))" and "map_of (t_jwk (w_sql w)) kid = Some j" and "usable_key kid j"
    and "jk_Status j = JWKStatusSigning" and "rsa_parse_public (sv_rsa S) (jk_PublicKey j) = Some pub"
    and "e_sql (sv_env S) (w_tick w) = Sql_served"
  shows "getPublicKey S w kid = (tick w, Inr pub)"
proof -
  define js where "js = newest_first (filter (listed (e_now (sv_env S) (w_tick w))) (map snd (t_jwk (w_sql w))))"
  have l: "ListActivePublicKeys (sv_env S) w = (tick w, Inr js)"
    using assms(6) by (simp add: ListActivePublicKeys_def query_def js_def)
  have "j \<in> set js"
    using map_of_SomeD [OF assms(2)] assms(4) by (force simp: js_def listed_def)
  moreover have "i = j" if "i \<in> set js" "jk_Kid i = kid" for i
  proof -
    from that(1) obtain k where k: "(k, i) \<in> set (t_jwk (w_sql w))" by (auto simp: js_def)
    then have "k = kid" using assms(1) that(2) by (auto simp: keys_ok_def)
    then have "map_of (t_jwk (w_sql w)) kid = Some i" using k assms(1) by (simp add: keys_ok_def)
    with assms(2) show ?thesis by simp
  qed
  ultimately have "find_public_key (sv_rsa S) kid js = Inr pub"
    using find_public_key_found [OF _ assms(3) _ assms(5)] by blast
  then show ?thesis by (simp add: getPublicKey_def l)
qed

section \<open>Acceptance\<close>

definition undisturbed :: "'db services \<Rightarrow> 'db world \<Rightarrow> bool" where
  "undisturbed S w \<longleftrightarrow> LINK (sv_redis S) (w_redis w) = (Delivered, w_redis w)"

lemma call_undisturbed: "LINK R db = (Delivered, db) \<Longrightarrow> call R e db f = f db"
  by (simp add: call_split)

lemma validateUser_accepts:
  assumes "subject_current (sv_env S) (w_sql w) u v" and "ts_users (sv_tokens S)" and "\<And>i. e_sql (sv_env S) i = Sql_served"
  shows "\<exists>w'. validateUser S w u v = (w', Inr ()) \<and> w_redis w' = w_redis w \<and> w_sql w' = w_sql w"
proof -
  have "\<exists>w'. validateUser S w u v = (w', Inr ())"
    using assms by (auto simp: validateUser_def subject_current_def user_GetByID_def query_def split: option.splits)
  then obtain w' where "validateUser S w u v = (w', Inr ())" by blast
  with validateUser_world [of S w u v] show ?thesis by simp
qed

lemma validateAuthorization_accepts:
  assumes "unrevoked S w d" and "grant_current (sv_env S) (w_sql w) d" and "0 < td_AuthorizationIssuedAt d"
    and "td_UserID d \<noteq> []" and "td_ClientID d \<noteq> []" and "undisturbed S w" and "typed (sv_redis S) (w_redis w)"
    and "ts_accessPolicy (sv_tokens S)" and "\<And>i. e_sql (sv_env S) i = Sql_served"
    and "0 < td_ClientAuthorizationRevision d"
  shows "\<exists>w'. validateAuthorization S w d = (w', Inr ()) \<and> w_redis w' = w_redis w \<and> w_sql w' = w_sql w"
proof -
  let ?k = "authorizationRevocationKey (sv_digest S) (td_UserID d) (td_ClientID d)"
  have k: "key_class ?k = ''authorization-revoked''" by simp
  have "GET (sv_redis S) (w_redis w) ?k = None \<or> (\<exists>n. GET (sv_redis S) (w_redis w) ?k = Some (VNum n))"
    using typed_GET [OF assms(7), of ?k] by (cases "GET (sv_redis S) (w_redis w) ?k") (auto simp: k value_ok_cases)
  then have r: "IsUserClientAuthorizationRevoked (sv_redis S) (sv_digest S) (w_redis w) (td_UserID d) (td_ClientID d)
      (td_AuthorizationIssuedAt d) = (w_redis w, Inr False)"
    using assms(1,6) by (auto simp: IsUserClientAuthorizationRevoked_def call_undisturbed undisturbed_def unrevoked_def)
  obtain cl where cl: "map_of (t_clients (w_sql w)) (td_ClientID d) = Some cl"
      "oc_AuthorizationRevision cl = td_ClientAuthorizationRevision d"
    using assms(2,10) by (auto simp: grant_current_def normalizedClientRevision_def split: option.splits if_splits)
  have "\<exists>w'. validateAuthorization S w d = (w', Inr ())"
    using assms(3-5,8-10) cl
    by (simp add: validateAuthorization_def r currentClientAuthorizationRevision_def ClientAuthorizationRevision_def query_def Let_def)
  moreover have "w_redis (fst (validateAuthorization S w d)) = w_redis w"
    using assms(3-5,8-10) cl
    by (simp add: validateAuthorization_def r currentClientAuthorizationRevision_def ClientAuthorizationRevision_def query_def Let_def)
  moreover have "w_sql (fst (validateAuthorization S w d)) = w_sql w"
    using validateAuthorization_reads [of S w d] by (simp add: reads_def)
  ultimately show ?thesis by (metis fst_conv)
qed

lemma validateAccessPolicy_accepts:
  assumes "grant_current (sv_env S) (w_sql w) d" and "\<And>i. e_sql (sv_env S) i = Sql_served"
  shows "\<exists>w'. validateAccessPolicy S w d = (w', Inr ())"
  using assms
  by (auto simp: validateAccessPolicy_def UserMayAccess_def grant_current_def admitted_def query_def split: option.splits)

lemma ValidateAccessToken_accepts:
  assumes R: "redis_server (sv_redis S)" and t: "typed (sv_redis S) (w_redis w)" and und: "undisturbed S w"
    and served: "\<And>i. e_sql (sv_env S) i = Sql_served" and sv: "ts_users (sv_tokens S)" "ts_accessPolicy (sv_tokens S)"
    and p: "parseSignedToken S w tok = (w1, Inr c)"
    and use: "jc_TokenUse c = ''access''" "jc_ID c \<noteq> []" "length (jc_Audience c) = 1"
    and g: "GET (sv_redis S) (w_redis w) (secretKey (sv_digest S) tokenPrefix (jc_ID c)) = Some (VToken d)"
    and m: "metadata_matches d c" and cur: "subject_current (sv_env S) (w_sql w) (jc_Subject c) (jc_AuthVersion c)"
      "grant_current (sv_env S) (w_sql w) d" "unrevoked S w d"
    and d: "0 < td_AuthorizationIssuedAt d" "td_UserID d \<noteq> []" "td_ClientID d \<noteq> []" "0 < td_ClientAuthorizationRevision d"
  shows "snd (ValidateAccessToken S w tok) = Inr c"
proof -
  have w1: "w_redis w1 = w_redis w" "w_sql w1 = w_sql w" using parseSignedToken_world [of S w tok] p by simp_all
  have u: "undisturbed S v" if "w_redis v = w_redis w" for v using und that by (simp add: undisturbed_def)
  have gt: "on_redis w1 (GetToken (sv_redis S) (sv_digest S) (w_redis w1) (jc_ID c)) = (w1, Inr d)"
    using und by (simp add: GetToken_def getJSON_def w1 undisturbed_def call_undisturbed g)
  obtain w2 where v2: "validateUser S w1 (jc_Subject c) (jc_AuthVersion c) = (w2, Inr ())" "w_redis w2 = w_redis w" "w_sql w2 = w_sql w"
    using validateUser_accepts [of S w1, OF _ sv(1) served] cur(1) w1 by metis
  obtain w3 where v3: "validateAuthorization S w2 d = (w3, Inr ())" "w_sql w3 = w_sql w"
    using validateAuthorization_accepts [of S w2 d, OF _ _ d(1-3) u _ sv(2) served d(4)] cur(2,3) t v2(2,3)
    by (auto simp: unrevoked_def)
  obtain w4 where "validateAccessPolicy S w3 d = (w4, Inr ())"
    using validateAccessPolicy_accepts [of S w3 d, OF _ served] cur(2) v3(2) by auto
  then show ?thesis by (simp add: ValidateAccessToken_def p use gt m v2(1) v3(1))
qed

lemma parseSignedToken_accepts:
  assumes laws: "jwt_laws (sv_rsa S) (sv_jwt S)" and served: "\<And>i. e_sql (sv_env S) i = Sql_served"
    and keys: "keys_ok (t_jwk (w_sql w))" and pub: "signing_key_published S w"
    and k: "snd (GetPrivateKey (sv_gcm S) (sv_rsa S) (sv_env S) (sv_keys S) w) = Inr (priv, kid)"
    and signed: "jwt_sign (sv_jwt S) priv kid (claims_payload c) = Some tok"
    and c: "jc_Issuer c = ts_issuer (sv_tokens S)" "jc_ExpiresAt c \<noteq> None" "jc_IssuedAt c \<noteq> None" "jc_NotBefore c \<noteq> None"
    and times: "\<And>i. times_hold (claims_payload c) jwtClockSkew (e_now (sv_env S) i)"
  shows "\<exists>w'. parseSignedToken S w tok = (w', Inr (c\<lparr>jc_AllowedClaims := omit_empty (jc_AllowedClaims c)\<rparr>))"
proof -
  obtain j pk where j: "map_of (t_jwk (w_sql w)) kid = Some j" "kid \<noteq> []" "usable_key kid j"
      "rsa_public_pem (sv_rsa S) priv = Some (jk_PublicKey j)" "rsa_parse_public (sv_rsa S) (jk_PublicKey j) = Some pk"
    using pub by (auto simp: signing_key_published_def k split: option.splits)
  obtain w1 where "GetPrivateKey (sv_gcm S) (sv_rsa S) (sv_env S) (sv_keys S) w = (w1, Inr (priv, kid))"
    using k by (metis prod.collapse)
  from GetPrivateKey_Inr [OF this] obtain k' j' where j': "(k', j') \<in> set (t_jwk (w_sql w))"
      "jk_Status j' = JWKStatusSigning" "kid = jk_Kid j'" by blast
  then have "map_of (t_jwk (w_sql w)) kid = Some j'" using keys by (auto simp: keys_ok_def)
  then have st: "jk_Status j = JWKStatusSigning" using j(1) j'(2) by simp
  have g: "getPublicKey S w kid = (tick w, Inr pk)"
    by (rule getPublicKey_found [OF keys j(1,3) st j(5) served])
  have h: "jwt_header (sv_jwt S) tok = Some (''RS256'', Some kid)"
    and q: "jwt_parse (sv_jwt S) pk (ts_issuer (sv_tokens S)) jwtClockSkew (e_now (sv_env S) i) tok = Some (claims_payload c)" for i
    using laws signed j(4,5) times c(1) unfolding jwt_laws_def by (fastforce simp: payload_fields)+
  have "checked_claims (ts_issuer (sv_tokens S)) (Some (claims_payload c)) =
      Inr (c\<lparr>jc_AllowedClaims := omit_empty (jc_AllowedClaims c)\<rparr>)"
    by (simp add: checked_claims_Inr decode_claims_payload c)
  then show ?thesis by (simp add: parseSignedToken_def h j(2) g Now_def q)
qed

text \<open>The record stored for an access token agrees with the claims that were signed.\<close>

lemma issued_metadata_matches:
  "metadata_matches (json_token (issued_data c s sc ac ''access'' v a f t r))
     (with_authentication (access_claims ts now jti c s sc ac v ttl) a\<lparr>jc_AllowedClaims := omit_empty ac\<rparr>)"
  by (simp add: metadata_matches_def json_token_def issued_data_def with_authentication_def access_claims_def)

lemma generateTokenPair_Inr:
  fixes w :: "'db world"
  assumes R: "redis_server (sv_redis S)" and t: "typed (sv_redis S) (w_redis w)" and rt: "issues_within rt (sv_tokens S)"
    and a: "consistent_authentication a" and g: "generateTokenPair S w c s sc ac v b [] t0 r a = (w', Inr p)"
  obtains w1 :: "'db world" and priv kid i jti f where
    "GetPrivateKey (sv_gcm S) (sv_rsa S) (sv_env S) (sv_keys S) w = (w1, Inr (priv, kid))"
    and "jwt_sign (sv_jwt S) priv kid (claims_payload (with_authentication
           (access_claims (sv_tokens S) (e_now (sv_env S) i) jti c s sc ac v (tl_AccessToken (Lifetimes (sv_tokens S)))) a)) =
         Some (tp_AccessToken p)"
    and "jti \<in> range (e_uuid (sv_env S))"
    and "GET (sv_redis S) (w_redis w') (secretKey (sv_digest S) tokenPrefix jti) =
         Some (VToken (json_token (issued_data c s sc ac ''access'' v a f t0 r)))"
proof -
  let ?L = "Lifetimes (sv_tokens S)"
  obtain wa access jti w2 refresh f w3 where
      s1: "signAccessToken S w c s sc ac v (tl_AccessToken ?L) a = (wa, Inr (access, jti))"
      and s2: "(if b then save_new_refresh S wa (issued_data c s sc ac ''refresh'' v a [] t0 r) (tl_RefreshToken ?L)
                else (wa, Inr ([], []))) = (w2, Inr (refresh, f))"
      and s3: "store_access S w2 c jti (issued_data c s sc ac ''access'' v a f t0 r) refresh (tl_AccessToken ?L) = (w3, Inr ())"
      and w': "w' = record_usage S w3 s c v" and p: "tp_AccessToken p = access"
    using g by (fastforce simp: generateTokenPair_def Let_def and_then_Inr)
  have "serves S (token_step rt) w w2"
    using serves_checks(6) [of S rt w c s sc ac v "tl_AccessToken ?L" a] s1 s2
      save_new_refresh_serves [of S rt wa "issued_data c s sc ac ''refresh'' v a [] t0 r"] rt
    by (auto simp: issues_within_def split: if_split_asm intro: serves_trans)
  then have t2: "typed (sv_redis S) (w_redis w2)" by (rule serves_typed [OF R _ t])
  obtain w1 priv kid i where k: "GetPrivateKey (sv_gcm S) (sv_rsa S) (sv_env S) (sv_keys S) w = (w1, Inr (priv, kid))"
      and j: "jti = e_uuid (sv_env S) (Suc i)"
      and sg: "jwt_sign (sv_jwt S) priv kid (claims_payload (with_authentication
           (access_claims (sv_tokens S) (e_now (sv_env S) i) jti c s sc ac v (tl_AccessToken ?L)) a)) = Some access"
    using signAccessToken_Inr [OF s1 a] by metis
  from that [OF k sg [folded p]] show thesis
    using store_access_Inr [OF R t2 s3] by (simp add: w' record_usage_frame(1) j)
qed

lemma GenerateAuthorizationCodeTokenPair_Inr:
  fixes w :: "'db world"
  assumes R: "redis_server (sv_redis S)"
    and g: "GenerateAuthorizationCodeTokenPair S w c u sc ac v t r a b = (w', Inr p)"
  obtains n and w2 :: "'db world" where "0 < v" and "0 < t" and "c \<noteq> []" and "u \<noteq> []" and "1 \<le> n"
    and "map_option oc_AuthorizationRevision (map_of (t_clients (w_sql w)) c) = Some n" and "reads S w w2"
    and "unrevoked S w2 (grant_subject c u v t n)"
    and "generateTokenPair S w2 c u sc ac v b [] t n a = (w', Inr p)"
proof -
  obtain w1 n w2 where v: "0 < v" "0 < t" and c: "currentClientAuthorizationRevision S w c = (w1, Inr n)"
      and a: "validateAuthorization S w1 (grant_subject c u v t n) = (w2, Inr ())"
      and g2: "generateTokenPair S w2 c u sc ac v b [] t n a = (w', Inr p)"
    using g by (auto simp: GenerateAuthorizationCodeTokenPair_def and_then_Inr split: if_split_asm)
  have cu: "c \<noteq> []" "u \<noteq> []"
    using a v by (auto simp: validateAuthorization_def grant_subject_def issued_data_def)
  have "reads S w w2"
    using reads_trans [of S w w1 w2] check_reads(4) [of S w c] validateAuthorization_reads [of S w1 "grant_subject c u v t n"] c a
    by simp
  moreover have "unrevoked S w2 (grant_subject c u v t n)"
    using validateAuthorization_Inr [OF R a] v by (simp add: grant_subject_def issued_data_def)
  ultimately show thesis
    using that [OF v cu _ _ _ _ g2] currentClientAuthorizationRevision_Inr [OF c] by auto
qed

lemma issued_token_accepted:
  fixes w :: "'db world"
  assumes R: "redis_server (sv_redis S)" and t: "typed (sv_redis S) (w_redis w)" and rt: "issues_within rt (sv_tokens S)"
    and laws: "jwt_laws (sv_rsa S) (sv_jwt S)" and served: "\<And>i. e_sql (sv_env S) i = Sql_served"
    and sv: "ts_users (sv_tokens S)" "ts_accessPolicy (sv_tokens S)"
    and keys: "keys_ok (t_jwk (w_sql w))" "signing_key_published S w"
    and clock: "\<And>i j. e_now (sv_env S) i \<le> e_now (sv_env S) j + jwtClockSkew" and ids: "\<And>i. e_uuid (sv_env S) i \<noteq> []"
    and ttl: "Second \<le> tl_AccessToken (Lifetimes (sv_tokens S))" and a: "consistent_authentication a"
    and subj: "subject_current (sv_env S) (w_sql w) u v" and adm: "admitted (sv_env S) (w_sql w) c u"
    and g: "GenerateAuthorizationCodeTokenPair S w c u sc ac v t0 r a b = (w1, Inr p)" and und: "undisturbed S w1"
  shows "\<exists>k. snd (ValidateAccessToken S w1 (tp_AccessToken p)) = Inr k \<and> jc_Subject k = u \<and> jc_Audience k = [c] \<and>
    jc_Scope k = joinScopes sc \<and> list_of (jc_AllowedClaims k) = list_of ac \<and> jc_AuthVersion k = v \<and>
    jc_AuthenticationContext k = ia_Context a \<and> jc_AuthenticationMethods k = ia_Methods a \<and>
    jc_AuthenticationTime k = ia_AuthTime a"
proof -
  obtain n w2 where n: "0 < v" "0 < t0" "c \<noteq> []" "u \<noteq> []" "1 \<le> n"
      "map_option oc_AuthorizationRevision (map_of (t_clients (w_sql w)) c) = Some n" "reads S w w2"
      and ur: "unrevoked S w2 (grant_subject c u v t0 n)"
      and g2: "generateTokenPair S w2 c u sc ac v b [] t0 n a = (w1, Inr p)"
    using GenerateAuthorizationCodeTokenPair_Inr [OF R g] .
  have t2: "typed (sv_redis S) (w_redis w2)" using n(7) redis_server.does_typed [OF R _ t] by (auto simp: reads_def)
  let ?ttl = "tl_AccessToken (Lifetimes (sv_tokens S))"
  obtain w3 priv kid i jti f where
      k: "GetPrivateKey (sv_gcm S) (sv_rsa S) (sv_env S) (sv_keys S) w2 = (w3, Inr (priv, kid))"
      and sg: "jwt_sign (sv_jwt S) priv kid (claims_payload (with_authentication
           (access_claims (sv_tokens S) (e_now (sv_env S) i) jti c u sc ac v ?ttl) a)) = Some (tp_AccessToken p)"
      and j: "jti \<in> range (e_uuid (sv_env S))"
      and md: "GET (sv_redis S) (w_redis w1) (secretKey (sv_digest S) tokenPrefix jti) =
           Some (VToken (json_token (issued_data c u sc ac ''access'' v a f t0 n)))"
    using generateTokenPair_Inr [OF R t2 rt a g2] .
  let ?c = "with_authentication (access_claims (sv_tokens S) (e_now (sv_env S) i) jti c u sc ac v ?ttl) a"
    and ?d = "json_token (issued_data c u sc ac ''access'' v a f t0 n)"
  have sv1: "serves S (token_step rt) w2 w1" using generateTokenPair_serves [OF rt, of w2 c u sc ac v b "[]" t0 n a] g2 by simp
  then have tabs: "t_users (w_sql w1) = t_users (w_sql w)" "t_clients (w_sql w1) = t_clients (w_sql w)"
      "t_access (w_sql w1) = t_access (w_sql w)" "t_jwk (w_sql w1) = t_jwk (w_sql w)"
    using n(7) same_but_grantsD [of "w_sql w2" "w_sql w1"] by (simp_all add: serves_def reads_def)
  have key: "snd (GetPrivateKey (sv_gcm S) (sv_rsa S) (sv_env S) (sv_keys S) x) = Inr (priv, kid)"
    if "t_jwk (w_sql x) = t_jwk (w_sql w)" for x :: "'db world"
    using GetPrivateKey_cong [of x w2 "sv_env S", OF _ served] k that n(7) by (simp add: reads_def)
  have pub: "signing_key_published S w1" using keys(2) by (simp add: signing_key_published_def key tabs)
  let ?k = "?c\<lparr>jc_AllowedClaims := omit_empty ac\<rparr>"
  have "\<exists>w'. parseSignedToken S w1 (tp_AccessToken p) = (w', Inr (?c\<lparr>jc_AllowedClaims := omit_empty (jc_AllowedClaims ?c)\<rparr>))"
    by (rule parseSignedToken_accepts [OF laws served _ pub key [OF tabs(4)] sg access_claim_fields(1,4,6,5)
          access_times_hold [OF clock clock ttl]]) (simp add: tabs keys(1))
  then obtain w4 where ps: "parseSignedToken S w1 (tp_AccessToken p) = (w4, Inr ?k)" by auto
  have marker: "key_class (authorizationRevocationKey (sv_digest S) u c) = ''authorization-revoked''" by simp
  have "authorizationRevocationKey (sv_digest S) u c \<notin> written (sv_digest S) op" if "token_step rt op" for op
    using that written_classes(3) [of "authorizationRevocationKey (sv_digest S) u c" "sv_digest S"] marker
    by (auto simp: token_step_def split: store_op.splits)
  then have ur1: "unrevoked S w1 ?d"
    using redis_server.does_GET_other [OF R _ t2] ur sv1
    by (fastforce simp: unrevoked_def serves_def grant_subject_def issued_data_def json_token_def)
  have "snd (ValidateAccessToken S w1 (tp_AccessToken p)) = Inr ?k"
  proof (rule ValidateAccessToken_accepts [OF R serves_typed [OF R sv1 t2] und served sv ps])
    show "grant_current (sv_env S) (w_sql w1) ?d"
    proof -
      have d: "td_ClientID ?d = c" "td_UserID ?d = u" "td_ClientAuthorizationRevision ?d = n"
        by (simp_all add: issued_data_def json_token_def)
      have "admitted (sv_env S) (w_sql w1) c u" using adm unfolding admitted_def tabs .
      then show ?thesis using n(5,6) unfolding grant_current_def d tabs by (simp add: normalizedClientRevision_def)
    qed
    show "subject_current (sv_env S) (w_sql w1) (jc_Subject ?k) (jc_AuthVersion ?k)"
    proof -
      have "subject_current (sv_env S) (w_sql w1) u v" using subj unfolding subject_current_def tabs .
      then show ?thesis by simp
    qed
  qed (use ids j md ur1 issued_metadata_matches n in \<open>auto simp: issued_data_def json_token_def\<close>)
  then show ?thesis by (simp add: list_of_def omit_empty_def)
qed

end
