(* ===== verification/Token_Refresh.thy ===== *)
theory Token_Refresh
  imports Token_Accept Token_Properties
begin

text \<open>
  Refreshing: a success is one rotation of the live record under the checks of the service, and a
  token without a live record is never refreshed.
\<close>

lemma GetRefreshTokenState_live:
  assumes R: "redis_server R" and "GetRefreshTokenState R h db tok = (db1, Inr (d, False))"
  shows "GET R db (secretKey h refreshPrefix tok) = Some (VToken d) \<and> db1 = snd (LINK R db)"
proof -
  have g: "getJSON R db (refreshPrefix @ h tok) decode_token = (db1, Inr d)"
    using assms(2) by (auto simp: GetRefreshTokenState_def on_result_Inr split: prod.split_asm sum.split_asm if_split_asm)
  obtain v where "GET R db (refreshPrefix @ h tok) = Some v" "decode_token v = Some d" "db1 = snd (LINK R db)"
    using redis_server.getJSON_Inr [OF R g] .
  then show ?thesis by (auto simp: secretKey_def)
qed

lemma or_revoke_Inr: "or_revoke S t c m = (w, Inr x) \<longleftrightarrow> m = (w, Inr x)"
  by (auto simp: or_revoke_def split: prod.split sum.split)

text \<open>A success reads the live record, makes the checks and rotates.\<close>

lemma RefreshTokenWithClaimPolicy_Inr:
  fixes w :: "'db world"
  assumes R: "redis_server (sv_redis S)" and r: "RefreshTokenWithClaimPolicy S w tok c allowed cm = (w', Inr p)"
  obtains d and w1 w2 w3 w4 :: "'db world" where
    "GET (sv_redis S) (w_redis w) (secretKey (sv_digest S) refreshPrefix tok) = Some (VToken d)"
    and "td_ClientID d = c" and "td_TokenUse d = ''refresh''" and "set (td_Scopes d) \<subseteq> set allowed"
    and "cm \<noteq> None \<longrightarrow> set (effectiveClaimNames (td_Scopes d) (td_AllowedClaims d) (td_ClaimNamesSet d)) \<subseteq>
           set (claimsForGrantedScopes (td_Scopes d) cm)"
    and "w_redis w1 = snd (LINK (sv_redis S) (w_redis w))" and "w_sql w1 = w_sql w"
    and "validateUser S w1 (td_UserID d) (td_AuthVersion d) = (w2, Inr ())"
    and "validateAuthorization S w2 d = (w3, Inr ())" and "validateAccessPolicy S w3 d = (w4, Inr ())"
    and "rotate_pair S w4 tok d (effectiveClaimNames (td_Scopes d) (td_AllowedClaims d) (td_ClaimNamesSet d)) = (w', Inr p)"
proof -
  obtain db d used where g: "GetRefreshTokenState (sv_redis S) (sv_digest S) (w_redis w) tok = (db, Inr (d, used))"
    using r by (auto simp: RefreshTokenWithClaimPolicy_def and_then_Inr map_error_Inr on_redis_Inr)
  let ?w1 = "w\<lparr>w_redis := db\<rparr>"
  have st: "map_error (\<lambda>_. ErrInvalidToken) (on_redis w (GetRefreshTokenState (sv_redis S) (sv_digest S) (w_redis w) tok)) =
      (?w1, Inr (d, used))" by (simp add: g)
  have u: "\<not> used" and c: "td_ClientID d = c" "td_TokenUse d = ''refresh''" and sc: "scopesAreSubset (td_Scopes d) allowed"
    using r by (auto simp: RefreshTokenWithClaimPolicy_def st Let_def or_revoke_def split_beta split: if_split_asm sum.split_asm)
  have cm: "cm \<noteq> None \<longrightarrow> scopesAreSubset (effectiveClaimNames (td_Scopes d) (td_AllowedClaims d) (td_ClaimNamesSet d))
      (claimsForGrantedScopes (td_Scopes d) cm)"
    using r c sc u by (auto simp: RefreshTokenWithClaimPolicy_def st Let_def or_revoke_def split: if_split_asm)
  have l: "GET (sv_redis S) (w_redis w) (secretKey (sv_digest S) refreshPrefix tok) = Some (VToken d)"
      "db = snd (LINK (sv_redis S) (w_redis w))"
    using GetRefreshTokenState_live [OF R, of "sv_digest S" "w_redis w" tok db d] g u by simp_all
  obtain w2 w3 w4 where v: "validateUser S ?w1 (td_UserID d) (td_AuthVersion d) = (w2, Inr ())"
      "validateAuthorization S w2 d = (w3, Inr ())" "validateAccessPolicy S w3 d = (w4, Inr ())"
      "rotate_pair S w4 tok d (effectiveClaimNames (td_Scopes d) (td_AllowedClaims d) (td_ClaimNamesSet d)) = (w', Inr p)"
    using r c sc u cm
    by (auto simp: RefreshTokenWithClaimPolicy_def st Let_def and_then_Inr or_revoke_Inr split: if_split_asm)
  show thesis
    by (rule that [OF l(1) c _ _ _ _ v]) (use sc cm l(2) in \<open>simp_all add: scopesAreSubset_iff\<close>)
qed

lemma rotate_pair_Inr:
  assumes "rotate_pair S w tok d cl = (w', Inr p)"
  obtains jti r db where "RotateRefreshTokenAndStoreAccess (sv_redis S) (sv_digest S) (w_redis w) tok (tp_RefreshToken p) jti d
           (renewed_access d cl) (tl_RefreshToken (Lifetimes (sv_tokens S))) (tl_AccessToken (Lifetimes (sv_tokens S))) = (db, Inr r)"
    and "w_redis w' = db" and "tp_Scope p = joinScopes (td_Scopes d)"
proof -
  let ?L = "Lifetimes (sv_tokens S)"
  let ?a = "\<lparr>ia_Context = td_AuthenticationContext d, ia_Methods = td_AuthenticationMethods d, ia_AuthTime = td_AuthenticationTime d\<rparr>"
  obtain w1 new where r1: "GenerateRandomString (sv_env S) w 32 = (w1, Some new)"
    using assms by (auto simp: rotate_pair_def Let_def split: prod.split_asm option.split_asm)
  obtain w2 access jti where s: "signAccessToken S w1 (td_ClientID d) (td_UserID d) (td_Scopes d) (Some cl) (td_AuthVersion d)
        (tl_AccessToken ?L) ?a = (w2, Inr (access, jti))"
    using assms by (auto simp: rotate_pair_def Let_def r1 and_then_Inr)
  have w2: "w_redis w2 = w_redis w"
    using signAccessToken_world(1) [of S w1 "td_ClientID d" "td_UserID d" "td_Scopes d" "Some cl" "td_AuthVersion d" "tl_AccessToken ?L" ?a]
      r1 by (auto simp: s GenerateRandomString_def)
  from assms show thesis
    by (auto simp: rotate_pair_def Let_def r1 s on_result_Inr map_error_Inr on_redis_Inr w2 intro: that)
qed

text \<open>A token without a live record is not refreshed.\<close>

lemma refresh_needs_record:
  assumes "redis_server (sv_redis S)" and "GET (sv_redis S) (w_redis w) (secretKey (sv_digest S) refreshPrefix tok) = None"
  shows "snd (RefreshTokenWithClaimPolicy S w tok c allowed cm) \<noteq> Inr p"
proof
  assume "snd (RefreshTokenWithClaimPolicy S w tok c allowed cm) = Inr p"
  then obtain w' where "RefreshTokenWithClaimPolicy S w tok c allowed cm = (w', Inr p)" by (metis prod.collapse)
  from RefreshTokenWithClaimPolicy_Inr [OF assms(1) this] assms(2) show False by (metis option.distinct(1))
qed

text \<open>What a success leaves: the rotated records, the access token with the same grant, and no second success.\<close>

lemma refresh_success:
  assumes R: "redis_server (sv_redis S)" and t: "typed (sv_redis S) (w_redis w)"
    and r: "RefreshTokenWithClaimPolicy S w tok c allowed cm = (w', Inr p)"
    and ne: "sv_digest S (tp_RefreshToken p) \<noteq> sv_digest S tok"
  obtains d jti where
    "GET (sv_redis S) (w_redis w) (secretKey (sv_digest S) refreshPrefix tok) = Some (VToken d)"
    and "td_ClientID d = c" and "td_TokenUse d = ''refresh''" and "set (td_Scopes d) \<subseteq> set allowed"
    and "cm \<noteq> None \<longrightarrow> set (effectiveClaimNames (td_Scopes d) (td_AllowedClaims d) (td_ClaimNamesSet d)) \<subseteq>
           set (claimsForGrantedScopes (td_Scopes d) cm)"
    and "td_AuthVersion d \<noteq> 0 \<longrightarrow> subject_current (sv_env S) (w_sql w) (td_UserID d) (td_AuthVersion d) \<and>
           grant_current (sv_env S) (w_sql w) d"
    and "GET (sv_redis S) (w_redis w') (secretKey (sv_digest S) refreshPrefix tok) = None"
    and "GET (sv_redis S) (w_redis w') (secretKey (sv_digest S) refreshPrefix (tp_RefreshToken p)) = Some (VToken d)"
    and "GET (sv_redis S) (w_redis w') (secretKey (sv_digest S) tokenPrefix jti) = Some (VToken (json_token (renewed_access d
           (effectiveClaimNames (td_Scopes d) (td_AllowedClaims d) (td_ClaimNamesSet d)))))"
    and "tp_Scope p = joinScopes (td_Scopes d)" and "typed (sv_redis S) (w_redis w')"
proof -
  obtain d w1 w2 w3 w4 where d: "GET (sv_redis S) (w_redis w) (secretKey (sv_digest S) refreshPrefix tok) = Some (VToken d)"
      "td_ClientID d = c" "td_TokenUse d = ''refresh''" "set (td_Scopes d) \<subseteq> set allowed"
      "cm \<noteq> None \<longrightarrow> set (effectiveClaimNames (td_Scopes d) (td_AllowedClaims d) (td_ClaimNamesSet d)) \<subseteq>
           set (claimsForGrantedScopes (td_Scopes d) cm)"
      and w1: "w_redis w1 = snd (LINK (sv_redis S) (w_redis w))" "w_sql w1 = w_sql w"
      and v: "validateUser S w1 (td_UserID d) (td_AuthVersion d) = (w2, Inr ())"
        "validateAuthorization S w2 d = (w3, Inr ())" "validateAccessPolicy S w3 d = (w4, Inr ())"
      and rp: "rotate_pair S w4 tok d (effectiveClaimNames (td_Scopes d) (td_AllowedClaims d) (td_ClaimNamesSet d)) = (w', Inr p)"
    using RefreshTokenWithClaimPolicy_Inr [OF R r] .
  have "reads S w1 w4"
    using check_reads(3) [of S w1 "td_UserID d" "td_AuthVersion d"] validateAuthorization_reads [of S w2 d]
      check_reads(5) [of S w3 d] v by (metis fst_conv reads_trans)
  then have "reads S w w4" using reads_trans [of S w w1 w4] by (simp add: reads_def w1 does_read)
  then have rd: "does (sv_redis S) (sv_digest S) (\<lambda>op. op = Read) (w_redis w) (w_redis w4)" by (simp add: reads_def)
  have t4: "typed (sv_redis S) (w_redis w4)" by (rule redis_server.does_typed [OF R rd t])
  obtain jti x db where rot: "RotateRefreshTokenAndStoreAccess (sv_redis S) (sv_digest S) (w_redis w4) tok (tp_RefreshToken p) jti d
       (renewed_access d (effectiveClaimNames (td_Scopes d) (td_AllowedClaims d) (td_ClaimNamesSet d)))
       (tl_RefreshToken (Lifetimes (sv_tokens S))) (tl_AccessToken (Lifetimes (sv_tokens S))) = (db, Inr x)"
      and db: "w_redis w' = db" and sc: "tp_Scope p = joinScopes (td_Scopes d)"
    using rotate_pair_Inr [OF rp] .
  note e = redis_server.rotation_success [OF R t4 ne rot]
  have "GET (sv_redis S) (w_redis w) (secretKey (sv_digest S) refreshPrefix tok) = Some (VToken (json_token d))"
    using redis_server.reads_GET_Some [OF R rd] redis_server.LINK_GET_Some [OF R e(2)] by blast
  then have jd: "json_token d = d" using d(1) by simp
  have "typed (sv_redis S) db"
    using redis_server.evolves_refresh(6) [OF R, of "w_redis w4" "sv_digest S" tok "tp_RefreshToken p" jti d] rot t4
    by (metis evolves_def fst_conv)
  moreover have "(renewed_access d cl)\<lparr>td_TokenUse := ''access'', td_FamilyKey := td_FamilyKey d\<rparr> = renewed_access d cl" for cl
    by (simp add: renewed_access_def)
  ultimately show thesis
    using that [OF d _ _ _ _ sc, of jti] e(4,6,7) checked_grant [OF R v] by (simp add: w1 db jd)
qed

end
