(* ===== verification/Id_Tokens.thy ===== *)
theory Id_Tokens
  imports Token_Accept
begin

text \<open>
  The object of an ID token: the registered claims, the claims on the authentication, and the
  user's information limited to the allowed claims. The user's information is added last, so that
  its keys must not be registered ones.
\<close>

lemma map_of_claimLimitedUserInfo:
  "map_of (claimLimitedUserInfo allowed info) k = (if k \<in> set allowed - {''sub''} then map_of info k else None)"
proof -
  let ?f = "\<lambda>key m. if key = ''sub'' then m
      else case map_of info key of None \<Rightarrow> m | Some v \<Rightarrow> AList.update key v m"
  have "map_of (fold ?f keys m) k =
      (if k \<in> set keys - {''sub''} \<and> map_of info k \<noteq> None then map_of info k else map_of m k)" for keys m
    by (induction keys arbitrary: m) (auto simp: update_conv' split: option.split)
  from this [of allowed "[]"] show ?thesis by (simp add: claimLimitedUserInfo_def)
qed

lemma distinct_claimLimitedUserInfo: "distinct (map fst (claimLimitedUserInfo allowed info))"
proof -
  let ?f = "\<lambda>key m. if key = ''sub'' then m
      else case map_of info key of None \<Rightarrow> m | Some v \<Rightarrow> AList.update key v m"
  have "distinct (map fst m) \<Longrightarrow> distinct (map fst (fold ?f keys m))" for keys m
    by (induction keys arbitrary: m) (auto simp: distinct_update split: option.split)
  from this [of "[]" allowed] show ?thesis by (simp add: claimLimitedUserInfo_def)
qed

lemma map_of_add_claims:
  "distinct (map fst info) \<Longrightarrow> map_of (add_claims info m) k = (case map_of info k of None \<Rightarrow> map_of m k | Some v \<Rightarrow> Some v)"
  by (induction info arbitrary: m)
     (auto simp: add_claims_def update_conv' rev_image_eqI split: option.split dest!: map_of_SomeD)

definition user_claim_names :: "string list" where
  "user_claim_names = [''preferred_username'', ''name'', ''picture'', ''email'', ''email_verified'', ''role'']"

lemma keys_userClaimsForAllowed: "fst ` set (userClaimsForAllowed issuer u allowed) \<subseteq> set user_claim_names"
  by (auto simp: userClaimsForAllowed_def user_claim_names_def split: option.splits if_splits)

definition registered :: "string list" where
  "registered = [''iss'', ''sub'', ''aud'', ''exp'', ''iat'', ''nbf'', ''jti'', ''token_use'', ''auth_version'', ''nonce'',
     ''acr'', ''auth_time'', ''amr'']"

lemma registered_disjoint: "set registered \<inter> set user_claim_names = {}"
  by (simp add: registered_def user_claim_names_def)

lemma map_of_id_claims:
  "map_of (id_claims ts now jti c u ttl v n) ''iss'' = Some (CText (ts_issuer ts))"
  "map_of (id_claims ts now jti c u ttl v n) ''sub'' = Some (CText u)"
  "map_of (id_claims ts now jti c u ttl v n) ''aud'' = Some (CText c)"
  "map_of (id_claims ts now jti c u ttl v n) ''exp'' = Some (CInt (Unix (now + ttl)))"
  "map_of (id_claims ts now jti c u ttl v n) ''token_use'' = Some (CText ''id'')"
  "map_of (id_claims ts now jti c u ttl v n) ''auth_version'' = Some (CInt v)"
  "map_of (id_claims ts now jti c u ttl v n) ''nonce'' = (if n = [] then None else Some (CText n))"
  "k \<notin> set registered \<Longrightarrow> map_of (id_claims ts now jti c u ttl v n) k = None"
  by (simp_all add: id_claims_def field_def registered_def)

text \<open>The claims on the authentication touch \<open>acr\<close>, \<open>amr\<close> and \<open>auth_time\<close> only.\<close>

lemma map_of_applyAuthenticationMapClaims:
  "k \<notin> {''acr'', ''auth_time'', ''amr''} \<Longrightarrow> map_of (snd (applyAuthenticationMapClaims E w m a)) k = map_of m k"
  by (auto simp: applyAuthenticationMapClaims_def update_conv' Let_def split: prod.split)

lemma subject_version_Inr:
  "subject_version S w u = (w', Inr v) \<Longrightarrow> v = 0 \<or> subject_current (sv_env S) (w_sql w) u v"
  by (auto simp: subject_version_def subject_current_def on_result_Inr map_error_Inr
      split: option.split_asm if_split_asm dest!: user_GetByID_Inr)

lemma GenerateIDToken_Inr:
  fixes w :: "'db world"
  assumes g: "GenerateIDToken S w c u allowed nonce info a = (w', Inr tok)" and info: "fst ` set info \<subseteq> set user_claim_names"
  obtains priv kid m now v where "jwt_sign (sv_jwt S) priv kid m = Some tok"
    and "v = 0 \<or> subject_current (sv_env S) (w_sql w) u v"
    and "map_of m ''iss'' = Some (CText (ts_issuer (sv_tokens S)))" and "map_of m ''sub'' = Some (CText u)"
    and "map_of m ''aud'' = Some (CText c)" and "map_of m ''token_use'' = Some (CText ''id'')"
    and "map_of m ''exp'' = Some (CInt (Unix (now + tl_AccessToken (Lifetimes (sv_tokens S)))))"
    and "map_of m ''auth_version'' = Some (CInt v)" and "map_of m ''nonce'' = (if nonce = [] then None else Some (CText nonce))"
    and "\<And>k. k \<notin> set registered \<Longrightarrow> map_of m k = (if k \<in> set allowed then map_of info k else None)"
proof -
  let ?ttl = "tl_AccessToken (Lifetimes (sv_tokens S))"
  obtain w1 v w2 priv kid where v: "subject_version S w u = (w1, Inr v)" and
      r: "(let (w3, now) = Now (sv_env S) w2; (w4, jti) = NewUUID (sv_env S) w3;
            (w5, m) = applyAuthenticationMapClaims (sv_env S) w4 (id_claims (sv_tokens S) now jti c u ?ttl v nonce) a
           in (w5, case jwt_sign (sv_jwt S) priv kid (add_claims (claimLimitedUserInfo allowed info) m) of
                 None \<Rightarrow> Inl TokenSigning | Some signed \<Rightarrow> Inr signed)) = (w', Inr tok)"
    using g unfolding GenerateIDToken_def by (auto simp: and_then_Inr map_error_Inr)
  define now where "now = e_now (sv_env S) (w_tick w2)"
  define jti where "jti = e_uuid (sv_env S) (w_tick (tick w2))"
  define m where "m = snd (applyAuthenticationMapClaims (sv_env S) (tick (tick w2)) (id_claims (sv_tokens S) now jti c u ?ttl v nonce) a)"
  let ?m = "add_claims (claimLimitedUserInfo allowed info) m"
  have s: "jwt_sign (sv_jwt S) priv kid ?m = Some tok"
    using r by (simp add: Now_def NewUUID_def Let_def now_def [symmetric] jti_def [symmetric] m_def split_beta split: option.split_asm)
  have dom: "map_of info k = None" if "k \<in> set registered" for k
    using that info registered_disjoint by (metis IntI empty_iff image_eqI map_of_SomeD not_Some_eq prod.sel(1) subsetD)
  have look: "map_of ?m k = (case (if k \<in> set allowed - {''sub''} then map_of info k else None) of
      None \<Rightarrow> map_of m k | Some x \<Rightarrow> Some x)" for k
    by (simp only: map_of_add_claims [OF distinct_claimLimitedUserInfo] map_of_claimLimitedUserInfo)
  have reg: "map_of ?m k = map_of m k" if "k \<in> set registered" for k using look [of k] dom [OF that] by simp
  have idm: "map_of m k = map_of (id_claims (sv_tokens S) now jti c u ?ttl v nonce) k" if "k \<notin> {''acr'', ''auth_time'', ''amr''}" for k
    unfolding m_def by (rule map_of_applyAuthenticationMapClaims [OF that])
  have inreg: "{''iss'', ''sub'', ''aud'', ''exp'', ''token_use'', ''auth_version'', ''nonce'', ''acr'', ''auth_time'', ''amr''} \<subseteq> set registered"
    by (simp add: registered_def)
  have other: "map_of ?m k = (if k \<in> set allowed then map_of info k else None)" if "k \<notin> set registered" for k
  proof -
    have "map_of m k = None" using idm [of k] map_of_id_claims(8) [OF that] that inreg by auto
    moreover have "k \<noteq> ''sub''" using that inreg by auto
    ultimately show ?thesis using look [of k] by (simp split: option.split)
  qed
  show thesis
    by (rule that [OF s subject_version_Inr [OF v], of now]) (use inreg other in \<open>simp_all add: reg idm map_of_id_claims\<close>)
qed

end
