(* ===== verification/Sample_Service.thy ===== *)
theory Sample_Service
  imports Token_Accept Sample_World
begin

text \<open>
  A token service to run: the in-memory server, sample keys and tokens, and a user with an open
  client. The clock stands still.
\<close>

definition sample_jwt :: jwt where
  "sample_jwt = \<lparr>
     jwt_sign = \<lambda>priv kid m. Some (sample_token kid (''P'' @ priv) m),
     jwt_header = \<lambda>tok. map_option (\<lambda>(kid, _, _). (''RS256'', Some kid)) (parse_sample tok),
     jwt_parse = \<lambda>pub issuer leeway now tok.
       (case parse_sample tok of
          None \<Rightarrow> None
        | Some (kid, signer, m) \<Rightarrow>
            if signer = pub \<and> text_field m ''iss'' = Some issuer \<and> times_hold m leeway now then Some m else None)\<rparr>"

lemma sample_jwt_laws: "jwt_laws sample_rsa sample_jwt"
  by (auto simp: jwt_laws_def sample_jwt_def sample_rsa_def parse_sample_token)

definition sample_service :: token_service where
  "sample_service = (NewTokenService ''https://id'' Minute Hour)\<lparr>ts_users := True, ts_accessPolicy := True,
     ts_authorizationUsage := True\<rparr>"

definition still :: env where
  "still = calm\<lparr>e_now := \<lambda>_. unix_epoch + 50 * Second\<rparr>"

definition sample_services :: "mem_db services" where
  "sample_services = \<lparr>sv_redis = mem_redis, sv_digest = plain, sv_sha256 = plain, sv_gcm = sample_gcm, sv_rsa = sample_rsa,
     sv_jwt = sample_jwt, sv_env = still, sv_keys = sample_manager, sv_tokens = sample_service\<rparr>"

definition service_key :: jwk where
  "service_key = \<lparr>jk_Kid = ''k'', jk_KeyType = ''RSA'', jk_Usage = ''sig'', jk_Algorithm = ''RS256'',
     jk_EncryptedPrivateKey = Some ''v1:primary:BwcHBwcHBwcHBwcHa2trdHR0dHR0dHR0dHR0dHR0dA'', jk_PublicKey = ''Pkkk'',
     jk_Status = JWKStatusSigning, jk_SigningStartedAt = 1, jk_VerifyUntil = 2, jk_CreatedAt = 1, jk_UpdatedAt = 1\<rparr>"

definition service_world :: "mem_db world" where
  "service_world = \<lparr>w_redis = mem_empty, w_sql = sample_tables\<lparr>t_jwk := [(''k'', service_key)]\<rparr>, w_tick = 0\<rparr>"

definition issued_pair :: "mem_db world \<times> (token_error + token_pair)" where
  "issued_pair = GenerateAuthorizationCodeTokenPair sample_services service_world ''c'' ''u'' [''openid''] (Some [''sub'']) 1 7 0
     \<lparr>ia_Context = ACRLevel1, ia_Methods = [''pwd''], ia_AuthTime = 5\<rparr> True"

lemma sample_services_simps [simp]:
  "sv_redis sample_services = mem_redis" "sv_digest sample_services = plain" "sv_env sample_services = still"
  "sv_tokens sample_services = sample_service" "sv_jwt sample_services = sample_jwt" "sv_rsa sample_services = sample_rsa"
  by (simp_all add: sample_services_def)

lemma still_served [simp]: "e_sql still i = Sql_served"
  by (simp add: still_def calm_def)

lemma service_world_empty: "w_redis service_world = mem_empty"
  by (simp add: service_world_def)

lemma issued_pair_Inr: "issued_pair = (fst issued_pair, Inr (projr (snd issued_pair)))"
  by (rule Inr_pair) code_simp

lemma issued_typed: "typed mem_redis (w_redis (fst issued_pair))"
proof -
  have "issues_within Hour (sv_tokens sample_services)" by code_simp
  from token_requests_serve(1) [OF this, of service_world]
  have "serves sample_services (token_step Hour) service_world (fst issued_pair)" by (simp add: issued_pair_def)
  from serves_typed [OF _ this] show ?thesis
    by (simp add: mem_server service_world_empty typed_mem_empty)
qed

lemma sample_service_facts:
  "issues_within Hour sample_service" "ts_users sample_service" "ts_accessPolicy sample_service"
  "keys_ok (t_jwk (w_sql service_world))" "signing_key_published sample_services service_world"
  "Second \<le> tl_AccessToken (Lifetimes sample_service)" "subject_current still (w_sql service_world) ''u'' 1"
  "admitted still (w_sql service_world) ''c'' ''u''" "joinScopes [''openid''] = ''openid''" "0 \<le> jwtClockSkew"
  by code_simp+

lemma sample_authentication: "consistent_authentication \<lparr>ia_Context = ACRLevel1, ia_Methods = [''pwd''], ia_AuthTime = 5\<rparr>"
  by (simp add: consistent_authentication_def)

lemma issued_undisturbed: "undisturbed sample_services (fst issued_pair)"
  unfolding undisturbed_def by code_simp

end
