(* ===== verification/Service_Properties.thy ===== *)
theory Service_Properties
  imports Token_Refresh Id_Tokens Sample_Service
begin

text \<open>
  Properties of the token service: what acceptance of an access token means, how it composes with
  revocation, and what issuing and refreshing give.
\<close>

section \<open>Validation\<close>






section \<open>Issuance\<close>



text \<open>
  C33. Refreshing keeps the grant. A success is for the client of the live record, whose scopes the
  client still has and whose claims its policy still discloses, for an active user and a grant that
  stands; the new refresh token carries the same record, the new access token the same scopes and
  claims; and the old token is not refreshed again, along any sequence of operations that does not
  store a record under it.
\<close>

theorem refresh_keeps_grant:
  assumes "redis_server (sv_redis S)" and "typed (sv_redis S) (w_redis w)"
    and "RefreshTokenWithClaimPolicy S w tok c allowed cm = (w1, Inr p)"
    and "sv_digest S (tp_RefreshToken p) \<noteq> sv_digest S tok"
    and "\<And>t. Token_op t \<in> set ops \<Longrightarrow> \<not> stores_key (sv_digest S) (secretKey (sv_digest S) refreshPrefix tok) t"
    and "w_redis w2 = run (sv_redis S) (sv_digest S) ops (w_redis w1)"
  shows "\<exists>d jti. GET (sv_redis S) (w_redis w) (secretKey (sv_digest S) refreshPrefix tok) = Some (VToken d) \<and>
    td_ClientID d = c \<and> set (td_Scopes d) \<subseteq> set allowed \<and>
    (cm \<noteq> None \<longrightarrow> set (effectiveClaimNames (td_Scopes d) (td_AllowedClaims d) (td_ClaimNamesSet d)) \<subseteq>
       set (claimsForGrantedScopes (td_Scopes d) cm)) \<and>
    (td_AuthVersion d \<noteq> 0 \<longrightarrow> subject_current (sv_env S) (w_sql w) (td_UserID d) (td_AuthVersion d) \<and>
       grant_current (sv_env S) (w_sql w) d) \<and>
    GET (sv_redis S) (w_redis w1) (secretKey (sv_digest S) refreshPrefix (tp_RefreshToken p)) = Some (VToken d) \<and>
    GET (sv_redis S) (w_redis w1) (secretKey (sv_digest S) tokenPrefix jti) = Some (VToken (json_token (renewed_access d
      (effectiveClaimNames (td_Scopes d) (td_AllowedClaims d) (td_ClaimNamesSet d))))) \<and>
    tp_Scope p = joinScopes (td_Scopes d) \<and>
    snd (RefreshTokenWithClaimPolicy S w2 tok c' allowed' cm') \<noteq> Inr p'"
proof -
  let ?k = "secretKey (sv_digest S) refreshPrefix tok"
  obtain d jti where d: "GET (sv_redis S) (w_redis w) ?k = Some (VToken d)" "td_ClientID d = c" "set (td_Scopes d) \<subseteq> set allowed"
      "cm \<noteq> None \<longrightarrow> set (effectiveClaimNames (td_Scopes d) (td_AllowedClaims d) (td_ClaimNamesSet d)) \<subseteq>
         set (claimsForGrantedScopes (td_Scopes d) cm)"
      "td_AuthVersion d \<noteq> 0 \<longrightarrow> subject_current (sv_env S) (w_sql w) (td_UserID d) (td_AuthVersion d) \<and>
         grant_current (sv_env S) (w_sql w) d"
      "GET (sv_redis S) (w_redis w1) (secretKey (sv_digest S) refreshPrefix (tp_RefreshToken p)) = Some (VToken d)"
      "GET (sv_redis S) (w_redis w1) (secretKey (sv_digest S) tokenPrefix jti) = Some (VToken (json_token (renewed_access d
         (effectiveClaimNames (td_Scopes d) (td_AllowedClaims d) (td_ClaimNamesSet d)))))"
      "tp_Scope p = joinScopes (td_Scopes d)"
      and gone: "GET (sv_redis S) (w_redis w1) ?k = None" and t1: "typed (sv_redis S) (w_redis w1)"
    using refresh_success [OF assms(1-4)] by metis
  have "GET (sv_redis S) (w_redis w2) ?k = None"
    unfolding assms(6) by (rule redis_server.run_token_absent [OF assms(1) t1 gone _ assms(5)]) (simp_all add: key_simps)
  from d refresh_needs_record [OF assms(1) this] show ?thesis by blast
qed




definition refreshed_pair :: "mem_db world \<times> (token_error + token_pair)" where
  "refreshed_pair = RefreshTokenWithClaimPolicy (sample_services\<lparr>sv_env := still\<lparr>e_rand := \<lambda>_ n. Some (replicate n 9)\<rparr>\<rparr>)
     (fst issued_pair) (tp_RefreshToken (projr (snd issued_pair))) ''c'' [''openid''] None"

theorem refresh_keeps_grant_witness:
  "\<forall>p. snd (RefreshTokenWithClaimPolicy (sample_services\<lparr>sv_env := still\<lparr>e_rand := \<lambda>_ n. Some (replicate n 9)\<rparr>\<rparr>)
     (fst refreshed_pair) (tp_RefreshToken (projr (snd issued_pair))) ''c'' [''openid''] None) \<noteq> Inr p"
proof -
  let ?S = "sample_services\<lparr>sv_env := still\<lparr>e_rand := \<lambda>_ n. Some (replicate n 9)\<rparr>\<rparr>"
  have r: "refreshed_pair = (fst refreshed_pair, Inr (projr (snd refreshed_pair)))" by (rule Inr_pair) code_simp
  have n: "tp_RefreshToken (projr (snd refreshed_pair)) \<noteq> tp_RefreshToken (projr (snd issued_pair))" by code_simp
  have R: "redis_server (sv_redis ?S)" and T: "typed (sv_redis ?S) (w_redis (fst issued_pair))"
    by (simp_all add: mem_server issued_typed)
  have D: "sv_digest ?S (tp_RefreshToken (projr (snd refreshed_pair))) \<noteq> sv_digest ?S (tp_RefreshToken (projr (snd issued_pair)))"
    using n by (simp add: plain_def)
  have W: "w_redis (fst refreshed_pair) = run (sv_redis ?S) (sv_digest ?S) [] (w_redis (fst refreshed_pair))" by simp
  have G: "RefreshTokenWithClaimPolicy ?S (fst issued_pair) (tp_RefreshToken (projr (snd issued_pair))) ''c'' [''openid''] None =
      (fst refreshed_pair, Inr (projr (snd refreshed_pair)))"
    unfolding refreshed_pair_def [symmetric] by (rule r)
  have O: "\<And>t. Token_op t \<in> set [] \<Longrightarrow> \<not> stores_key (sv_digest ?S) (secretKey (sv_digest ?S) refreshPrefix
      (tp_RefreshToken (projr (snd issued_pair)))) t" by simp
  show ?thesis using refresh_keeps_grant [OF R T G D O W] by blast
qed

end
