(* ===== verification/Url_Query.thy ===== *)
theory Url_Query
  imports Nyauth_Prelude "HOL-Library.AList"
begin

text \<open>
  URLs as the OAuth endpoints use them: the part of Go's \<open>net/url\<close> on query strings
  (\<open>QueryEscape\<close>, \<open>QueryUnescape\<close>, \<open>ParseQuery\<close>, \<open>Values\<close>), and
  \<open>addQuery\<close> of \<open>internal/auth/handler.go\<close>, by which every redirect to a client is built.
  \<open>url.Parse\<close> is a parameter; a parsed URL keeps its scheme and authority, its path, its query
  and its fragment as \<open>String\<close> prints them.
\<close>

section \<open>Escaping\<close>

definition shouldEscape :: "char \<Rightarrow> bool" where
  "shouldEscape c \<longleftrightarrow>
     \<not> (0x61 \<le> byte c \<and> byte c \<le> 0x7a \<or> 0x41 \<le> byte c \<and> byte c \<le> 0x5a \<or> 0x30 \<le> byte c \<and> byte c \<le> 0x39 \<or>
        c \<in> set ''-_.~'')"

definition upperhex :: "nat \<Rightarrow> char" where
  "upperhex n = char_of (if n < 10 then 0x30 + n else 0x37 + n)"

definition unhex :: "char \<Rightarrow> nat option" where
  "unhex c =
     (if 0x30 \<le> byte c \<and> byte c \<le> 0x39 then Some (byte c - 0x30)
      else if 0x61 \<le> byte c \<and> byte c \<le> 0x66 then Some (byte c - 0x57)
      else if 0x41 \<le> byte c \<and> byte c \<le> 0x46 then Some (byte c - 0x37)
      else None)"

definition escape_char :: "char \<Rightarrow> string" where
  "escape_char c =
     (if c = CHR '' '' then ''+''
      else if shouldEscape c then [CHR ''%'', upperhex (byte c div 16), upperhex (byte c mod 16)]
      else [c])"

definition QueryEscape :: "string \<Rightarrow> string" where
  "QueryEscape s = concat (map escape_char s)"

fun QueryUnescape :: "string \<Rightarrow> string option" where
  "QueryUnescape [] = Some []"
| "QueryUnescape (c # s) =
     (if c = CHR ''%'' then
        (case s of
           a # b # r \<Rightarrow>
             (case (unhex a, unhex b) of
                (Some x, Some y) \<Rightarrow> map_option ((#) (char_of (16 * x + y))) (QueryUnescape r)
              | _ \<Rightarrow> None)
         | _ \<Rightarrow> None)
      else map_option ((#) (if c = CHR ''+'' then CHR '' '' else c)) (QueryUnescape s))"

section \<open>Query strings\<close>

type_synonym url_values = "(string \<times> string list) list"

fun split_on :: "char \<Rightarrow> string \<Rightarrow> string list" where
  "split_on sep [] = [[]]"
| "split_on sep (c # s) =
     (if c = sep then [] # split_on sep s
      else case split_on sep s of [] \<Rightarrow> [[c]] | p # ps \<Rightarrow> (c # p) # ps)"

definition cut_before :: "char \<Rightarrow> string \<Rightarrow> string" where
  "cut_before sep s = takeWhile (\<lambda>c. c \<noteq> sep) s"

definition cut_after :: "char \<Rightarrow> string \<Rightarrow> string" where
  "cut_after sep s = drop 1 (dropWhile (\<lambda>c. c \<noteq> sep) s)"

definition Get :: "url_values \<Rightarrow> string \<Rightarrow> string" where
  "Get vs key = (case map_of vs key of Some (v # _) \<Rightarrow> v | _ \<Rightarrow> [])"

definition Set :: "url_values \<Rightarrow> string \<Rightarrow> string \<Rightarrow> url_values" where
  "Set vs key value = AList.update key [value] vs"

definition Del :: "url_values \<Rightarrow> string \<Rightarrow> url_values" where
  "Del vs key = AList.delete key vs"

definition append_value :: "url_values \<Rightarrow> string \<Rightarrow> string \<Rightarrow> url_values" where
  "append_value vs key value =
     AList.update key ((case map_of vs key of None \<Rightarrow> [] | Some xs \<Rightarrow> xs) @ [value]) vs"

text \<open>\<open>URL.Query\<close> ignores the error of \<open>ParseQuery\<close>: malformed settings are dropped.\<close>

definition parse_setting :: "string \<Rightarrow> url_values \<Rightarrow> url_values" where
  "parse_setting piece vs =
     (if CHR '';'' \<in> set piece \<or> piece = [] then vs
      else case (QueryUnescape (cut_before CHR ''='' piece), QueryUnescape (cut_after CHR ''='' piece)) of
             (Some key, Some value) \<Rightarrow> append_value vs key value
           | _ \<Rightarrow> vs)"

definition ParseQuery :: "string \<Rightarrow> url_values" where
  "ParseQuery query = fold parse_setting (split_on CHR ''&'' query) []"

definition settings :: "url_values \<Rightarrow> (string \<times> string) list" where
  "settings vs = concat (map (\<lambda>(k, xs). map (Pair k) xs) (sort_key fst vs))"

definition Encode :: "url_values \<Rightarrow> string" where
  "Encode vs = Join (map (\<lambda>(k, v). QueryEscape k @ ''='' @ QueryEscape v) (settings vs)) ''&''"

section \<open>URLs\<close>

record url =
  u_Origin :: string
  u_Path :: string
  u_ForceQuery :: bool
  u_RawQuery :: string
  u_Fragment :: string

definition query_part :: "url \<Rightarrow> string" where
  "query_part u = (if u_ForceQuery u \<or> u_RawQuery u \<noteq> [] then ''?'' @ u_RawQuery u else [])"

definition url_String :: "url \<Rightarrow> string" where
  "url_String u = u_Origin u @ u_Path u @ query_part u @ (if u_Fragment u = [] then [] else ''#'' @ u_Fragment u)"

definition RequestURI :: "url \<Rightarrow> string" where
  "RequestURI u = (if u_Path u = [] then ''/'' else u_Path u) @ query_part u"

definition url_Query :: "url \<Rightarrow> url_values" where
  "url_Query u = ParseQuery (u_RawQuery u)"

text \<open>\<open>addQuery\<close>: the settings with a value are written over those of the registered URI.\<close>

definition set_values :: "(string \<times> string) list \<Rightarrow> url_values \<Rightarrow> url_values" where
  "set_values values vs = fold (\<lambda>(k, v) q. if v \<noteq> [] then Set q k v else q) values vs"

definition addQuery :: "(string \<Rightarrow> url option) \<Rightarrow> string \<Rightarrow> (string \<times> string) list \<Rightarrow> string option" where
  "addQuery parse raw values =
     map_option (\<lambda>target. url_String (target\<lparr>u_RawQuery := Encode (set_values values (url_Query target))\<rparr>)) (parse raw)"

section \<open>Escaping is undone by unescaping\<close>

lemma byte_char_of: "n < 256 \<Longrightarrow> byte (char_of n) = n"
  by (simp add: byte_def)

lemma char_of_byte [simp]: "char_of (byte c) = c"
  by (simp add: byte_def)

lemma unhex_upperhex: "n < 16 \<Longrightarrow> unhex (upperhex n) = Some n"
  by (auto simp: unhex_def upperhex_def byte_char_of)

lemma QueryUnescape_escape: "QueryUnescape (escape_char c @ s) = map_option ((#) c) (QueryUnescape s)"
proof -
  have "16 * (byte c div 16) + byte c mod 16 = byte c" by simp
  moreover have "byte c div 16 < 16" using byte_less [of c] by simp
  moreover have "c \<noteq> CHR ''%''" "c \<noteq> CHR ''+''" if "\<not> shouldEscape c"
    using that by (auto simp: shouldEscape_def byte_def)
  ultimately show ?thesis by (auto simp: escape_char_def unhex_upperhex)
qed

lemma QueryUnescape_QueryEscape [simp]: "QueryUnescape (QueryEscape s) = Some s"
  by (induction s) (simp_all add: QueryEscape_def QueryUnescape_escape)

lemma upperhex_not_special: "n < 16 \<Longrightarrow> upperhex n \<notin> {CHR ''&'', CHR ''='', CHR '';''}"
  by (auto simp: upperhex_def dest!: arg_cong [where f = byte] split: if_splits) (auto simp: byte_def)

lemma escape_char_plain: "set (escape_char c) \<inter> {CHR ''&'', CHR ''='', CHR '';''} = {}"
proof -
  have "byte c div 16 < 16" using byte_less [of c] by simp
  with upperhex_not_special [of "byte c div 16"] upperhex_not_special [of "byte c mod 16"]
  show ?thesis by (auto simp: escape_char_def shouldEscape_def byte_def)
qed

lemma QueryEscape_plain: "set (QueryEscape s) \<inter> {CHR ''&'', CHR ''='', CHR '';''} = {}"
  using escape_char_plain by (auto simp: QueryEscape_def)


section \<open>Parsing what was encoded\<close>

lemma split_on_plain: "c \<notin> set p \<Longrightarrow> split_on c p = [p]"
  by (induction p) auto

lemma split_on_append: "c \<notin> set p \<Longrightarrow> split_on c (p @ c # s) = p # split_on c s"
  by (induction p) auto

lemma split_on_Join:
  "\<forall>p \<in> set ps. c \<notin> set p \<Longrightarrow> split_on c (Join ps [c]) = (if ps = [] then [[]] else ps)"
proof (induction ps)
  case (Cons p ps)
  then show ?case by (cases ps) (simp_all add: split_on_plain split_on_append)
qed simp

lemma parse_setting_escaped:
  "parse_setting (QueryEscape k @ CHR ''='' # QueryEscape v) vs = append_value vs k v"
proof -
  have k: "CHR ''='' \<notin> set (QueryEscape k)" "CHR '';'' \<notin> set (QueryEscape k)" "CHR '';'' \<notin> set (QueryEscape v)"
    using QueryEscape_plain [of k] QueryEscape_plain [of v] by auto
  then have "c \<noteq> CHR ''=''" if "c \<in> set (QueryEscape k)" for c using that by auto
  then have "cut_before CHR ''='' (QueryEscape k @ CHR ''='' # QueryEscape v) = QueryEscape k"
    "cut_after CHR ''='' (QueryEscape k @ CHR ''='' # QueryEscape v) = QueryEscape v"
    by (simp_all add: cut_before_def cut_after_def dropWhile_append2)
  then show ?thesis using k by (simp add: parse_setting_def)
qed

lemma parse_settings_escaped:
  "fold parse_setting (map (\<lambda>(k, v). QueryEscape k @ ''='' @ QueryEscape v) kvs) vs =
     fold (\<lambda>(k, v) q. append_value q k v) kvs vs"
  by (induction kvs arbitrary: vs) (auto simp: parse_setting_escaped)

lemma ParseQuery_Encode_fold:
  "ParseQuery (Encode vs) = fold (\<lambda>(k, v) q. append_value q k v) (settings vs) []"
proof -
  let ?p = "\<lambda>(k, v). QueryEscape k @ ''='' @ QueryEscape v"
  have "\<forall>p \<in> set (map ?p (settings vs)). CHR ''&'' \<notin> set p" using QueryEscape_plain by fastforce
  then have "ParseQuery (Encode vs) = fold parse_setting (map ?p (settings vs)) []"
    unfolding ParseQuery_def Encode_def by (subst split_on_Join) (auto simp: parse_setting_def)
  then show ?thesis by (simp only: parse_settings_escaped)
qed

definition values_of :: "(string \<times> string) list \<Rightarrow> string \<Rightarrow> string list" where
  "values_of kvs k = map snd (filter (\<lambda>p. fst p = k) kvs)"

lemma map_of_append_values:
  "map_of (fold (\<lambda>(k, v) q. append_value q k v) kvs q) k =
     (if values_of kvs k = [] then map_of q k
      else Some ((case map_of q k of None \<Rightarrow> [] | Some xs \<Rightarrow> xs) @ values_of kvs k))"
  by (induction kvs arbitrary: q)
     (auto simp: values_of_def append_value_def update_conv split: option.split)

lemma values_of_concat:
  "distinct (map fst vs) \<Longrightarrow>
     values_of (concat (map (\<lambda>(k, xs). map (Pair k) xs) vs)) k = (case map_of vs k of None \<Rightarrow> [] | Some xs \<Rightarrow> xs)"
proof (induction vs)
  case (Cons p vs)
  obtain k' xs where p: "p = (k', xs)" by (cases p)
  have "map snd (filter (\<lambda>q. fst q = k) (map (Pair k') xs)) = (if k' = k then xs else [])"
    by (induction xs) auto
  moreover have "map_of vs k' = None" using Cons.prems by (auto simp: p map_of_eq_None_iff)
  ultimately show ?case using Cons by (auto simp: p values_of_def)
qed (simp add: values_of_def)

lemma map_of_sort_key: "distinct (map fst vs) \<Longrightarrow> map_of (sort_key fst vs) = map_of vs"
  by (rule map_of_inject_set [THEN iffD2]) (simp_all add: distinct_map inj_on_def)

text \<open>A query without repeated keys or keys without values comes back as it was.\<close>

lemma ParseQuery_Encode:
  assumes "distinct (map fst vs)" and "\<forall>p \<in> set vs. snd p \<noteq> []"
  shows "map_of (ParseQuery (Encode vs)) k = map_of vs k"
proof -
  have "distinct (map fst (sort_key fst vs))" using assms(1) by (simp add: distinct_map inj_on_def)
  then have v: "values_of (settings vs) k = (case map_of vs k of None \<Rightarrow> [] | Some xs \<Rightarrow> xs)"
    by (simp add: settings_def values_of_concat map_of_sort_key [OF assms(1)])
  have "xs \<noteq> []" if "map_of vs k = Some xs" for xs using map_of_SomeD [OF that] assms(2) by auto
  then show ?thesis
    by (auto simp: ParseQuery_Encode_fold map_of_append_values v split: option.split)
qed

text \<open>Parsed queries are of this kind, and \<open>Set\<close> keeps them so.\<close>

definition proper_values :: "url_values \<Rightarrow> bool" where
  "proper_values vs \<longleftrightarrow> distinct (map fst vs) \<and> (\<forall>p \<in> set vs. snd p \<noteq> [])"

lemma proper_update: "proper_values vs \<Longrightarrow> xs \<noteq> [] \<Longrightarrow> proper_values (AList.update k xs vs)"
proof -
  assume a: "proper_values vs" "xs \<noteq> []"
  then have d: "distinct (map fst (AList.update k xs vs))" by (simp add: proper_values_def distinct_update)
  have "snd p \<noteq> []" if "p \<in> set (AList.update k xs vs)" for p
  proof -
    have "map_of (AList.update k xs vs) (fst p) = Some (snd p)" using d that by (simp add: map_of_eq_Some_iff)
    then show ?thesis using a by (auto simp: proper_values_def update_conv split: if_splits dest: map_of_SomeD)
  qed
  with d show ?thesis by (simp add: proper_values_def)
qed

lemma proper_ParseQuery: "proper_values (ParseQuery q)"
proof -
  have "proper_values (fold parse_setting ps vs)" if "proper_values vs" for ps vs
    using that
    by (induction ps arbitrary: vs)
       (auto simp: parse_setting_def append_value_def intro!: proper_update split: option.split)
  from this [of "[]"] show ?thesis by (simp add: ParseQuery_def proper_values_def)
qed

lemma proper_set_values: "proper_values vs \<Longrightarrow> proper_values (set_values kvs vs)"
  unfolding set_values_def by (induction kvs arbitrary: vs) (simp_all add: Set_def proper_update split_beta)

lemma Get_ParseQuery_Encode: "proper_values vs \<Longrightarrow> Get (ParseQuery (Encode vs)) k = Get vs k"
  by (simp add: Get_def ParseQuery_Encode proper_values_def)

lemma map_of_set_values_other: "k \<notin> fst ` set kvs \<Longrightarrow> map_of (set_values kvs vs) k = map_of vs k"
  unfolding set_values_def by (induction kvs arbitrary: vs) (auto simp: Set_def update_conv)

lemma Get_set_values:
  assumes "distinct (map fst kvs)" and "(k, v) \<in> set kvs"
  shows "Get (set_values kvs vs) k = (if v = [] then Get vs k else v)"
  using assms
proof (induction kvs arbitrary: vs)
  case (Cons p kvs)
  show ?case
  proof (cases "p = (k, v)")
    case True
    then have "k \<notin> fst ` set kvs" using Cons.prems(1) by auto
    then have "Get (set_values kvs q) k = Get q k" for q by (simp add: Get_def map_of_set_values_other)
    then show ?thesis by (simp add: True set_values_def Set_def Get_def update_conv)
  next
    case False
    then have i: "(k, v) \<in> set kvs" "fst p \<noteq> k" using Cons.prems by (auto simp: rev_image_eqI)
    then have "Get (if b then Set vs (fst p) x else vs) k = Get vs k" for b x
      by (simp add: Get_def Set_def update_conv)
    then show ?thesis using Cons.IH [OF _ i(1)] Cons.prems(1) by (simp add: set_values_def split_beta)
  qed
qed simp

lemma Get_set_values_other: "k \<notin> fst ` set kvs \<Longrightarrow> Get (set_values kvs vs) k = Get vs k"
  by (simp add: Get_def map_of_set_values_other)

text \<open>What a client reads from the redirect: the registered address, the values set, and its own.\<close>

lemma addQuery_Some:
  assumes "addQuery parse raw values = Some target"
  obtains u q where "parse raw = Some u" and "target = url_String (u\<lparr>u_RawQuery := q\<rparr>)"
    and "\<And>k. Get (ParseQuery q) k = Get (set_values values (url_Query u)) k"
  using assms
  by (auto simp: addQuery_def intro!: that Get_ParseQuery_Encode proper_set_values
      simp: url_Query_def proper_ParseQuery)

end
