(* ===== verification/Http_Exchange.thy ===== *)
theory Http_Exchange
  imports Token_Service Url_Query
begin

text \<open>
  Requests and responses as the handlers of \<open>internal/auth\<close> and the session middleware of
  \<open>internal/server/session.go\<close> see them, and the helpers that write responses. What \<open>net/http\<close>
  and \<open>encoding/json\<close> make of the bytes of a request is the request's data: the parsed form
  (absent when parsing failed or the body was too long), the credentials of the \<open>Basic\<close> scheme,
  the cookies, and the JSON document read from a prefix of the body. Audit records, metrics and log
  lines are written beside the response and are not modelled.
\<close>

section \<open>Requests\<close>

datatype json = JNull | JText string | JTexts "string list" | JOther

text \<open>\<open>rq_JSON n\<close> decodes the first \<open>n\<close> bytes: the members of an object by the field they are
  assigned to, and whether anything follows it.\<close>

record http_request =
  rq_URL :: url
  rq_Form :: "url_values option"
  rq_BasicAuth :: "(string \<times> string) option"
  rq_Authorization :: string
  rq_CSRFHeader :: string
  rq_Cookies :: "(string \<times> string) list"
  rq_UserAgent :: string
  rq_IP :: string
  rq_RemoteHost :: string
  rq_JSON :: "int \<Rightarrow> ((string \<times> json) list \<times> bool) option"

abbreviation form_value :: "http_request \<Rightarrow> string \<Rightarrow> string" where
  "form_value r key \<equiv> (case rq_Form r of None \<Rightarrow> [] | Some vs \<Rightarrow> Get vs key)"

abbreviation query_value :: "http_request \<Rightarrow> string \<Rightarrow> string" where
  "query_value r key \<equiv> Get (url_Query (rq_URL r)) key"

definition oauthSessionCookie :: string where "oauthSessionCookie = ''nyauth_session''"
definition mfaPendingCookieName :: string where "mfaPendingCookieName = ''nyauth_mfa_pending''"

definition text_member :: "(string \<times> json) list \<Rightarrow> string \<Rightarrow> string option" where
  "text_member ms name =
     (case map_of ms name of
        None \<Rightarrow> Some [] | Some JNull \<Rightarrow> Some [] | Some (JText s) \<Rightarrow> Some s | _ \<Rightarrow> None)"

definition only_members :: "string list \<Rightarrow> (string \<times> json) list \<Rightarrow> bool" where
  "only_members names ms \<longleftrightarrow> list_all (\<lambda>m. fst m \<in> set names) ms"

definition lower_text :: "string \<Rightarrow> string" where "lower_text s = map lower_byte s"

definition extractBearerToken :: "http_request \<Rightarrow> string" where
  "extractBearerToken r =
     (case Fields (rq_Authorization r) of
        [scheme, token] \<Rightarrow> (if lower_text scheme = ''bearer'' then token else [])
      | _ \<Rightarrow> [])"

text \<open>The resolved address of the client, or the host of the peer.\<close>

definition requestClientAddress :: "http_request \<Rightarrow> string" where
  "requestClientAddress r = (if TrimSpace (rq_IP r) \<noteq> [] then TrimSpace (rq_IP r) else rq_RemoteHost r)"

section \<open>Responses\<close>

datatype cookie = Cookie (ck_name: string) (ck_value: string) (ck_max_age: int)

record consent_view =
  cv_Challenge :: string
  cv_Flow :: string
  cv_ClientID :: string
  cv_Scopes :: "string list"
  cv_RedirectURI :: string
  cv_Permissions :: "consent_permission list"
  cv_PreviouslyAuthorized :: bool
  cv_ApplicationChanged :: bool
  cv_ReauthorizationRequired :: bool
  cv_NewScopes :: "string list"
  cv_NewClaims :: "string list"
  cv_StepUpRequired :: bool
  cv_RequiredACR :: string
  cv_MaxAge :: "int option"

record device_view =
  dv_DeviceCode :: string
  dv_UserCode :: string
  dv_VerificationURI :: string
  dv_VerificationURIComplete :: string
  dv_ExpiresIn :: int
  dv_Interval :: int

datatype body =
    No_body
  | Error_body string
  | OAuth_error_body string string
  | Token_body token_pair
  | Claims_body payload
  | Text_body string string
  | Consent_body consent_view
  | Device_body device_view

record response =
  rs_Status :: int
  rs_Header :: "(string \<times> string) list"
  rs_Cookies :: "cookie list"
  rs_Body :: body

definition writeJSON :: "int \<Rightarrow> body \<Rightarrow> response" where
  "writeJSON status value =
     \<lparr>rs_Status = status, rs_Header = [(''Content-Type'', ''application/json'')], rs_Cookies = [], rs_Body = value\<rparr>"

definition writeError :: "int \<Rightarrow> string \<Rightarrow> response" where
  "writeError status message = writeJSON status (Error_body message)"

definition writeOAuthError :: "int \<Rightarrow> string \<Rightarrow> string \<Rightarrow> response" where
  "writeOAuthError status code description = writeJSON status (OAuth_error_body code description)"

definition writeTokenError :: "int \<Rightarrow> string \<Rightarrow> string \<Rightarrow> response" where
  "writeTokenError status code description = writeOAuthError status code description"

definition with_header :: "string \<Rightarrow> string \<Rightarrow> response \<Rightarrow> response" where
  "with_header name value r = r\<lparr>rs_Header := (name, value) # rs_Header r\<rparr>"

definition writeInvalidClient :: response where
  "writeInvalidClient =
     with_header ''WWW-Authenticate'' ''Basic realm=\"token\"''
       (writeTokenError 401 ''invalid_client'' ''client authentication failed'')"

definition writeHeader :: "int \<Rightarrow> response" where
  "writeHeader status = \<lparr>rs_Status = status, rs_Header = [], rs_Cookies = [], rs_Body = No_body\<rparr>"

definition http_Redirect :: "string \<Rightarrow> response" where
  "http_Redirect target = with_header ''Location'' target (writeHeader 302)"

definition setOAuthNoStoreHeaders :: "response \<Rightarrow> response" where
  "setOAuthNoStoreHeaders r = with_header ''Cache-Control'' ''no-store'' (with_header ''Pragma'' ''no-cache'' r)"

text \<open>\<open>retry.Round(time.Second)\<close> rounds to the nearest second, halves up; waits are not negative.\<close>

fun decimal_digits :: "nat \<Rightarrow> string" where
  "decimal_digits n = (if n < 10 then [char_of (48 + n)] else decimal_digits (n div 10) @ [char_of (48 + n mod 10)])"

definition writeRetryAfter :: "duration \<Rightarrow> response \<Rightarrow> response" where
  "writeRetryAfter retry r =
     with_header ''Retry-After'' (decimal_digits (nat (max 1 ((retry + Second div 2) div Second)))) r"

definition location :: "response \<Rightarrow> string option" where
  "location r = map_of (rs_Header r) ''Location''"

section \<open>Handlers\<close>

text \<open>A call that may fail inside a handler: the failure is answered at once, or the handler goes on.\<close>

definition attempt :: "'w \<times> ('e + 'a) \<Rightarrow> ('w \<Rightarrow> 'e \<Rightarrow> 'w \<times> 'r) \<Rightarrow> ('w \<Rightarrow> 'a \<Rightarrow> 'w \<times> 'r) \<Rightarrow> 'w \<times> 'r" where
  "attempt m failed ok = (case m of (w, Inl e) \<Rightarrow> failed w e | (w, Inr x) \<Rightarrow> ok w x)"

definition on_response :: "(response \<Rightarrow> response) \<Rightarrow> 'w \<times> response \<Rightarrow> 'w \<times> response" where
  "on_response f p = (fst p, f (snd p))"

definition with_cookies :: "cookie list \<Rightarrow> 'w \<times> response \<Rightarrow> 'w \<times> response" where
  "with_cookies cs p = on_response (\<lambda>r. r\<lparr>rs_Cookies := cs @ rs_Cookies r\<rparr>) p"

section \<open>Lemmas\<close>

lemma attempt_simps [simp]:
  "attempt (w, Inl e) f g = f w e" "attempt (w, Inr x) f g = g w x"
  by (simp_all add: attempt_def)

lemma on_response_simps [simp]:
  "fst (on_response f p) = fst p" "snd (on_response f p) = f (snd p)"
  "fst (with_cookies cs p) = fst p" "snd (with_cookies cs p) = (snd p)\<lparr>rs_Cookies := cs @ rs_Cookies (snd p)\<rparr>"
  by (simp_all add: on_response_def with_cookies_def)

lemma written_body [simp]:
  "rs_Body (writeJSON s b) = b" "rs_Body (writeError s m) = Error_body m"
  "rs_Body (writeOAuthError s c d) = OAuth_error_body c d" "rs_Body (writeTokenError s c d) = OAuth_error_body c d"
  "rs_Body (with_header h v r) = rs_Body r" "rs_Body (writeHeader s) = No_body"
  "rs_Body writeInvalidClient = OAuth_error_body ''invalid_client'' ''client authentication failed''"
  "rs_Body (http_Redirect t) = No_body" "rs_Body (setOAuthNoStoreHeaders r) = rs_Body r"
  "rs_Body (writeRetryAfter n r) = rs_Body r"
  by (simp_all add: writeJSON_def writeError_def writeOAuthError_def writeTokenError_def with_header_def
      writeHeader_def writeInvalidClient_def http_Redirect_def setOAuthNoStoreHeaders_def writeRetryAfter_def)

lemma written_status [simp]:
  "rs_Status (writeJSON s b) = s" "rs_Status (writeError s m) = s"
  "rs_Status (writeOAuthError s c d) = s" "rs_Status (writeTokenError s c d) = s"
  "rs_Status (with_header h v r) = rs_Status r" "rs_Status (writeHeader s) = s"
  "rs_Status writeInvalidClient = 401" "rs_Status (http_Redirect t) = 302"
  "rs_Status (setOAuthNoStoreHeaders r) = rs_Status r" "rs_Status (writeRetryAfter n r) = rs_Status r"
  by (simp_all add: writeJSON_def writeError_def writeOAuthError_def writeTokenError_def with_header_def
      writeHeader_def writeInvalidClient_def http_Redirect_def setOAuthNoStoreHeaders_def writeRetryAfter_def)

lemma location_simps [simp]:
  "location (writeJSON s b) = None" "location (writeError s m) = None"
  "location (writeOAuthError s c d) = None" "location (writeTokenError s c d) = None"
  "location (http_Redirect t) = Some t" "location (setOAuthNoStoreHeaders r) = location r"
  "location writeInvalidClient = None" "location (writeHeader s) = None" "location (writeRetryAfter n r) = location r"
  "location (r\<lparr>rs_Cookies := cs\<rparr>) = location r"
  by (simp_all add: location_def writeJSON_def writeError_def writeOAuthError_def writeTokenError_def with_header_def
      writeHeader_def writeInvalidClient_def http_Redirect_def setOAuthNoStoreHeaders_def writeRetryAfter_def)

text \<open>A response that a failure cannot give comes from the rest of the handler.\<close>

lemma attempt_success:
  assumes "P (attempt m f g)" and "\<And>w e. m = (w, Inl e) \<Longrightarrow> \<not> P (f w e)"
  obtains w x where "m = (w, Inr x)" and "P (g w x)"
  using assms by (cases m; cases "snd m") auto

end
