(* ===== verification/Browser_Middleware.thy ===== *)
theory Browser_Middleware
  imports Http_Exchange
begin

text \<open>
  The session middleware, \<open>internal/server/session.go\<close>: browser sessions with an absolute and an
  idle deadline, the cookies that carry them, and pending MFA challenges. The deadlines are not
  stored: they are computed from the times in the record under the lifecycle policy in force, the
  record \<open>lifecycle\<close> of \<open>internal/settings/policies.go\<close>, whose durations are those its
  accessors return. The session of the request's context is an argument.
\<close>

section \<open>Policy and deadlines\<close>

record lifecycle =
  lc_SessionAbsolute :: duration
  lc_SessionIdle :: duration
  lc_MaxConcurrentSessions :: int
  lc_RecentAuthentication :: duration

record session_middleware =
  sm_policy :: lifecycle
  sm_revision :: int

definition DefaultLifecycle :: lifecycle where
  "DefaultLifecycle =
     \<lparr>lc_SessionAbsolute = 24 * Hour, lc_SessionIdle = 24 * Hour, lc_MaxConcurrentSessions = 0,
      lc_RecentAuthentication = 10 * Minute\<rparr>"

record deadlines =
  dl_Session :: gotime
  dl_Idle :: gotime
  dl_RecentAuthentication :: gotime

definition applyDeadlines :: "lifecycle \<Rightarrow> session_data \<Rightarrow> deadlines" where
  "applyDeadlines l data =
     \<lparr>dl_Session = sd_CreatedAt data + lc_SessionAbsolute l,
      dl_Idle = sd_LastSeenAt data + lc_SessionIdle l,
      dl_RecentAuthentication = sd_AuthenticatedAt data + lc_RecentAuthentication l\<rparr>"

definition effectiveSessionExpiry :: "deadlines \<Rightarrow> gotime" where
  "effectiveSessionExpiry d = (if dl_Idle d < dl_Session d then dl_Idle d else dl_Session d)"

definition session_expiry :: "lifecycle \<Rightarrow> session_data \<Rightarrow> gotime" where
  "session_expiry l data = effectiveSessionExpiry (applyDeadlines l data)"

definition sessionTouchInterval :: "lifecycle \<Rightarrow> duration" where
  "sessionTouchInterval l =
     (let interval = lc_SessionIdle l div 2
      in if interval > 5 * Minute then 5 * Minute else if interval < Second then Second else interval)"

definition mfaPendingTTL :: duration where "mfaPendingTTL = 5 * Minute"

section \<open>Cookies\<close>

definition setCookieUntil :: "string \<Rightarrow> gotime \<Rightarrow> gotime \<Rightarrow> cookie" where
  "setCookieUntil value expiresAt now =
     (let maxAge = (expiresAt - now + Second - 1) div Second
      in Cookie oauthSessionCookie value (if maxAge < 1 then 1 else maxAge))"

definition clearNamedCookie :: "string \<Rightarrow> cookie" where
  "clearNamedCookie name = Cookie name [] (-1)"

definition clearCookie :: cookie where "clearCookie = clearNamedCookie oauthSessionCookie"

definition truncateAuditValue :: "string \<Rightarrow> nat \<Rightarrow> string" where
  "truncateAuditValue value limit = (if length value \<le> limit then value else take limit value)"

definition maxAuditUserAgentLength :: nat where "maxAuditUserAgentLength = 512"

section \<open>Sessions\<close>

record authenticated_session =
  as_ID :: string
  as_Data :: session_data

datatype session_error =
  ErrNoCookie | SessionStore store_error | SessionRandom | SessionUnavailable

type_synonym ('db, 'a) cookie_result = "'db world \<times> cookie list \<times> (session_error + 'a)"

definition new_session :: "session_middleware \<Rightarrow> http_request \<Rightarrow> user \<Rightarrow> string \<Rightarrow> string list \<Rightarrow> gotime \<Rightarrow> session_data" where
  "new_session m r u authenticationContext authenticationMethods now =
     \<lparr>sd_PublicID = [], sd_UserID = us_ID u, sd_Username = us_Username u, sd_AuthVersion = us_AuthVersion u,
      sd_SessionVersion = us_SessionVersion u, sd_CSRFToken = [], sd_UserKey = [], sd_IPAddress = rq_IP r,
      sd_UserAgent = truncateAuditValue (rq_UserAgent r) maxAuditUserAgentLength, sd_CreatedAt = now,
      sd_CreatedAtUnixMilli = 0, sd_LastSeenAt = now, sd_AuthenticatedAt = now,
      sd_AuthenticationContext = context_String (NormalizeContext authenticationContext),
      sd_AuthenticationMethods = authenticationMethods, sd_PolicyRevision = sm_revision m\<rparr>"

text \<open>The store draws a CSRF token and a public identifier, and reads the clock, before it saves.\<close>

definition save_new_session ::
    "'db services \<Rightarrow> 'db world \<Rightarrow> string \<Rightarrow> session_data \<Rightarrow> duration \<Rightarrow> int \<Rightarrow> 'db world \<times> (store_error + session_data)" where
  "save_new_session S w sessionID data ttl maxSessions =
     (case GenerateRandomString (sv_env S) w 32 of (w1, csrf) \<Rightarrow>
      case GenerateRandomString (sv_env S) w1 16 of (w2, publicID) \<Rightarrow>
      case Now (sv_env S) w2 of (w3, now) \<Rightarrow>
        on_result (\<lambda>r. Inr (fst r))
          (on_redis w3 (SaveSessionWithLimit (sv_redis S) (sv_digest S) (w_redis w3) sessionID data ttl maxSessions
             csrf publicID now)))"

definition CreateSessionWithAuthentication ::
    "'db services \<Rightarrow> session_middleware \<Rightarrow> 'db world \<Rightarrow> http_request \<Rightarrow> user \<Rightarrow> string \<Rightarrow> string list \<Rightarrow>
     ('db, authenticated_session) cookie_result" where
  "CreateSessionWithAuthentication S m w r u authenticationContext authenticationMethods =
     (case GenerateRandomString (sv_env S) w 32 of
        (w1, None) \<Rightarrow> (w1, [], Inl SessionRandom)
      | (w1, Some sessionID) \<Rightarrow>
          (case Now (sv_env S) w1 of (w2, now) \<Rightarrow>
             let data = new_session m r u authenticationContext authenticationMethods now;
                 expiresAt = session_expiry (sm_policy m) data
             in attempt (save_new_session S w2 sessionID data (expiresAt - now) (lc_MaxConcurrentSessions (sm_policy m)))
                  (\<lambda>w3 e. (w3, [], Inl (SessionStore e)))
                  (\<lambda>w3 saved. (w3, [setCookieUntil sessionID expiresAt now],
                               Inr \<lparr>as_ID = sessionID, as_Data = saved\<rparr>))))"

definition CreateSession ::
    "'db services \<Rightarrow> session_middleware \<Rightarrow> 'db world \<Rightarrow> http_request \<Rightarrow> user \<Rightarrow> ('db, authenticated_session) cookie_result" where
  "CreateSession S m w r u = CreateSessionWithAuthentication S m w r u ACRLevel1 []"

definition delete_session :: "'db services \<Rightarrow> 'db world \<Rightarrow> string \<Rightarrow> 'db world \<times> unit result" where
  "delete_session S w sessionID = on_redis w (DeleteSession (sv_redis S) (sv_digest S) (w_redis w) sessionID)"

definition RotateSession ::
    "'db services \<Rightarrow> session_middleware \<Rightarrow> 'db world \<Rightarrow> http_request \<Rightarrow> user \<Rightarrow> ('db, authenticated_session) cookie_result" where
  "RotateSession S m w r u =
     (case CreateSession S m w r u of
        (w1, cs, Inl e) \<Rightarrow> (w1, cs, Inl e)
      | (w1, cs, Inr created) \<Rightarrow>
          attempt (on_redis w1 (DeleteOtherUserSessions (sv_redis S) (sv_digest S) (w_redis w1) (us_ID u) (as_ID created)))
            (\<lambda>w2 e. (fst (delete_session S w2 (as_ID created)), cs @ [clearCookie], Inl (SessionStore e)))
            (\<lambda>w2 _. (w2, cs, Inr created)))"

definition reauthenticated :: "session_middleware \<Rightarrow> session_data \<Rightarrow> user \<Rightarrow> string \<Rightarrow> string list \<Rightarrow> gotime \<Rightarrow> session_data" where
  "reauthenticated m data u authenticationContext authenticationMethods now =
     (let data' = data\<lparr>sd_AuthenticatedAt := now, sd_LastSeenAt := now, sd_Username := us_Username u,
                       sd_AuthVersion := us_AuthVersion u, sd_SessionVersion := us_SessionVersion u,
                       sd_PolicyRevision := sm_revision m\<rparr>
      in if authenticationContext = [] then data'
         else data'\<lparr>sd_AuthenticationContext := context_String (NormalizeContext authenticationContext),
                    sd_AuthenticationMethods := authenticationMethods\<rparr>)"

definition update_session ::
    "'db services \<Rightarrow> 'db world \<Rightarrow> string \<Rightarrow> session_data \<Rightarrow> session_data \<Rightarrow> duration \<Rightarrow> 'db world \<times> unit result" where
  "update_session S w sessionID expected data remaining =
     on_redis w (UpdateSession (sv_redis S) (sv_digest S) (w_redis w) sessionID data
       (sd_AuthVersion expected) (sd_SessionVersion expected) remaining)"

definition MarkReauthenticatedWithAuthentication ::
    "'db services \<Rightarrow> session_middleware \<Rightarrow> 'db world \<Rightarrow> authenticated_session option \<Rightarrow> user \<Rightarrow> string \<Rightarrow> string list \<Rightarrow>
     ('db, authenticated_session) cookie_result" where
  "MarkReauthenticatedWithAuthentication S m w session u authenticationContext authenticationMethods =
     (case session of
        None \<Rightarrow> (w, [], Inl SessionUnavailable)
      | Some a \<Rightarrow>
          (case Now (sv_env S) w of (w1, now) \<Rightarrow>
             let data = reauthenticated m (as_Data a) u authenticationContext authenticationMethods now;
                 expiresAt = session_expiry (sm_policy m) data;
                 remaining = expiresAt - now
             in if remaining \<le> 0 then (fst (delete_session S w1 (as_ID a)), [], Inl (SessionStore ErrNotFound))
                else attempt (update_session S w1 (as_ID a) (as_Data a) data remaining)
                       (\<lambda>w2 e. (w2, [], Inl (SessionStore e)))
                       (\<lambda>w2 _. (w2, [setCookieUntil (as_ID a) expiresAt now],
                                Inr (a\<lparr>as_Data := data\<lparr>sd_UserKey := sv_digest S (sd_UserID data)\<rparr>\<rparr>)))))"

definition MarkReauthenticated ::
    "'db services \<Rightarrow> session_middleware \<Rightarrow> 'db world \<Rightarrow> authenticated_session option \<Rightarrow> user \<Rightarrow>
     ('db, authenticated_session) cookie_result" where
  "MarkReauthenticated S m w session u = MarkReauthenticatedWithAuthentication S m w session u [] []"

definition DestroySession :: "'db services \<Rightarrow> 'db world \<Rightarrow> http_request \<Rightarrow> 'db world \<times> cookie list" where
  "DestroySession S w r =
     (case map_of (rq_Cookies r) oauthSessionCookie of
        None \<Rightarrow> (w, [clearCookie])
      | Some value \<Rightarrow> (fst (delete_session S w value), [clearCookie]))"

text \<open>
  \<open>GetSession\<close>: the stored session, if a deadline has not passed. It is written back when the
  policy changed, when its authentication context was missing, or when it was last seen too long ago.
\<close>

definition write_back ::
    "'db services \<Rightarrow> session_middleware \<Rightarrow> 'db world \<Rightarrow> string \<Rightarrow> session_data \<Rightarrow> gotime \<Rightarrow> ('db, authenticated_session) cookie_result" where
  "write_back S m w sessionID data now =
     (let expiresAt = session_expiry (sm_policy m) data
      in attempt (update_session S w sessionID data data (expiresAt - now))
           (\<lambda>w1 e. (w1, [], Inl (SessionStore e)))
           (\<lambda>w1 _. (w1, [setCookieUntil sessionID expiresAt now],
                       Inr \<lparr>as_ID = sessionID, as_Data = data\<lparr>sd_UserKey := sv_digest S (sd_UserID data)\<rparr>\<rparr>)))"

definition refresh_session ::
    "'db services \<Rightarrow> session_middleware \<Rightarrow> 'db world \<Rightarrow> string \<Rightarrow> session_data \<Rightarrow> ('db, authenticated_session) cookie_result" where
  "refresh_session S m w sessionID stored =
     (case Now (sv_env S) w of (w1, now) \<Rightarrow>
        let metadataUpgrade = (sd_AuthenticationContext stored = []);
            data = (if metadataUpgrade then stored\<lparr>sd_AuthenticationContext := ACRLevel1\<rparr> else stored);
            shouldTouch = (sd_LastSeenAt data = 0 \<or> now - sd_LastSeenAt data \<ge> sessionTouchInterval (sm_policy m));
            touched = (if shouldTouch then data\<lparr>sd_LastSeenAt := now\<rparr> else data)
        in if session_expiry (sm_policy m) data - now \<le> 0
           then (fst (delete_session S w1 sessionID), [clearCookie], Inl (SessionStore ErrNotFound))
           else if sd_PolicyRevision data \<noteq> sm_revision m \<or> metadataUpgrade
           then write_back S m w1 sessionID (touched\<lparr>sd_PolicyRevision := sm_revision m\<rparr>) now
           else if shouldTouch then write_back S m w1 sessionID touched now
           else (w1, [], Inr \<lparr>as_ID = sessionID, as_Data = data\<rparr>))"

definition middleware_GetSession ::
    "'db services \<Rightarrow> session_middleware \<Rightarrow> 'db world \<Rightarrow> http_request \<Rightarrow> ('db, authenticated_session) cookie_result" where
  "middleware_GetSession S m w r =
     (case map_of (rq_Cookies r) oauthSessionCookie of
        None \<Rightarrow> (w, [], Inl ErrNoCookie)
      | Some value \<Rightarrow>
          attempt (on_redis w (GetSession (sv_redis S) (sv_digest S) (w_redis w) value))
            (\<lambda>w1 e. (w1, [], Inl (SessionStore e)))
            (\<lambda>w1 stored. refresh_session S m w1 value stored))"

section \<open>Pending MFA challenges\<close>

record mfa_session =
  ms_Token :: string
  ms_Data :: mfa_pending_data

definition delete_pending :: "'db services \<Rightarrow> 'db world \<Rightarrow> http_request \<Rightarrow> 'db world" where
  "delete_pending S w r =
     (case map_of (rq_Cookies r) mfaPendingCookieName of
        None \<Rightarrow> w
      | Some value \<Rightarrow> fst (on_redis w (DeleteMFAPending (sv_redis S) (sv_digest S) (w_redis w) value)))"

definition CreateMFAPending ::
    "'db services \<Rightarrow> 'db world \<Rightarrow> http_request \<Rightarrow> mfa_pending_data \<Rightarrow> ('db, mfa_session) cookie_result" where
  "CreateMFAPending S w r data =
     (case GenerateRandomString (sv_env S) (delete_pending S w r) 32 of
        (w1, None) \<Rightarrow> (w1, [], Inl SessionRandom)
      | (w1, Some token) \<Rightarrow>
          (case GenerateRandomString (sv_env S) w1 32 of (w2, csrf) \<Rightarrow>
           case Now (sv_env S) w2 of (w3, now) \<Rightarrow>
             attempt (on_redis w3 (SaveMFAPending (sv_redis S) (sv_digest S) (w_redis w3) token data mfaPendingTTL csrf now))
               (\<lambda>w4 e. (w4, [], Inl (SessionStore e)))
               (\<lambda>w4 saved. (w4, [Cookie mfaPendingCookieName token (mfaPendingTTL div Second)],
                            Inr \<lparr>ms_Token = token, ms_Data = saved\<rparr>))))"

definition middleware_GetMFAPending ::
    "'db services \<Rightarrow> 'db world \<Rightarrow> http_request \<Rightarrow> ('db, mfa_session) cookie_result" where
  "middleware_GetMFAPending S w r =
     (case map_of (rq_Cookies r) mfaPendingCookieName of
        None \<Rightarrow> (w, [], Inl ErrNoCookie)
      | Some value \<Rightarrow>
          attempt (on_redis w (GetMFAPending (sv_redis S) (sv_digest S) (w_redis w) value))
            (\<lambda>w1 e. (w1, [], Inl (SessionStore e)))
            (\<lambda>w1 data. (w1, [], Inr \<lparr>ms_Token = value, ms_Data = data\<rparr>)))"

definition middleware_ConsumeMFAPending ::
    "'db services \<Rightarrow> 'db world \<Rightarrow> http_request \<Rightarrow> ('db, mfa_session) cookie_result" where
  "middleware_ConsumeMFAPending S w r =
     (case map_of (rq_Cookies r) mfaPendingCookieName of
        None \<Rightarrow> (w, [], Inl ErrNoCookie)
      | Some value \<Rightarrow>
          attempt (on_redis w (ConsumeMFAPending (sv_redis S) (sv_digest S) (w_redis w) value))
            (\<lambda>w1 e. (w1, [], Inl (SessionStore e)))
            (\<lambda>w1 data. (w1, [clearNamedCookie mfaPendingCookieName], Inr \<lparr>ms_Token = value, ms_Data = data\<rparr>)))"

definition DestroyMFAPending :: "'db services \<Rightarrow> 'db world \<Rightarrow> http_request \<Rightarrow> 'db world \<times> cookie list" where
  "DestroyMFAPending S w r = (delete_pending S w r, [clearNamedCookie mfaPendingCookieName])"

section \<open>Lemmas\<close>

lemma session_expiry_min:
  "session_expiry l d = min (sd_LastSeenAt d + lc_SessionIdle l) (sd_CreatedAt d + lc_SessionAbsolute l)"
  by (simp add: session_expiry_def effectiveSessionExpiry_def applyDeadlines_def min_def)

end
