(* ===== verification/Token_Endpoint.thy ===== *)
theory Token_Endpoint
  imports Browser_Middleware
begin

text \<open>
  The token, revocation, introspection and user-info endpoints of \<open>internal/auth/handler.go\<close>, and
  the device grant of \<open>internal/auth/device_authorization.go\<close>. A handler takes the world and a
  request to the world and the response; every early return is a branch.
\<close>

record oauth_handler =
  oh_policy :: oauth_policy
  oh_issuer :: string
  oh_devices :: bool
  oh_middleware :: "session_middleware option"
  oh_parse_url :: "string \<Rightarrow> url option"
  oh_draws :: "nat \<Rightarrow> nat \<Rightarrow> attempt_draw"

section \<open>Client authentication\<close>

definition authenticateTokenClient ::
    "'db services \<Rightarrow> 'db world \<Rightarrow> http_request \<Rightarrow> string \<Rightarrow> bool \<Rightarrow> 'db world \<times> (unit + (oauth_client \<times> string))" where
  "authenticateTokenClient S w r expectedID allowPublic =
     (let formID = form_value r ''client_id''; formSecret = form_value r ''client_secret'';
          hasBasic = (rq_BasicAuth r \<noteq> None);
          (given, secret) = (case rq_BasicAuth r of None \<Rightarrow> (formID, formSecret) | Some basic \<Rightarrow> basic);
          clientID = (if given = [] then expectedID else given)
      in if hasBasic \<and> (formID \<noteq> [] \<or> formSecret \<noteq> []) then (w, Inl ())
         else if \<not> hasBasic \<and> formID = [] then (w, Inl ())
         else if clientID = [] \<or> (expectedID \<noteq> [] \<and> clientID \<noteq> expectedID) then (w, Inl ())
         else attempt (client_GetByID (sv_env S) w clientID) (\<lambda>w1 _. (w1, Inl ())) (\<lambda>w1 cl.
                if oc_IsPublic cl
                then (w1, if allowPublic \<and> \<not> hasBasic \<and> secret = [] then Inr (cl, clientID) else Inl ())
                else if secret = [] then (w1, Inl ())
                else on_result (\<lambda>authed. Inr (authed, clientID))
                       (AuthenticateClient (sv_sha256 S) (sv_env S) w1 clientID secret)))"

section \<open>Issuing tokens for a user's grant\<close>

text \<open>
  The last part of the code grant and of the device grant: the token pair, and with the scope
  \<open>openid\<close> an ID token. A grant that is no longer active is answered by \<open>inactive\<close>.
\<close>

definition issue_grant ::
    "'db services \<Rightarrow> oauth_handler \<Rightarrow> 'db world \<Rightarrow> oauth_client \<Rightarrow> user \<Rightarrow> string \<Rightarrow> string list \<Rightarrow> string list option \<Rightarrow>
     int \<Rightarrow> int \<Rightarrow> int \<Rightarrow> issuance_authentication \<Rightarrow> string \<Rightarrow> response \<Rightarrow> 'db world \<times> response" where
  "issue_grant S H w cl u userID scopes allowedClaims authVersion issuedAt revision authentication nonce inactive_reply =
     attempt (GenerateAuthorizationCodeTokenPair S w (oc_ID cl) userID scopes allowedClaims authVersion issuedAt revision
                authentication (containsScope scopes ''offline_access'' \<and> HasGrant cl GrantRefreshToken))
       (\<lambda>w1 e. (w1, if e = ErrInvalidToken then inactive_reply
                    else writeTokenError 500 ''server_error'' ''failed to issue token''))
       (\<lambda>w1 pair.
          if containsScope scopes ''openid'' then
            attempt (GenerateIDToken S w1 (oc_ID cl) userID (list_of allowedClaims) nonce
                       (userClaimsForAllowed (oh_issuer H) u (list_of allowedClaims)) authentication)
              (\<lambda>w2 _. (w2, writeTokenError 500 ''server_error'' ''failed to issue ID token''))
              (\<lambda>w2 idToken. (w2, writeJSON 200 (Token_body (pair\<lparr>tp_IDToken := idToken\<rparr>))))
          else (w1, writeJSON 200 (Token_body pair)))"

section \<open>The authorization code grant\<close>

definition reuse_uncontained :: response where
  "reuse_uncontained = writeTokenError 500 ''server_error'' ''authorization code reuse could not be contained''"

definition rejectAuthorizationCodeReuse ::
    "'db services \<Rightarrow> 'db world \<Rightarrow> authorization_data \<Rightarrow> 'db world \<times> response" where
  "rejectAuthorizationCodeReuse S w stored =
     attempt (on_redis w (RevokeUserClientAuthorization (sv_redis S) (sv_digest S) (w_redis w)
                (ad_UserID stored) (ad_ClientID stored) (ts_revocationTTL (sv_tokens S) + 5 * Minute)))
       (\<lambda>w1 _. (w1, reuse_uncontained))
       (\<lambda>w1 revokedAt.
          case e_parse_uuid (sv_env S) (ad_UserID stored) of
            None \<Rightarrow> (w1, reuse_uncontained)
          | Some userID \<Rightarrow>
              attempt (Revoke (sv_env S) w1 userID (ad_ClientID stored) (UnixMicro revokedAt))
                (\<lambda>w2 e. (w2, if IsNotFound e
                             then writeTokenError 400 ''invalid_grant'' ''authorization code was already consumed''
                             else reuse_uncontained))
                (\<lambda>w2 _. (w2, writeTokenError 400 ''invalid_grant'' ''authorization code was already consumed'')))"

definition code_bound ::
    "'db services \<Rightarrow> oauth_client \<Rightarrow> string \<Rightarrow> authorization_data \<Rightarrow> string \<Rightarrow> string \<Rightarrow> bool" where
  "code_bound S cl clientID stored redirectURI verifier \<longleftrightarrow>
     clientID = ad_ClientID stored \<and> HasGrant cl GrantAuthorizationCode \<and> redirectURI = ad_RedirectURI stored \<and>
     HasRedirectURI cl (ad_RedirectURI stored) \<and>
     normalizedClientRevision (ad_ClientAuthorizationRevision stored) = oc_AuthorizationRevision cl \<and>
     ad_ChallengeMethod stored = ''S256'' \<and>
     validatePKCE (sv_sha256 S) verifier (ad_CodeChallenge stored) (ad_ChallengeMethod stored)"

definition consumption_failed :: "store_error \<Rightarrow> response" where
  "consumption_failed e =
     (if e = ErrNotFound \<or> e = ErrValueMismatch
      then writeTokenError 400 ''invalid_grant'' ''invalid or expired authorization code''
      else writeTokenError 500 ''server_error'' ''authorization code could not be consumed'')"

text \<open>Consumption of the code and issuance, for the subject \<open>u\<close>.\<close>

definition redeem_code ::
    "'db services \<Rightarrow> oauth_handler \<Rightarrow> 'db world \<Rightarrow> string \<Rightarrow> authorization_data \<Rightarrow> oauth_client \<Rightarrow> user \<Rightarrow> string list \<Rightarrow>
     'db world \<times> response" where
  "redeem_code S H w code stored cl u allowedClaims =
     attempt (on_redis w (ConsumeAuthorizationCodeIfMatch (sv_redis S) (sv_digest S) (w_redis w) code stored
                (AuthorizationCodeRetention (sv_tokens S))))
       (\<lambda>w1 e. if e = ErrAuthorizationCodeReuse then rejectAuthorizationCodeReuse S w1 stored
               else (w1, consumption_failed e))
       (\<lambda>w1 _.
          issue_grant S H w1 cl u (ad_UserID stored) (ad_Scopes stored) (Some allowedClaims) (ad_AuthVersion stored)
            (ad_AuthorizationIssuedAt stored) (ad_ClientAuthorizationRevision stored)
            \<lparr>ia_Context = ad_AuthenticationContext stored, ia_Methods = ad_AuthenticationMethods stored,
             ia_AuthTime = ad_AuthenticationTime stored\<rparr> (ad_Nonce stored)
            (writeTokenError 400 ''invalid_grant'' ''authorization is no longer active''))"

definition current_claims :: "oauth_handler \<Rightarrow> oauth_client \<Rightarrow> string list \<Rightarrow> string list" where
  "current_claims H cl scopes = claimsForGrantedScopes scopes (Some (scopeClaimsForClient scopes cl (oh_policy H)))"

definition exchange_code ::
    "'db services \<Rightarrow> oauth_handler \<Rightarrow> 'db world \<Rightarrow> string \<Rightarrow> authorization_data \<Rightarrow> oauth_client \<Rightarrow> 'db world \<times> response" where
  "exchange_code S H w code stored cl =
     (let allowedClaims = effectiveClaimNames (ad_Scopes stored) (ad_AllowedClaims stored) (ad_ClaimNamesSet stored)
      in if isl (parseAndValidateScopes (joinScopes (ad_Scopes stored)) (oc_Scopes cl))
         then (w, writeTokenError 400 ''invalid_grant'' ''authorization scope is no longer allowed'')
         else if \<not> scopesAreSubset allowedClaims (current_claims H cl (ad_Scopes stored))
         then (w, writeTokenError 400 ''invalid_grant'' ''authorization claims are no longer allowed'')
         else case e_parse_uuid (sv_env S) (ad_UserID stored) of
                None \<Rightarrow> (w, writeTokenError 400 ''invalid_grant'' ''invalid authorization subject'')
              | Some uid \<Rightarrow>
                  attempt (user_GetByID (sv_env S) w uid)
                    (\<lambda>w1 _. (w1, writeTokenError 400 ''invalid_grant'' ''authorization subject is no longer active''))
                    (\<lambda>w1 u.
                       if us_Status u \<noteq> UserStatusActive \<or> us_AuthVersion u \<noteq> ad_AuthVersion stored
                       then (w1, writeTokenError 400 ''invalid_grant'' ''authorization subject is no longer active'')
                       else redeem_code S H w1 code stored cl u allowedClaims))"

definition handleAuthorizationCodeGrant ::
    "'db services \<Rightarrow> oauth_handler \<Rightarrow> 'db world \<Rightarrow> http_request \<Rightarrow> 'db world \<times> response" where
  "handleAuthorizationCodeGrant S H w r =
     (let code = form_value r ''code''; redirectURI = form_value r ''redirect_uri'';
          verifier = form_value r ''code_verifier''
      in if code = [] \<or> redirectURI = [] \<or> \<not> validPKCEVerifier verifier
         then (w, writeTokenError 400 ''invalid_request'' ''code, redirect_uri, and valid code_verifier are required'')
         else attempt (on_redis w (GetAuthorizationCode (sv_redis S) (sv_digest S) (w_redis w) code))
                (\<lambda>w1 _. (w1, writeTokenError 400 ''invalid_grant'' ''invalid or expired authorization code''))
                (\<lambda>w1 (codeWasUsed, stored).
                   attempt (authenticateTokenClient S w1 r (ad_ClientID stored) True)
                     (\<lambda>w2 _. (w2, writeInvalidClient))
                     (\<lambda>w2 (cl, clientID).
                        if \<not> code_bound S cl clientID stored redirectURI verifier
                        then (w2, writeTokenError 400 ''invalid_grant'' ''authorization code binding validation failed'')
                        else if codeWasUsed then rejectAuthorizationCodeReuse S w2 stored
                        else exchange_code S H w2 code stored cl)))"

section \<open>Client credentials and refresh tokens\<close>

definition handleClientCredentialsGrant ::
    "'db services \<Rightarrow> 'db world \<Rightarrow> http_request \<Rightarrow> 'db world \<times> response" where
  "handleClientCredentialsGrant S w r =
     attempt (authenticateTokenClient S w r [] False) (\<lambda>w1 _. (w1, writeInvalidClient))
       (\<lambda>w1 (cl, _).
          if oc_IsPublic cl then (w1, writeInvalidClient)
          else if \<not> HasGrant cl GrantClientCredentials
          then (w1, writeTokenError 400 ''unauthorized_client'' ''client_credentials grant is not allowed'')
          else case parseAndValidateScopes (form_value r ''scope'') (oc_Scopes cl) of
                 Inl _ \<Rightarrow> (w1, writeTokenError 400 ''invalid_scope'' ''requested scope is not allowed'')
               | Inr parsed \<Rightarrow>
                   attempt (GenerateClientTokenPair S w1 (oc_ID cl)
                       (withoutScope (if form_value r ''scope'' = [] then oc_Scopes cl else parsed) ''offline_access''))
                     (\<lambda>w2 _. (w2, writeTokenError 500 ''server_error'' ''failed to issue token''))
                     (\<lambda>w2 pair. (w2, writeJSON 200 (Token_body pair))))"

definition handleRefreshTokenGrant ::
    "'db services \<Rightarrow> oauth_handler \<Rightarrow> 'db world \<Rightarrow> http_request \<Rightarrow> 'db world \<times> response" where
  "handleRefreshTokenGrant S H w r =
     (let refresh = form_value r ''refresh_token'' in
      if refresh = [] \<or> form_value r ''scope'' \<noteq> []
      then (w, writeTokenError 400 ''invalid_request'' ''refresh_token is required and scope changes are not supported'')
      else attempt (authenticateTokenClient S w r [] True) (\<lambda>w1 _. (w1, writeInvalidClient))
        (\<lambda>w1 (cl, clientID).
           if \<not> HasGrant cl GrantRefreshToken
           then (w1, writeTokenError 400 ''invalid_grant'' ''refresh token is not valid for this client'')
           else attempt (RefreshTokenWithClaimPolicy S w1 refresh clientID (oc_Scopes cl)
                           (Some (scopeClaimsForClient (oc_Scopes cl) cl (oh_policy H))))
                  (\<lambda>w2 _. (w2, writeTokenError 400 ''invalid_grant'' ''invalid refresh token''))
                  (\<lambda>w2 pair. (w2, writeJSON 200 (Token_body pair)))))"

section \<open>The device grant\<close>

definition poll_failed :: "device_error \<Rightarrow> duration \<Rightarrow> response" where
  "poll_failed e retry =
     (if e = DevAuthorizationPending
      then writeRetryAfter retry (writeTokenError 400 ''authorization_pending'' ''the user has not completed authorization'')
      else if e = DevSlowDown
      then writeRetryAfter retry (writeTokenError 400 ''slow_down'' ''polling is too frequent'')
      else if e = DevAccessDenied
      then writeTokenError 400 ''access_denied'' ''the user denied the authorization request''
      else if e = DevNotFound then writeTokenError 400 ''expired_token'' ''device code is invalid or expired''
      else writeTokenError 503 ''temporarily_unavailable'' ''device authorization is temporarily unavailable'')"

text \<open>An empty list of claims was stored with \<open>omitempty\<close> and comes back nil.\<close>

definition device_claims :: "device_record \<Rightarrow> string list option" where
  "device_claims d = omit_empty (Some (dr_AllowedClaims d))"

definition redeem_device ::
    "'db services \<Rightarrow> oauth_handler \<Rightarrow> 'db world \<Rightarrow> device_record \<Rightarrow> oauth_client \<Rightarrow> user \<Rightarrow> 'db world \<times> response" where
  "redeem_device S H w approved cl u =
     attempt (on_redis w (ConsumeApproved (sv_redis S) (w_redis w) approved))
       (\<lambda>w1 _. (w1, writeTokenError 400 ''expired_token'' ''device authorization is invalid or expired''))
       (\<lambda>w1 _.
          issue_grant S H w1 cl u (dr_UserID approved) (dr_GrantedScopes approved) (device_claims approved)
            (dr_AuthVersion approved) (dr_AuthorizationIssuedAt approved) (dr_ClientAuthorizationRevision approved)
            \<lparr>ia_Context = dr_AuthenticationContext approved, ia_Methods = dr_AuthenticationMethods approved,
             ia_AuthTime = dr_AuthenticationTime approved\<rparr> []
            (writeTokenError 400 ''expired_token'' ''authorization is no longer active''))"

definition exchange_device ::
    "'db services \<Rightarrow> oauth_handler \<Rightarrow> 'db world \<Rightarrow> device_record \<Rightarrow> oauth_client \<Rightarrow> 'db world \<times> response" where
  "exchange_device S H w approved cl =
     (if normalizedClientRevision (dr_ClientIdentityRevision approved) \<noteq> oc_IdentityRevision cl \<or>
         normalizedClientRevision (dr_ClientAuthorizationRevision approved) \<noteq> oc_AuthorizationRevision cl
      then (w, writeTokenError 400 ''expired_token'' ''device authorization is no longer valid'')
      else if isl (parseAndValidateScopes (joinScopes (dr_GrantedScopes approved)) (oc_Scopes cl))
      then (w, writeTokenError 400 ''expired_token'' ''device authorization scope is no longer allowed'')
      else if \<not> scopesAreSubset (dr_AllowedClaims approved) (current_claims H cl (dr_GrantedScopes approved))
      then (w, writeTokenError 400 ''expired_token'' ''device authorization claims are no longer allowed'')
      else case e_parse_uuid (sv_env S) (dr_UserID approved) of
             None \<Rightarrow> (w, writeTokenError 400 ''expired_token'' ''device authorization subject is invalid'')
           | Some userID \<Rightarrow>
               attempt (user_GetByID (sv_env S) w userID)
                 (\<lambda>w1 _. (w1, writeTokenError 400 ''expired_token'' ''device authorization subject is no longer active''))
                 (\<lambda>w1 u.
                    if us_Status u \<noteq> UserStatusActive \<or> us_AuthVersion u \<noteq> dr_AuthVersion approved
                    then (w1, writeTokenError 400 ''expired_token'' ''device authorization subject is no longer active'')
                    else redeem_device S H w1 approved cl u))"

definition handleDeviceCodeGrant ::
    "'db services \<Rightarrow> oauth_handler \<Rightarrow> 'db world \<Rightarrow> http_request \<Rightarrow> 'db world \<times> response" where
  "handleDeviceCodeGrant S H w r =
     (let deviceCode = form_value r ''device_code'' in
      if deviceCode = [] \<or> form_value r ''scope'' \<noteq> []
      then (w, writeTokenError 400 ''invalid_request'' ''device_code is required and scope changes are not supported'')
      else if \<not> oh_devices H
      then (w, writeTokenError 503 ''temporarily_unavailable'' ''device authorization is temporarily unavailable'')
      else attempt (authenticateTokenClient S w r [] True) (\<lambda>w1 _. (w1, writeInvalidClient))
        (\<lambda>w1 (cl, clientID).
           if \<not> HasGrant cl GrantDeviceCode
           then (w1, writeTokenError 400 ''unauthorized_client'' ''device authorization grant is not allowed'')
           else case Now (sv_env S) w1 of (w2, now) \<Rightarrow>
             attempt (on_redis w2 (Poll (sv_redis S) (sv_digest S) (w_redis w2) deviceCode clientID now))
               (\<lambda>w3 (e, retry). (w3, poll_failed e retry))
               (\<lambda>w3 (approved, _). exchange_device S H w3 approved cl)))"

section \<open>The endpoints\<close>

definition Token :: "'db services \<Rightarrow> oauth_handler \<Rightarrow> 'db world \<Rightarrow> http_request \<Rightarrow> 'db world \<times> response" where
  "Token S H w r =
     on_response setOAuthNoStoreHeaders
       (if rq_Form r = None then (w, writeTokenError 400 ''invalid_request'' ''invalid form body'')
        else let grant = form_value r ''grant_type'' in
             if grant = GrantAuthorizationCode then handleAuthorizationCodeGrant S H w r
             else if grant = GrantClientCredentials then handleClientCredentialsGrant S w r
             else if grant = GrantRefreshToken then handleRefreshTokenGrant S H w r
             else if grant = GrantDeviceCode then handleDeviceCodeGrant S H w r
             else (w, writeTokenError 400 ''unsupported_grant_type'' ''grant type is not supported''))"

text \<open>Revocation of a token of another client is answered like a success.\<close>

definition Revoke_endpoint :: "'db services \<Rightarrow> 'db world \<Rightarrow> http_request \<Rightarrow> 'db world \<times> response" where
  "Revoke_endpoint S w r =
     (if rq_Form r = None then (w, writeTokenError 400 ''invalid_request'' ''invalid form body'')
      else let token = form_value r ''token'' in
        if token = [] then (w, writeTokenError 400 ''invalid_request'' ''token is required'')
        else attempt (authenticateTokenClient S w r [] True) (\<lambda>w1 _. (w1, writeInvalidClient))
          (\<lambda>w1 (cl, _).
             attempt (RevokeTokenForClient S w1 token (oc_ID cl))
               (\<lambda>w2 e. (w2, if e = ErrClientMismatch then writeHeader 200
                            else writeTokenError 503 ''server_error'' ''token revocation is temporarily unavailable''))
               (\<lambda>w2 _. (w2, writeHeader 200))))"

definition Introspect :: "'db services \<Rightarrow> 'db world \<Rightarrow> http_request \<Rightarrow> 'db world \<times> response" where
  "Introspect S w r =
     on_response setOAuthNoStoreHeaders
       (if rq_Form r = None then (w, writeJSON 200 (Claims_body inactive))
        else attempt (authenticateTokenClient S w r [] False) (\<lambda>w1 _. (w1, writeInvalidClient))
          (\<lambda>w1 (cl, _).
             if oc_IsPublic cl then (w1, writeInvalidClient)
             else case IntrospectTokenForClient S w1 (form_value r ''token'') (oc_ID cl) (oc_Scopes cl) of
                    (w2, result) \<Rightarrow> (w2, writeJSON 200 (Claims_body result))))"

definition invalid_bearer :: response where
  "invalid_bearer = with_header ''WWW-Authenticate'' ''Bearer error=\"invalid_token\"'' (writeError 401 ''invalid_token'')"

definition UserInfo :: "'db services \<Rightarrow> oauth_handler \<Rightarrow> 'db world \<Rightarrow> http_request \<Rightarrow> 'db world \<times> response" where
  "UserInfo S H w r =
     on_response setOAuthNoStoreHeaders
       (attempt (ValidateAccessToken S w (extractBearerToken r)) (\<lambda>w1 _. (w1, invalid_bearer))
          (\<lambda>w1 c.
             let allowedClaims = effectiveClaimNames (Fields (jc_Scope c)) (jc_AllowedClaims c) (jc_ClaimNamesSet c)
             in if jc_AuthVersion c \<le> 0 then (w1, invalid_bearer)
                else if \<not> containsScope allowedClaims ''sub''
                then (w1, with_header ''WWW-Authenticate'' ''Bearer error=\"insufficient_scope\", scope=\"openid\"''
                            (writeError 403 ''insufficient_scope''))
                else case e_parse_uuid (sv_env S) (jc_Subject c) of
                       None \<Rightarrow> (w1, writeError 401 ''invalid_token'')
                     | Some i \<Rightarrow>
                         attempt (user_GetByID (sv_env S) w1 i)
                           (\<lambda>w2 _. (w2, writeError 401 ''invalid_token''))
                           (\<lambda>w2 u. (w2, writeJSON 200 (Claims_body
                              ((''sub'', CText (jc_Subject c)) # userClaimsForAllowed (oh_issuer H) u allowedClaims))))))"

end
