(* ===== verification/Authorize_Endpoint.thy ===== *)
theory Authorize_Endpoint
  imports Token_Endpoint
begin

text \<open>
  The browser side of \<open>internal/auth/handler.go\<close>: the authorization endpoint, which checks a
  request and starts a consent, and the end-session endpoint.
\<close>

section \<open>The current session\<close>

definition resolve_session ::
    "'db services \<Rightarrow> oauth_handler \<Rightarrow> 'db world \<Rightarrow> http_request \<Rightarrow> 'db world \<times> cookie list \<times> session_data option" where
  "resolve_session S H w r =
     (case oh_middleware H of
        Some m \<Rightarrow>
          (case middleware_GetSession S m w r of
             (w1, cs, Inl _) \<Rightarrow> (w1, cs, None)
           | (w1, cs, Inr a) \<Rightarrow> (w1, cs, Some (as_Data a)))
      | None \<Rightarrow>
          (case map_of (rq_Cookies r) oauthSessionCookie of
             None \<Rightarrow> (w, [], None)
           | Some value \<Rightarrow>
               (case on_redis w (GetSession (sv_redis S) (sv_digest S) (w_redis w) value) of
                  (w1, Inl _) \<Rightarrow> (w1, [], None)
                | (w1, Inr sess) \<Rightarrow> (w1, [], Some sess))))"

definition session_user :: "'db services \<Rightarrow> 'db world \<Rightarrow> session_data \<Rightarrow> 'db world \<times> user option" where
  "session_user S w sess =
     (case e_parse_uuid (sv_env S) (sd_UserID sess) of
        None \<Rightarrow> (w, None)
      | Some i \<Rightarrow>
          (case user_GetByID (sv_env S) w i of
             (w1, Inl _) \<Rightarrow> (w1, None)
           | (w1, Inr u) \<Rightarrow>
               (w1, if us_Status u \<noteq> UserStatusActive \<or> us_AuthVersion u \<noteq> sd_AuthVersion sess \<or>
                       us_SessionVersion u \<noteq> sd_SessionVersion sess
                    then None else Some u)))"

definition currentSessionUser ::
    "'db services \<Rightarrow> oauth_handler \<Rightarrow> 'db world \<Rightarrow> http_request \<Rightarrow> 'db world \<times> cookie list \<times> (session_data \<times> user) option" where
  "currentSessionUser S H w r =
     (case resolve_session S H w r of
        (w1, cs, None) \<Rightarrow> (w1, cs, None)
      | (w1, cs, Some sess) \<Rightarrow>
          (case session_user S w1 sess of (w2, u) \<Rightarrow> (w2, cs, map_option (Pair sess) u)))"

section \<open>Parameters of an authorization request\<close>

definition maxAuthorizationQueryBytes :: int where "maxAuthorizationQueryBytes = 16384"
definition maxOAuthStateBytes :: int where "maxOAuthStateBytes = 512"
definition maxOIDCNonceBytes :: int where "maxOIDCNonceBytes = 512"
definition oauthReauthenticationParameter :: string where "oauthReauthenticationParameter = ''_nyauth_reauthentication''"
definition oauthReauthenticationTTL :: duration where "oauthReauthenticationTTL = 10 * Minute"

text \<open>\<open>utf8.ValidString\<close>: the length of the encoding of the first rune, or 0.\<close>

abbreviation continues :: "string \<Rightarrow> nat \<Rightarrow> bool" where
  "continues s n \<equiv> n \<le> length s \<and> list_all (\<lambda>c. 0x80 \<le> byte c \<and> byte c \<le> 0xbf) (take n s)"

definition rune_width :: "char \<Rightarrow> string \<Rightarrow> nat" where
  "rune_width c s =
     (let b = byte c; next_between = (\<lambda>lo hi. case s of [] \<Rightarrow> False | d # _ \<Rightarrow> lo \<le> byte d \<and> byte d \<le> hi)
      in if b < 0x80 then 1
         else if 0xc2 \<le> b \<and> b \<le> 0xdf \<and> continues s 1 then 2
         else if b = 0xe0 \<and> next_between 0xa0 0xbf \<and> continues s 2 then 3
         else if b = 0xed \<and> next_between 0x80 0x9f \<and> continues s 2 then 3
         else if (0xe1 \<le> b \<and> b \<le> 0xec \<or> 0xee \<le> b \<and> b \<le> 0xef) \<and> continues s 2 then 3
         else if b = 0xf0 \<and> next_between 0x90 0xbf \<and> continues s 3 then 4
         else if b = 0xf4 \<and> next_between 0x80 0x8f \<and> continues s 3 then 4
         else if 0xf1 \<le> b \<and> b \<le> 0xf3 \<and> continues s 3 then 4
         else 0)"

function utf8_valid :: "string \<Rightarrow> bool" where
  "utf8_valid [] = True"
| "utf8_valid (c # s) = (if rune_width c s = 0 then False else utf8_valid (drop (rune_width c s - 1) s))"
  by pat_completeness auto
termination by (relation "measure length") (auto simp: less_Suc_eq_le)

definition validOAuthOpaqueParameter :: "string \<Rightarrow> int \<Rightarrow> bool \<Rightarrow> bool" where
  "validOAuthOpaqueParameter value maxBytes allowEmpty =
     (if value = [] then allowEmpty else int (length value) \<le> maxBytes \<and> utf8_valid value)"

definition durationSeconds :: "duration option \<Rightarrow> int option" where
  "durationSeconds value = map_option (\<lambda>d. d div Second) value"

record authorize_parameters =
  ap_Scopes :: "string list"
  ap_OptionalScopes :: "string list"
  ap_State :: string
  ap_Challenge :: string
  ap_Nonce :: string
  ap_RequestedACR :: "string list"
  ap_MaxAge :: "duration option"

text \<open>The checks that answer by a redirect: an error is the state to return and the error code.\<close>

definition authorize_parameters_of :: "oauth_client \<Rightarrow> http_request \<Rightarrow> (string \<times> string) + authorize_parameters" where
  "authorize_parameters_of cl r =
     (let state = query_value r ''state''; nonce = query_value r ''nonce'';
          challenge = query_value r ''code_challenge'' in
      if \<not> validOAuthOpaqueParameter state maxOAuthStateBytes True then Inl ([], ''invalid_request'')
      else if \<not> HasGrant cl GrantAuthorizationCode then Inl (state, ''unauthorized_client'')
      else case parseAndValidateScopes (query_value r ''scope'') (oc_Scopes cl) of
             Inl _ \<Rightarrow> Inl (state, ''invalid_scope'')
           | Inr scopes \<Rightarrow>
               (let optionalScopes = intersectScopes scopes (oc_OptionalScopes cl) in
                if containsScope scopes ''offline_access'' \<and> \<not> HasGrant cl GrantRefreshToken
                then Inl (state, ''invalid_scope'')
                else if length scopes > 0 \<and> length optionalScopes = length scopes then Inl (state, ''invalid_scope'')
                else if query_value r ''code_challenge_method'' \<noteq> ''S256'' \<or> \<not> validPKCEChallenge challenge
                then Inl (state, ''invalid_request'')
                else if \<not> validOAuthOpaqueParameter nonce maxOIDCNonceBytes (\<not> containsScope scopes ''openid'')
                then Inl (state, ''invalid_request'')
                else case ParseACRValues (query_value r ''acr_values'') of
                       Inl _ \<Rightarrow> Inl (state, ''invalid_request'')
                     | Inr requestedACR \<Rightarrow>
                         (case ParseMaxAge (query_value r ''max_age'') of
                            Inl _ \<Rightarrow> Inl (state, ''invalid_request'')
                          | Inr maxAge \<Rightarrow>
                              Inr \<lparr>ap_Scopes = scopes, ap_OptionalScopes = optionalScopes, ap_State = state,
                                   ap_Challenge = challenge, ap_Nonce = nonce, ap_RequestedACR = requestedACR,
                                   ap_MaxAge = maxAge\<rparr>)))"

definition redirectAuthorizeError :: "oauth_handler \<Rightarrow> string \<Rightarrow> string \<Rightarrow> string \<Rightarrow> response" where
  "redirectAuthorizeError H redirectURI state code =
     (case addQuery (oh_parse_url H) redirectURI [(''error'', code), (''state'', state)] of
        None \<Rightarrow> writeOAuthError 400 ''invalid_request'' ''invalid redirect URI''
      | Some target \<Rightarrow> http_Redirect target)"

section \<open>Reauthentication\<close>

definition oauthAuthorizationRequestURI :: "http_request \<Rightarrow> string" where
  "oauthAuthorizationRequestURI r =
     RequestURI ((rq_URL r)\<lparr>u_RawQuery := Encode (Del (url_Query (rq_URL r)) oauthReauthenticationParameter)\<rparr>)"

definition fresh_enough ::
    "'db services \<Rightarrow> 'db world \<Rightarrow> session_data \<Rightarrow> duration option \<Rightarrow> 'db world \<times> (store_error + bool)" where
  "fresh_enough S w sess maxAge =
     (case Now (sv_env S) w of (w1, now) \<Rightarrow> (w1, Inr (Fresh (sd_AuthenticatedAt sess) now maxAge)))"

definition oauthReauthenticationSatisfied ::
    "'db services \<Rightarrow> 'db world \<Rightarrow> http_request \<Rightarrow> session_data \<Rightarrow> duration option \<Rightarrow> 'db world \<times> (store_error + bool)" where
  "oauthReauthenticationSatisfied S w r sess maxAge =
     (if maxAge = None then (w, Inr True)
      else let token = query_value r oauthReauthenticationParameter in
        if token = [] then fresh_enough S w sess maxAge
        else attempt (on_redis w (ConsumeOAuthReauthentication (sv_redis S) (sv_digest S) (w_redis w) token))
          (\<lambda>w1 e. if e = ErrNotFound then fresh_enough S w1 sess maxAge else (w1, Inl e))
          (\<lambda>w1 state.
             if rd_RequestURI state = oauthAuthorizationRequestURI r \<and> \<not> sd_AuthenticatedAt sess < rd_CreatedAt state
             then (w1, Inr True) else fresh_enough S w1 sess maxAge))"

definition createOAuthReauthenticationContinuation ::
    "'db services \<Rightarrow> oauth_handler \<Rightarrow> 'db world \<Rightarrow> http_request \<Rightarrow> 'db world \<times> (unit + string)" where
  "createOAuthReauthenticationContinuation S H w r =
     (case GenerateRandomString (sv_env S) w 32 of
        (w1, None) \<Rightarrow> (w1, Inl ())
      | (w1, Some token) \<Rightarrow>
          (case Now (sv_env S) w1 of (w2, now) \<Rightarrow>
             attempt (on_redis w2 (SaveOAuthReauthentication (sv_redis S) (sv_digest S) (w_redis w2) token
                        \<lparr>rd_RequestURI = oauthAuthorizationRequestURI r, rd_CreatedAt = now\<rparr> oauthReauthenticationTTL))
               (\<lambda>w3 _. (w3, Inl ()))
               (\<lambda>w3 _. (w3, case oh_parse_url H (oauthAuthorizationRequestURI r) of
                          None \<Rightarrow> Inl ()
                        | Some target \<Rightarrow>
                            Inr (RequestURI (target\<lparr>u_RawQuery :=
                              Encode (Set (url_Query target) oauthReauthenticationParameter token)\<rparr>))))))"

section \<open>The authorization endpoint\<close>

definition force_login :: "'db services \<Rightarrow> oauth_handler \<Rightarrow> 'db world \<Rightarrow> http_request \<Rightarrow> 'db world \<times> response" where
  "force_login S H w r =
     attempt (createOAuthReauthenticationContinuation S H w r)
       (\<lambda>w1 _. (w1, writeOAuthError 503 ''temporarily_unavailable'' ''authentication continuation could not be created''))
       (\<lambda>w1 returnTo. (w1, http_Redirect (''/login?force=1&return_to='' @ QueryEscape returnTo)))"

definition new_consent ::
    "oauth_handler \<Rightarrow> oauth_client \<Rightarrow> string \<Rightarrow> string \<Rightarrow> user \<Rightarrow> authorize_parameters \<Rightarrow> consent_data" where
  "new_consent H cl clientID redirectURI u p =
     \<lparr>cd_Flow = [], cd_ClientID = clientID, cd_UserID = us_ID u, cd_RedirectURI = redirectURI,
      cd_Scopes = ap_Scopes p, cd_OptionalScopes = ap_OptionalScopes p,
      cd_ScopeClaims = Some (scopeClaimsForClient (ap_Scopes p) cl (oh_policy H)),
      cd_ScopeDetails = scopeDetailsForScopes (ap_Scopes p) (oh_policy H), cd_State = ap_State p,
      cd_CodeChallenge = ap_Challenge p, cd_ChallengeMethod = ''S256'', cd_Nonce = ap_Nonce p,
      cd_AuthVersion = us_AuthVersion u, cd_ClientIdentityRevision = oc_IdentityRevision cl,
      cd_ClientAuthorizationRevision = oc_AuthorizationRevision cl,
      cd_RequiredAuthContext = RequiredContext (ap_RequestedACR p), cd_MaxAgeSeconds = durationSeconds (ap_MaxAge p),
      cd_MaxAgeSatisfied = True, cd_DeviceID = [], cd_DeviceRecordVersion = []\<rparr>"

definition start_consent ::
    "'db services \<Rightarrow> 'db world \<Rightarrow> consent_data \<Rightarrow> (string \<Rightarrow> response) \<Rightarrow> response \<Rightarrow> response \<Rightarrow> 'db world \<times> response" where
  "start_consent S w data started random_failed save_failed =
     (case GenerateRandomString (sv_env S) w 32 of
        (w1, None) \<Rightarrow> (w1, random_failed)
      | (w1, Some challenge) \<Rightarrow>
          attempt (on_redis w1 (SaveConsent (sv_redis S) (sv_digest S) (w_redis w1) challenge data (10 * Minute)))
            (\<lambda>w2 _. (w2, save_failed))
            (\<lambda>w2 _. (w2, started (''/consent?challenge='' @ QueryEscape challenge))))"

definition authorize_user ::
    "'db services \<Rightarrow> oauth_handler \<Rightarrow> 'db world \<Rightarrow> http_request \<Rightarrow> oauth_client \<Rightarrow> string \<Rightarrow> string \<Rightarrow> session_data \<Rightarrow>
     user \<Rightarrow> authorize_parameters \<Rightarrow> 'db world \<times> response" where
  "authorize_user S H w r cl clientID redirectURI sess u p =
     (if us_MustChangePassword u then (w, http_Redirect ''/change-password'')
      else attempt (oauthReauthenticationSatisfied S w r sess (ap_MaxAge p))
        (\<lambda>w1 _. (w1, writeOAuthError 503 ''temporarily_unavailable'' ''authentication continuation could not be verified''))
        (\<lambda>w1 maxAgeSatisfied.
           if \<not> maxAgeSatisfied then force_login S H w1 r
           else attempt (UserMayAccess (sv_env S) w1 (oc_ID cl) (us_ID u))
             (\<lambda>w2 _. (w2, writeOAuthError 500 ''server_error'' ''failed to evaluate client access policy''))
             (\<lambda>w2 allowed.
                if \<not> allowed then (w2, redirectAuthorizeError H redirectURI (ap_State p) ''access_denied'')
                else start_consent S w2 (new_consent H cl clientID redirectURI u p) http_Redirect
                       (writeOAuthError 500 ''server_error'' ''failed to create consent challenge'')
                       (writeOAuthError 500 ''server_error'' ''failed to persist consent challenge''))))"

definition authorize_session ::
    "'db services \<Rightarrow> oauth_handler \<Rightarrow> 'db world \<Rightarrow> http_request \<Rightarrow> oauth_client \<Rightarrow> string \<Rightarrow> string \<Rightarrow> authorize_parameters \<Rightarrow>
     'db world \<times> response" where
  "authorize_session S H w r cl clientID redirectURI p =
     (case currentSessionUser S H w r of (w1, cs, current) \<Rightarrow>
        with_cookies cs
          (case current of
             None \<Rightarrow>
               (if ap_MaxAge p \<noteq> None then force_login S H w1 r
                else (w1, http_Redirect (''/login?return_to='' @ QueryEscape (RequestURI (rq_URL r)))))
           | Some (sess, u) \<Rightarrow> authorize_user S H w1 r cl clientID redirectURI sess u p))"

definition Authorize :: "'db services \<Rightarrow> oauth_handler \<Rightarrow> 'db world \<Rightarrow> http_request \<Rightarrow> 'db world \<times> response" where
  "Authorize S H w r =
     (let clientID = query_value r ''client_id''; redirectURI = query_value r ''redirect_uri'' in
      if int (length (u_RawQuery (rq_URL r))) > maxAuthorizationQueryBytes
      then (w, writeOAuthError 400 ''invalid_request'' ''authorization request is too large'')
      else if clientID = [] \<or> redirectURI = [] \<or> query_value r ''response_type'' \<noteq> ''code''
      then (w, writeOAuthError 400 ''invalid_request'' ''client_id, redirect_uri, and response_type=code are required'')
      else attempt (client_GetByID (sv_env S) w clientID)
        (\<lambda>w1 _. (w1, writeOAuthError 400 ''invalid_request'' ''invalid client or redirect_uri''))
        (\<lambda>w1 cl.
           if \<not> HasRedirectURI cl redirectURI
           then (w1, writeOAuthError 400 ''invalid_request'' ''invalid client or redirect_uri'')
           else case authorize_parameters_of cl r of
                  Inl (state, code) \<Rightarrow> (w1, redirectAuthorizeError H redirectURI state code)
                | Inr p \<Rightarrow> authorize_session S H w1 r cl clientID redirectURI p))"

section \<open>The end-session endpoint\<close>

text \<open>\<^const>\<open>None\<close> is \<open>errEndSessionSubjectMismatch\<close>.\<close>

definition validateEndSessionSession :: "session_data result \<Rightarrow> string \<Rightarrow> store_error option + unit" where
  "validateEndSessionSession res subject =
     (case res of
        Inl e \<Rightarrow> (if e = ErrNotFound then Inr () else Inl (Some e))
      | Inr sess \<Rightarrow> (if sd_UserID sess \<noteq> subject then Inl None else Inr ()))"

definition session_unavailable :: response where
  "session_unavailable = writeOAuthError 503 ''server_error'' ''session service is temporarily unavailable''"

text \<open>The session of the cookie, if it is the subject's, is deleted; the result says whether one was.\<close>

definition end_browser_session ::
    "'db services \<Rightarrow> 'db world \<Rightarrow> http_request \<Rightarrow> string \<Rightarrow> 'db world \<times> (response + bool)" where
  "end_browser_session S w r subject =
     (case map_of (rq_Cookies r) oauthSessionCookie of
        None \<Rightarrow> (w, Inr False)
      | Some value \<Rightarrow>
          (case on_redis w (GetSession (sv_redis S) (sv_digest S) (w_redis w) value) of (w1, res) \<Rightarrow>
             (case validateEndSessionSession res subject of
                Inl None \<Rightarrow> (w1, Inl (writeOAuthError 400 ''invalid_request''
                                  ''id_token_hint does not belong to the current session''))
              | Inl (Some _) \<Rightarrow> (w1, Inl session_unavailable)
              | Inr _ \<Rightarrow>
                  (if isl res then (w1, Inr False)
                   else attempt (delete_session S w1 value)
                          (\<lambda>w2 e. (w2, if e = ErrNotFound then Inr False else Inl session_unavailable))
                          (\<lambda>w2 _. (w2, Inr True))))))"

definition session_ended :: "string \<Rightarrow> string \<Rightarrow> bool \<Rightarrow> response" where
  "session_ended postLogoutURI redirectTarget ended_now =
     (if postLogoutURI = []
      then writeJSON 200 (Text_body ''message'' (if ended_now then ''logged out'' else ''no active session''))
      else http_Redirect redirectTarget)"

definition end_session_redirect :: "oauth_handler \<Rightarrow> oauth_client \<Rightarrow> string \<Rightarrow> string \<Rightarrow> response + string" where
  "end_session_redirect H cl postLogoutURI state =
     (if postLogoutURI = [] then Inr []
      else if \<not> HasPostLogoutRedirectURI cl postLogoutURI
      then Inl (writeOAuthError 400 ''invalid_request'' ''post_logout_redirect_uri is not registered'')
      else case addQuery (oh_parse_url H) postLogoutURI [(''state'', state)] of
             None \<Rightarrow> Inl (writeOAuthError 400 ''invalid_request'' ''invalid post_logout_redirect_uri'')
           | Some target \<Rightarrow> Inr target)"

definition EndSession :: "'db services \<Rightarrow> oauth_handler \<Rightarrow> 'db world \<Rightarrow> http_request \<Rightarrow> 'db world \<times> response" where
  "EndSession S H w r =
     (let postLogoutURI = query_value r ''post_logout_redirect_uri''; state = query_value r ''state'';
          hint = query_value r ''id_token_hint'' in
      on_response (\<lambda>s. setOAuthNoStoreHeaders (with_header ''Referrer-Policy'' ''no-referrer'' s))
       (if hint = [] then
          (w, if postLogoutURI \<noteq> []
              then writeOAuthError 400 ''invalid_request'' ''id_token_hint is required for redirect''
              else writeJSON 200 (Text_body ''message'' ''no session ended; use the CSRF-protected logout endpoint''))
        else attempt (ValidateIDToken S w hint)
          (\<lambda>w1 e. (w1, if e = ErrTokenValidationUnavailable
                       then writeOAuthError 503 ''server_error'' ''logout validation is temporarily unavailable''
                       else writeOAuthError 400 ''invalid_request'' ''valid id_token_hint is required for redirect''))
          (\<lambda>w1 c.
             if length (jc_Audience c) \<noteq> 1
             then (w1, writeOAuthError 400 ''invalid_request'' ''valid id_token_hint is required for redirect'')
             else attempt (client_GetByID (sv_env S) w1 (hd (jc_Audience c)))
               (\<lambda>w2 _. (w2, writeOAuthError 400 ''invalid_request'' ''id_token_hint refers to an unknown client''))
               (\<lambda>w2 cl.
                  case end_session_redirect H cl postLogoutURI state of
                    Inl refused \<Rightarrow> (w2, refused)
                  | Inr redirectTarget \<Rightarrow>
                      attempt (end_browser_session S w2 r (jc_Subject c)) (\<lambda>w3 refused. (w3, refused))
                        (\<lambda>w3 ended_now. with_cookies [clearCookie] (w3, session_ended postLogoutURI redirectTarget ended_now))))))"

end
