(* ===== verification/Consent_Endpoint.thy ===== *)
theory Consent_Endpoint
  imports Authorize_Endpoint
begin

text \<open>
  The consent handler, \<open>internal/auth/consent.go\<close>, and the endpoints that start and verify a
  device authorization, \<open>internal/auth/device_authorization.go\<close>. The fields of the consent view
  that copy the client's public profile for display are left out, and so is the notification sent
  after a device was authorized.
\<close>

section \<open>Sessions and request bodies\<close>

definition authenticatedSession ::
    "'db services \<Rightarrow> oauth_handler \<Rightarrow> 'db world \<Rightarrow> http_request \<Rightarrow> 'db world \<times> cookie list \<times> session_data option" where
  "authenticatedSession S H w r =
     (case resolve_session S H w r of
        (w1, cs, sess) \<Rightarrow> (w1, cs, case sess of None \<Rightarrow> None | Some s \<Rightarrow> if sd_UserID s = [] then None else Some s))"

definition authorizeMutation ::
    "'db services \<Rightarrow> oauth_handler \<Rightarrow> 'db world \<Rightarrow> http_request \<Rightarrow> 'db world \<times> cookie list \<times> session_data option" where
  "authorizeMutation S H w r =
     (case authenticatedSession S H w r of
        (w1, cs, sess) \<Rightarrow>
          (w1, cs, case sess of
             None \<Rightarrow> None
           | Some s \<Rightarrow> if sd_CSRFToken s = [] \<or> rq_CSRFHeader r \<noteq> sd_CSRFToken s then None else Some s))"

definition decodeConsentRequest :: "http_request \<Rightarrow> string option" where
  "decodeConsentRequest r =
     (case rq_JSON r 4096 of
        None \<Rightarrow> None
      | Some (ms, _) \<Rightarrow>
          (case text_member ms ''challenge'' of
             None \<Rightarrow> None | Some challenge \<Rightarrow> if challenge = [] then None else Some challenge))"

definition decodeConsentDecisionRequest :: "http_request \<Rightarrow> (string \<times> string list option) option" where
  "decodeConsentDecisionRequest r =
     (case rq_JSON r (maxAuthorizationQueryBytes * 2) of
        None \<Rightarrow> None
      | Some (ms, trailing) \<Rightarrow>
          (if \<not> only_members [''challenge'', ''granted_optional_scopes''] ms \<or> trailing then None
           else case text_member ms ''challenge'' of
                  None \<Rightarrow> None
                | Some challenge \<Rightarrow>
                    (if challenge = [] then None
                     else case map_of ms ''granted_optional_scopes'' of
                            None \<Rightarrow> Some (challenge, None)
                          | Some (JTexts scopes) \<Rightarrow> Some (challenge, Some scopes)
                          | Some _ \<Rightarrow> None)))"

definition consentFlow :: "consent_data \<Rightarrow> string" where
  "consentFlow data = (if cd_Flow data = GrantDeviceCode then ''device_authorization'' else ''authorization_code'')"

definition consentAuthenticationSatisfies :: "consent_data \<Rightarrow> session_data \<Rightarrow> bool" where
  "consentAuthenticationSatisfies data sess =
     (if \<not> Satisfies (NormalizeContext (sd_AuthenticationContext sess)) (cd_RequiredAuthContext data) then False
      else if cd_MaxAgeSeconds data = None then True
      else cd_MaxAgeSatisfied data)"

definition authorizationStateTTL :: "'db services \<Rightarrow> duration" where
  "authorizationStateTTL S = ts_revocationTTL (sv_tokens S) + 5 * Minute"

definition authorizationCodeTTL :: "'db services \<Rightarrow> duration" where
  "authorizationCodeTTL S = tl_AuthorizationCode (Lifetimes (sv_tokens S))"

definition client_unchanged :: "oauth_client \<Rightarrow> int \<Rightarrow> int \<Rightarrow> bool" where
  "client_unchanged cl identityRevision authorizationRevision \<longleftrightarrow>
     normalizedClientRevision authorizationRevision = oc_AuthorizationRevision cl \<and>
     normalizedClientRevision identityRevision = oc_IdentityRevision cl"

definition pending_device ::
    "'db services \<Rightarrow> 'db world \<Rightarrow> consent_data \<Rightarrow> 'db world \<times> (device_error + device_record)" where
  "pending_device S w data =
     (case Now (sv_env S) w of (w1, now) \<Rightarrow>
        on_redis w1 (GetPending (sv_redis S) (w_redis w1) (cd_DeviceID data) (cd_DeviceRecordVersion data) now))"

definition invalid_challenge :: response where
  "invalid_challenge = writeError 400 ''invalid_or_expired_challenge''"

definition client_changed :: response where
  "client_changed = writeError 409 ''client_changed_restart_authorization''"

section \<open>Showing a consent\<close>

definition consent_view_of ::
    "string \<Rightarrow> consent_data \<Rightarrow> oauth_client \<Rightarrow> session_data \<Rightarrow> oauth_authorization option \<Rightarrow> consent_view" where
  "consent_view_of challenge data cl sess existing =
     (let previousScopes = (case existing of None \<Rightarrow> [] | Some a \<Rightarrow> oa_Scopes a);
          previousClaims = (case existing of None \<Rightarrow> [] | Some a \<Rightarrow> oa_AllowedClaims a)
      in \<lparr>cv_Challenge = challenge, cv_Flow = consentFlow data, cv_ClientID = oc_ID cl, cv_Scopes = cd_Scopes data,
          cv_RedirectURI = cd_RedirectURI data,
          cv_Permissions = consentPermissionsWithHistory (cd_Scopes data) (cd_OptionalScopes data)
                             (cd_ScopeClaims data) (cd_ScopeDetails data) previousScopes,
          cv_PreviouslyAuthorized = (existing \<noteq> None),
          cv_ApplicationChanged = (case existing of None \<Rightarrow> False | Some a \<Rightarrow> oa_ClientIdentityRevision a \<noteq> oc_IdentityRevision cl),
          cv_ReauthorizationRequired =
            (case existing of None \<Rightarrow> False | Some a \<Rightarrow> oa_ClientAuthorizationRevision a \<noteq> oc_AuthorizationRevision cl),
          cv_NewScopes = (if existing = None then [] else difference (cd_Scopes data) previousScopes),
          cv_NewClaims = (if existing = None then []
                          else difference (claimsForGrantedScopes (cd_Scopes data) (cd_ScopeClaims data)) previousClaims),
          cv_StepUpRequired = (\<not> consentAuthenticationSatisfies data sess),
          cv_RequiredACR = cd_RequiredAuthContext data, cv_MaxAge = cd_MaxAgeSeconds data\<rparr>)"

definition show_consent ::
    "'db services \<Rightarrow> 'db world \<Rightarrow> string \<Rightarrow> consent_data \<Rightarrow> session_data \<Rightarrow> 'db world \<times> response" where
  "show_consent S w challenge data sess =
     attempt (client_GetByID (sv_env S) w (cd_ClientID data)) (\<lambda>w1 _. (w1, invalid_challenge))
       (\<lambda>w1 cl.
          if \<not> client_unchanged cl (cd_ClientIdentityRevision data) (cd_ClientAuthorizationRevision data)
          then (w1, client_changed)
          else case e_parse_uuid (sv_env S) (cd_UserID data) of
                 None \<Rightarrow> (w1, writeJSON 200 (Consent_body (consent_view_of challenge data cl sess None)))
               | Some userID \<Rightarrow>
                   attempt (GetActive (sv_env S) w1 userID (cd_ClientID data))
                     (\<lambda>w2 _. (w2, writeJSON 200 (Consent_body (consent_view_of challenge data cl sess None))))
                     (\<lambda>w2 existing. (w2, writeJSON 200 (Consent_body (consent_view_of challenge data cl sess (Some existing))))))"

definition GetConsent_endpoint :: "'db services \<Rightarrow> oauth_handler \<Rightarrow> 'db world \<Rightarrow> http_request \<Rightarrow> 'db world \<times> response" where
  "GetConsent_endpoint S H w r =
     on_response setOAuthNoStoreHeaders
       (case authenticatedSession S H w r of (w1, cs, current) \<Rightarrow> with_cookies cs
          (case current of
             None \<Rightarrow> (w1, writeError 401 ''authentication_required'')
           | Some sess \<Rightarrow>
               (let challenge = query_value r ''challenge'' in
                attempt (on_redis w1 (GetConsent (sv_redis S) (sv_digest S) (w_redis w1) challenge))
                  (\<lambda>w2 _. (w2, invalid_challenge))
                  (\<lambda>w2 data.
                     if cd_UserID data \<noteq> sd_UserID sess then (w2, invalid_challenge)
                     else if cd_Flow data \<noteq> GrantDeviceCode then show_consent S w2 challenge data sess
                     else if \<not> oh_devices H then (w2, writeError 503 ''device_authorization_unavailable'')
                     else attempt (pending_device S w2 data) (\<lambda>w3 _. (w3, invalid_challenge))
                            (\<lambda>w3 _. show_consent S w3 challenge data sess)))))"

section \<open>Accepting a consent\<close>

definition code_data ::
    "consent_data \<Rightarrow> oauth_client \<Rightarrow> session_data \<Rightarrow> string list \<Rightarrow> string list \<Rightarrow> int \<Rightarrow> authorization_data" where
  "code_data data cl sess grantedScopes grantedClaims issuedAt =
     \<lparr>ad_RecordVersion = [], ad_ClientID = cd_ClientID data, ad_UserID = cd_UserID data,
      ad_RedirectURI = cd_RedirectURI data, ad_Scopes = grantedScopes, ad_AllowedClaims = Some grantedClaims,
      ad_ClaimNamesSet = True, ad_CodeChallenge = cd_CodeChallenge data, ad_ChallengeMethod = ''S256'',
      ad_Nonce = cd_Nonce data, ad_AuthVersion = cd_AuthVersion data,
      ad_AuthenticationContext = sd_AuthenticationContext sess, ad_AuthenticationMethods = sd_AuthenticationMethods sess,
      ad_AuthenticationTime = Unix (sd_AuthenticatedAt sess), ad_AuthorizationIssuedAt = issuedAt,
      ad_ClientAuthorizationRevision = oc_AuthorizationRevision cl\<rparr>"

definition server_error :: response where "server_error = writeError 500 ''server_error''"

definition issue_code ::
    "'db services \<Rightarrow> oauth_handler \<Rightarrow> 'db world \<Rightarrow> consent_data \<Rightarrow> authorization_data \<Rightarrow> 'db world \<times> response" where
  "issue_code S H w data authorization =
     (case GenerateRandomString (sv_env S) w 32 of
        (w1, None) \<Rightarrow> (w1, server_error)
      | (w1, Some code) \<Rightarrow>
          (case GenerateRandomString (sv_env S) w1 16 of (w2, version) \<Rightarrow>
             attempt (on_redis w2 (SaveAuthorizationCode (sv_redis S) (sv_digest S) (w_redis w2) code authorization
                        (authorizationCodeTTL S) version))
               (\<lambda>w3 _. (w3, server_error))
               (\<lambda>w3 _. (w3,
                  case addQuery (oh_parse_url H) (cd_RedirectURI data)
                         ([(''code'', code), (''state'', cd_State data)] @
                          (if ad_Scopes authorization \<noteq> cd_Scopes data
                           then [(''scope'', joinScopes (ad_Scopes authorization))] else [])) of
                    None \<Rightarrow> server_error
                  | Some target \<Rightarrow> writeJSON 200 (Text_body ''redirect_url'' target)))))"

definition approve_device ::
    "'db services \<Rightarrow> 'db world \<Rightarrow> device_record \<Rightarrow> consent_data \<Rightarrow> session_data \<Rightarrow> string list \<Rightarrow> string list \<Rightarrow> int \<Rightarrow>
     'db world \<times> response" where
  "approve_device S w pending data sess grantedScopes grantedClaims issuedAt =
     attempt (on_redis w (ApproveWithAuthentication (sv_redis S) (w_redis w) pending (cd_UserID data) (cd_AuthVersion data)
                grantedScopes grantedClaims issuedAt (sd_AuthenticationContext sess) (sd_AuthenticationMethods sess)
                (Unix (sd_AuthenticatedAt sess))))
       (\<lambda>w1 e. (w1, if e = DevNotFound \<or> e = DevValueMismatch then invalid_challenge
                    else writeError 503 ''device_authorization_unavailable''))
       (\<lambda>w1 _. (w1, writeJSON 200 (Text_body ''redirect_url'' ''/device?status=approved'')))"

text \<open>The grant is recorded before the code is created or the device is approved.\<close>

definition grant_consent ::
    "'db services \<Rightarrow> oauth_handler \<Rightarrow> 'db world \<Rightarrow> consent_data \<Rightarrow> device_record option \<Rightarrow> session_data \<Rightarrow> oauth_client \<Rightarrow>
     string list \<Rightarrow> 'db world \<times> response" where
  "grant_consent S H w data pending sess cl grantedScopes =
     (let grantedClaims = claimsForGrantedScopes grantedScopes (cd_ScopeClaims data) in
      case e_parse_uuid (sv_env S) (cd_UserID data) of
        None \<Rightarrow> (w, server_error)
      | Some userID \<Rightarrow>
          attempt (on_redis w (AuthorizationIssueTime (sv_redis S) (sv_digest S) (w_redis w) (cd_UserID data)
                     (cd_ClientID data) (authorizationStateTTL S)))
            (\<lambda>w1 _. (w1, server_error))
            (\<lambda>w1 issuedAt.
               attempt (UpsertExpected (sv_env S) w1 userID (cd_ClientID data) grantedScopes grantedClaims
                          (UnixMicro issuedAt) (oc_IdentityRevision cl) (oc_AuthorizationRevision cl))
                 (\<lambda>w2 e. (w2, if e = AuthClientChanged then client_changed else server_error))
                 (\<lambda>w2 _.
                    case pending of
                      Some device \<Rightarrow> approve_device S w2 device data sess grantedScopes grantedClaims issuedAt
                    | None \<Rightarrow> issue_code S H w2 data (code_data data cl sess grantedScopes grantedClaims issuedAt))))"

definition decide_consent ::
    "'db services \<Rightarrow> oauth_handler \<Rightarrow> 'db world \<Rightarrow> consent_data \<Rightarrow> device_record option \<Rightarrow> session_data \<Rightarrow>
     string list option \<Rightarrow> 'db world \<times> response" where
  "decide_consent S H w data pending sess selected =
     attempt (client_GetByID (sv_env S) w (cd_ClientID data)) (\<lambda>w1 _. (w1, client_changed))
       (\<lambda>w1 cl.
          if \<not> client_unchanged cl (cd_ClientIdentityRevision data) (cd_ClientAuthorizationRevision data)
          then (w1, client_changed)
          else case resolveGrantedScopes (cd_Scopes data) (cd_OptionalScopes data)
                      (case selected of None \<Rightarrow> cd_OptionalScopes data | Some scopes \<Rightarrow> scopes) of
                 None \<Rightarrow> (w1, writeError 400 ''invalid_scope_selection'')
               | Some grantedScopes \<Rightarrow> grant_consent S H w1 data pending sess cl grantedScopes)"

definition accept_challenge ::
    "'db services \<Rightarrow> oauth_handler \<Rightarrow> 'db world \<Rightarrow> session_data \<Rightarrow> string \<Rightarrow> string list option \<Rightarrow> 'db world \<times> response" where
  "accept_challenge S H w sess challenge selected =
     attempt (on_redis w (GetConsent (sv_redis S) (sv_digest S) (w_redis w) challenge)) (\<lambda>w1 _. (w1, invalid_challenge))
       (\<lambda>w1 shown.
          if cd_UserID shown \<noteq> sd_UserID sess then (w1, invalid_challenge)
          else if \<not> consentAuthenticationSatisfies shown sess
          then (w1, writeError 403 ''unmet_authentication_requirements'')
          else attempt (on_redis w1 (ConsumeConsentForUser (sv_redis S) (sv_digest S) (w_redis w1) challenge (sd_UserID sess)))
            (\<lambda>w2 _. (w2, invalid_challenge))
            (\<lambda>w2 data.
               if cd_AuthVersion data \<noteq> sd_AuthVersion sess then (w2, invalid_challenge)
               else if cd_Flow data \<noteq> GrantDeviceCode then decide_consent S H w2 data None sess selected
               else if \<not> oh_devices H then (w2, writeError 503 ''device_authorization_unavailable'')
               else attempt (pending_device S w2 data) (\<lambda>w3 _. (w3, invalid_challenge))
                      (\<lambda>w3 pending. decide_consent S H w3 data (Some pending) sess selected)))"

definition AcceptConsent :: "'db services \<Rightarrow> oauth_handler \<Rightarrow> 'db world \<Rightarrow> http_request \<Rightarrow> 'db world \<times> response" where
  "AcceptConsent S H w r =
     on_response setOAuthNoStoreHeaders
       (case authorizeMutation S H w r of (w1, cs, current) \<Rightarrow> with_cookies cs
          (case current of
             None \<Rightarrow> (w1, writeError 403 ''csrf_validation_failed'')
           | Some sess \<Rightarrow>
               (case decodeConsentDecisionRequest r of
                  None \<Rightarrow> (w1, writeError 400 ''invalid_request'')
                | Some (challenge, selected) \<Rightarrow> accept_challenge S H w1 sess challenge selected)))"

section \<open>Denying a consent\<close>

definition deny_device :: "'db services \<Rightarrow> 'db world \<Rightarrow> consent_data \<Rightarrow> 'db world \<times> response" where
  "deny_device S w data =
     attempt (pending_device S w data) (\<lambda>w1 _. (w1, invalid_challenge))
       (\<lambda>w1 pending.
          attempt (on_redis w1 (Deny (sv_redis S) (w_redis w1) pending))
            (\<lambda>w2 e. (w2, if e = DevNotFound \<or> e = DevValueMismatch then invalid_challenge
                         else writeError 503 ''device_authorization_unavailable''))
            (\<lambda>w2 _. (w2, writeJSON 200 (Text_body ''redirect_url'' ''/device?status=denied''))))"

definition DenyConsent :: "'db services \<Rightarrow> oauth_handler \<Rightarrow> 'db world \<Rightarrow> http_request \<Rightarrow> 'db world \<times> response" where
  "DenyConsent S H w r =
     on_response setOAuthNoStoreHeaders
       (case authorizeMutation S H w r of (w1, cs, current) \<Rightarrow> with_cookies cs
          (case current of
             None \<Rightarrow> (w1, writeError 403 ''csrf_validation_failed'')
           | Some sess \<Rightarrow>
               (case decodeConsentRequest r of
                  None \<Rightarrow> (w1, writeError 400 ''invalid_request'')
                | Some challenge \<Rightarrow>
                    attempt (on_redis w1 (ConsumeConsentForUser (sv_redis S) (sv_digest S) (w_redis w1) challenge (sd_UserID sess)))
                      (\<lambda>w2 _. (w2, invalid_challenge))
                      (\<lambda>w2 data.
                         if cd_Flow data = GrantDeviceCode then
                           (if \<not> oh_devices H then (w2, writeError 503 ''device_authorization_unavailable'')
                            else deny_device S w2 data)
                         else (w2, case addQuery (oh_parse_url H) (cd_RedirectURI data)
                                          [(''error'', ''access_denied''), (''state'', cd_State data)] of
                                     None \<Rightarrow> server_error
                                   | Some target \<Rightarrow> writeJSON 200 (Text_body ''redirect_url'' target))))))"

section \<open>Device authorization\<close>

definition device_unavailable :: response where
  "device_unavailable =
     writeOAuthError 503 ''temporarily_unavailable'' ''device authorization is temporarily unavailable''"

definition created_view :: "oauth_handler \<Rightarrow> created_device \<Rightarrow> device_view" where
  "created_view H c =
     (let verificationURI = TrimRightSlash (oh_issuer H) @ ''/device''
      in \<lparr>dv_DeviceCode = cr_DeviceCode c, dv_UserCode = cr_UserCode c, dv_VerificationURI = verificationURI,
          dv_VerificationURIComplete = verificationURI @ ''?user_code='' @ QueryEscape (cr_UserCode c),
          dv_ExpiresIn = DefaultTTL div Second, dv_Interval = DefaultInterval div Second\<rparr>)"

definition begin_device ::
    "'db services \<Rightarrow> oauth_handler \<Rightarrow> 'db world \<Rightarrow> http_request \<Rightarrow> oauth_client \<Rightarrow> string \<Rightarrow> string list \<Rightarrow> 'db world \<times> response" where
  "begin_device S H w r cl clientID scopes =
     attempt (on_redis w (ReserveInitiation (sv_redis S) (sv_digest S) (w_redis w) clientID (requestClientAddress r)))
       (\<lambda>w1 (e, retry). (w1, if e = DevRateLimited
            then writeRetryAfter retry (writeOAuthError 429 ''temporarily_unavailable'' ''too many device authorization requests'')
            else device_unavailable))
       (\<lambda>w1 _.
          attempt (on_redis (tick w1) (Create (sv_redis S) (sv_digest S) (w_redis w1)
              \<lparr>ci_ClientID = clientID, ci_Scopes = scopes, ci_OptionalScopes = intersectScopes scopes (oc_OptionalScopes cl),
               ci_ScopeClaims = Some (scopeClaimsForClient scopes cl (oh_policy H)),
               ci_ClientIdentityRevision = oc_IdentityRevision cl,
               ci_ClientAuthorizationRevision = oc_AuthorizationRevision cl, ci_TTL = 0, ci_Interval = 0\<rparr>
              (oh_draws H (w_tick w1))))
            (\<lambda>w2 _. (w2, device_unavailable))
            (\<lambda>w2 created. (w2, writeJSON 200 (Device_body (created_view H created)))))"

definition DeviceAuthorization :: "'db services \<Rightarrow> oauth_handler \<Rightarrow> 'db world \<Rightarrow> http_request \<Rightarrow> 'db world \<times> response" where
  "DeviceAuthorization S H w r =
     on_response setOAuthNoStoreHeaders
       (if \<not> oh_devices H then (w, device_unavailable)
        else if rq_Form r = None then (w, writeOAuthError 400 ''invalid_request'' ''invalid form body'')
        else attempt (authenticateTokenClient S w r [] True) (\<lambda>w1 _. (w1, writeInvalidClient))
          (\<lambda>w1 (cl, clientID).
             if \<not> HasGrant cl GrantDeviceCode
             then (w1, writeOAuthError 400 ''unauthorized_client'' ''device authorization grant is not allowed'')
             else case parseAndValidateScopes (form_value r ''scope'') (oc_Scopes cl) of
                    Inl _ \<Rightarrow> (w1, writeOAuthError 400 ''invalid_scope'' ''requested scope is not allowed'')
                  | Inr parsed \<Rightarrow>
                      (let scopes = (if form_value r ''scope'' = [] then oc_Scopes cl else parsed) in
                       if containsScope scopes ''offline_access'' \<and> \<not> HasGrant cl GrantRefreshToken
                       then (w1, writeOAuthError 400 ''invalid_scope'' ''offline_access requires refresh_token'')
                       else if length scopes > 0 \<and> length (intersectScopes scopes (oc_OptionalScopes cl)) = length scopes
                       then (w1, writeOAuthError 400 ''invalid_scope'' ''at least one requested scope must be required'')
                       else begin_device S H w1 r cl clientID scopes)))"

text \<open>Verification of a user code, which starts a consent for the device.\<close>

definition device_consent :: "oauth_handler \<Rightarrow> oauth_client \<Rightarrow> user \<Rightarrow> device_record \<Rightarrow> consent_data" where
  "device_consent H cl u pending =
     \<lparr>cd_Flow = GrantDeviceCode, cd_ClientID = oc_ID cl, cd_UserID = us_ID u, cd_RedirectURI = [],
      cd_Scopes = dr_Scopes pending, cd_OptionalScopes = dr_OptionalScopes pending, cd_ScopeClaims = dr_ScopeClaims pending,
      cd_ScopeDetails = scopeDetailsForScopes (dr_Scopes pending) (oh_policy H), cd_State = [], cd_CodeChallenge = [],
      cd_ChallengeMethod = [], cd_Nonce = [], cd_AuthVersion = us_AuthVersion u,
      cd_ClientIdentityRevision = oc_IdentityRevision cl, cd_ClientAuthorizationRevision = oc_AuthorizationRevision cl,
      cd_RequiredAuthContext = [], cd_MaxAgeSeconds = None, cd_MaxAgeSatisfied = False,
      cd_DeviceID = dr_DeviceID pending, cd_DeviceRecordVersion = dr_RecordVersion pending\<rparr>"

definition verify_client ::
    "'db services \<Rightarrow> oauth_handler \<Rightarrow> 'db world \<Rightarrow> user \<Rightarrow> device_record \<Rightarrow> 'db world \<times> response" where
  "verify_client S H w u pending =
     attempt (client_GetByID (sv_env S) w (dr_ClientID pending)) (\<lambda>w1 _. (w1, client_changed))
       (\<lambda>w1 cl.
          if \<not> HasGrant cl GrantDeviceCode \<or>
             \<not> client_unchanged cl (dr_ClientIdentityRevision pending) (dr_ClientAuthorizationRevision pending)
          then (w1, client_changed)
          else if isl (parseAndValidateScopes (joinScopes (dr_Scopes pending)) (oc_Scopes cl)) then (w1, client_changed)
          else attempt (UserMayAccess (sv_env S) w1 (oc_ID cl) (us_ID u))
            (\<lambda>w2 _. (w2, writeError 503 ''device_authorization_unavailable''))
            (\<lambda>w2 allowed.
               if \<not> allowed then (w2, writeError 403 ''client_access_denied'')
               else start_consent S w2 (device_consent H cl u pending)
                      (\<lambda>target. writeJSON 200 (Text_body ''consent_url'' target)) server_error
                      (writeError 503 ''device_authorization_unavailable'')))"

definition verify_user_code ::
    "'db services \<Rightarrow> oauth_handler \<Rightarrow> 'db world \<Rightarrow> http_request \<Rightarrow> user \<Rightarrow> string \<Rightarrow> 'db world \<times> response" where
  "verify_user_code S H w r u userCode =
     attempt (on_redis w (ReserveVerification (sv_redis S) (sv_digest S) (w_redis w) (us_ID u) (requestClientAddress r)))
       (\<lambda>w1 (e, retry). (w1, if e = DevRateLimited
            then writeRetryAfter retry (writeError 429 ''too_many_device_verification_attempts'')
            else writeError 503 ''device_authorization_unavailable''))
       (\<lambda>w1 _.
          case Now (sv_env S) w1 of (w2, now) \<Rightarrow>
            attempt (on_redis w2 (FindPendingByUserCode (sv_redis S) (sv_digest S) (w_redis w2) userCode now))
              (\<lambda>w3 e. (w3, if e = DevNotFound then writeError 400 ''invalid_or_expired_user_code''
                           else writeError 503 ''device_authorization_unavailable''))
              (\<lambda>w3 pending. verify_client S H w3 u pending))"

definition decode_user_code :: "http_request \<Rightarrow> string option" where
  "decode_user_code r =
     (case rq_JSON r 4096 of
        None \<Rightarrow> None
      | Some (ms, trailing) \<Rightarrow>
          (if \<not> only_members [''user_code''] ms \<or> trailing then None
           else case text_member ms ''user_code'' of
                  None \<Rightarrow> None
                | Some userCode \<Rightarrow> if NormalizeUserCode userCode = [] then None else Some userCode))"

definition PrepareDeviceAuthorization ::
    "'db services \<Rightarrow> oauth_handler \<Rightarrow> 'db world \<Rightarrow> http_request \<Rightarrow> 'db world \<times> response" where
  "PrepareDeviceAuthorization S H w r =
     on_response setOAuthNoStoreHeaders
       (if \<not> oh_devices H then (w, writeError 503 ''device_authorization_unavailable'')
        else case decode_user_code r of
               None \<Rightarrow> (w, writeError 400 ''invalid_request'')
             | Some userCode \<Rightarrow>
                 (case currentSessionUser S H w r of (w1, cs, current) \<Rightarrow> with_cookies cs
                    (case current of
                       None \<Rightarrow> (w1, writeError 401 ''authentication_required'')
                     | Some (_, u) \<Rightarrow> verify_user_code S H w1 r u userCode)))"

end
