(* ===== verification/Http_Frame.thy ===== *)
theory Http_Frame
  imports Consent_Endpoint Token_Issue
begin

text \<open>
  What a request to an endpoint may do. \<open>handles S P w w'\<close>: on Redis a sequence of store
  operations that satisfy \<open>P\<close>, and in PostgreSQL no change of users, allowlists and keys, and of
  the clients only the time their secret was last used. The rules follow the shape of the handlers,
  so that a handler is one application of them.
\<close>

section \<open>The relation\<close>

definition client_core :: "oauth_client \<Rightarrow> oauth_client" where
  "client_core c = c\<lparr>oc_SecretLastUsedAt := None\<rparr>"

definition same_accounts :: "sql_tables \<Rightarrow> sql_tables \<Rightarrow> bool" where
  "same_accounts t t' \<longleftrightarrow>
     t_users t' = t_users t \<and> t_access t' = t_access t \<and> t_jwk t' = t_jwk t \<and>
     (\<forall>i. map_option client_core (map_of (t_clients t') i) = map_option client_core (map_of (t_clients t) i))"

definition handles :: "'db services \<Rightarrow> (store_op \<Rightarrow> bool) \<Rightarrow> 'db world \<Rightarrow> 'db world \<Rightarrow> bool" where
  "handles S P w w' \<longleftrightarrow>
     does (sv_redis S) (sv_digest S) P (w_redis w) (w_redis w') \<and> same_accounts (w_sql w) (w_sql w')"

lemma same_accounts_refl [simp]: "same_accounts t t"
  by (simp add: same_accounts_def)

lemma same_accounts_trans: "same_accounts t t1 \<Longrightarrow> same_accounts t1 t2 \<Longrightarrow> same_accounts t t2"
  by (simp add: same_accounts_def)

lemma same_accounts_grants: "same_but_grants t t' \<Longrightarrow> same_accounts t t'"
  by (simp add: same_accounts_def same_but_grantsD)

lemma handles_refl [simp]: "handles S P w w"
  by (simp add: handles_def)

lemma handles_trans: "handles S P w w1 \<Longrightarrow> handles S P w1 w2 \<Longrightarrow> handles S P w w2"
  by (auto simp: handles_def intro: does_trans same_accounts_trans)

lemma handles_serves: "serves S P w w' \<Longrightarrow> handles S P w w'"
  by (simp add: serves_def handles_def same_accounts_grants)

lemma handles_mono: "handles S P w w' \<Longrightarrow> (\<And>op. P op \<Longrightarrow> Q op) \<Longrightarrow> handles S Q w w'"
  by (auto simp: handles_def intro: does_mono)

lemma handles_same: "w_redis w' = w_redis w \<Longrightarrow> same_accounts (w_sql w) (w_sql w') \<Longrightarrow> handles S P w w'"
  by (simp add: handles_def)

lemma handles_op:
  "P op \<Longrightarrow> fst m = exec (sv_redis S) (sv_digest S) op (w_redis w) \<Longrightarrow> handles S P w (fst (on_redis w m))"
  by (intro handles_serves serves_op)

section \<open>Rules\<close>

lemma handles_pair: "handles S P w (fst (w, x))"
  by simp

lemma handles_attempt:
  "handles S P w (fst m) \<Longrightarrow> (\<And>w' e. handles S P w' (fst (f w' e))) \<Longrightarrow> (\<And>w' x. handles S P w' (fst (g w' x))) \<Longrightarrow>
   handles S P w (fst (attempt m f g))"
  by (cases m; cases "snd m") (auto intro: handles_trans)

lemma handles_if:
  "(b \<Longrightarrow> handles S P w (fst x)) \<Longrightarrow> (\<not> b \<Longrightarrow> handles S P w (fst y)) \<Longrightarrow> handles S P w (fst (if b then x else y))"
  by simp

lemma handles_option:
  "handles S P w (fst x) \<Longrightarrow> (\<And>a. handles S P w (fst (f a))) \<Longrightarrow>
   handles S P w (fst (case v of None \<Rightarrow> x | Some a \<Rightarrow> f a))"
  by (cases v) auto

lemma handles_sum:
  "(\<And>a. handles S P w (fst (f a))) \<Longrightarrow> (\<And>b. handles S P w (fst (g b))) \<Longrightarrow>
   handles S P w (fst (case v of Inl a \<Rightarrow> f a | Inr b \<Rightarrow> g b))"
  by (cases v) auto

lemma handles_prod:
  "(\<And>a b. handles S P w (fst (f a b))) \<Longrightarrow> handles S P w (fst (case p of (a, b) \<Rightarrow> f a b))"
  by (cases p) auto

lemma handles_world:
  "handles S P w (fst p) \<Longrightarrow> (\<And>w' b. handles S P w' (fst (f w' b))) \<Longrightarrow>
   handles S P w (fst (case p of (w', b) \<Rightarrow> f w' b))"
  by (cases p) (auto intro: handles_trans)

lemma handles_fst: "handles S P w w' \<Longrightarrow> handles S P w (fst (w', x))"
  by simp

lemma handles_shape:
  "handles S P w (fst p) \<Longrightarrow> handles S P w (fst (on_response h p))"
  "handles S P w (fst p) \<Longrightarrow> handles S P w (fst (with_cookies cs p))"
  "handles S P w (fst m) \<Longrightarrow> handles S P w (fst (on_result k m))"
  by simp_all

text \<open>Pairs that carry no world.\<close>

lemmas handles_pairs =
  handles_prod [where ?'a = oauth_client] handles_prod [where ?'a = bool] handles_prod [where ?'a = device_error]
  handles_prod [where ?'a = device_record] handles_prod [where ?'a = "char list"] handles_prod [where ?'a = session_data]
  handles_prod [where ?'a = "cookie list"]

lemmas handles_intros =
  handles_pair handles_attempt handles_if handles_option handles_sum handles_pairs handles_world handles_shape

section \<open>Clocks, random values and tables\<close>

lemma handles_environment:
  "handles S P w (tick w)"
  "handles S P w (fst (Now (sv_env S) w))" "handles S P w (fst (GenerateRandomString (sv_env S) w n))"
  "handles S P w (fst (client_GetByID (sv_env S) w i))" "handles S P w (fst (user_GetByID (sv_env S) w i))"
  "handles S P w (fst (UserMayAccess (sv_env S) w i u))"
  by (simp_all add: handles_same)

lemma GetActive_world [simp]:
  "w_redis (fst (GetActive E w u c)) = w_redis w" "w_sql (fst (GetActive E w u c)) = w_sql w"
  by (auto simp: GetActive_def query_def split: sql_fate.splits option.splits sum.splits prod.splits sql_error.splits)

lemma AuthenticateClient_frame:
  "w_redis (fst (AuthenticateClient h E w i s)) = w_redis w"
  "same_accounts (w_sql w) (w_sql (fst (AuthenticateClient h E w i s)))"
proof -
  show "w_redis (fst (AuthenticateClient h E w i s)) = w_redis w"
    by (simp add: AuthenticateClient_def split_beta)
  have "same_accounts (w_sql (fst (Now E w))) (w_sql (fst (AuthenticateClient h E w i s)))"
    unfolding AuthenticateClient_def split_beta
    by (rule transact_relates [of same_accounts])
       (auto simp: same_accounts_def update_conv client_core_def split: option.split_asm if_split_asm)
  then show "same_accounts (w_sql w) (w_sql (fst (AuthenticateClient h E w i s)))" by simp
qed

lemma grants_frame:
  "w_redis (fst (UpsertExpected E w u c sc cl t a b)) = w_redis w"
  "same_but_grants (w_sql w) (w_sql (fst (UpsertExpected E w u c sc cl t a b)))"
  "w_redis (fst (Revoke E w u c t)) = w_redis w" "same_but_grants (w_sql w) (w_sql (fst (Revoke E w u c t)))"
proof -
  have u: "same_but_grants t0 t'" if "upsert_tx i u c sc cl t a b t0 = Inr (t', x)" for i u c sc cl t a b t0 t' x
    using that by (auto simp: upsert_tx_def Let_def same_but_grants_def split: option.split_asm if_split_asm)
  have r: "same_but_grants t0 t'" if "revoke_tx u c t t0 = Inr (t', x)" for t0 t' x
    using that by (auto simp: revoke_tx_def same_but_grants_def split: option.split_asm if_split_asm)
  show "w_redis (fst (UpsertExpected E w u c sc cl t a b)) = w_redis w"
    by (simp add: UpsertExpected_def upsert_def split_beta)
  have "same_but_grants (w_sql w1) (w_sql (fst (transact E e w1 (upsert_tx i u c sc cl t a b))))"
    for w1 :: "'a world" and e i sc cl
    by (rule transact_relates [of same_but_grants]) (auto intro: u)
  from this [of "fst (NewUUID E w)"]
  show "same_but_grants (w_sql w) (w_sql (fst (UpsertExpected E w u c sc cl t a b)))"
    by (simp add: UpsertExpected_def upsert_def split_beta)
  show "w_redis (fst (Revoke E w u c t)) = w_redis w" by (simp add: Revoke_def)
  show "same_but_grants (w_sql w) (w_sql (fst (Revoke E w u c t)))"
    unfolding Revoke_def by (rule transact_relates [of same_but_grants]) (auto intro: r)
qed

lemma handles_tables:
  "handles S P w (fst (GetActive (sv_env S) w u c))"
  "handles S P w (fst (AuthenticateClient (sv_sha256 S) (sv_env S) w i s))"
  "handles S P w (fst (UpsertExpected (sv_env S) w u c sc cl t a b))"
  "handles S P w (fst (Revoke (sv_env S) w u c t))"
  by (auto intro: handles_same AuthenticateClient_frame grants_frame same_accounts_grants)

section \<open>Store operations\<close>

text \<open>The steps of a request: those that keep the lifetimes of token families.\<close>

lemma lifetimes_free [simp]:
  "lifetimes rt Read" "lifetimes rt (Code_op c)" "lifetimes rt (Ceremony_op m)" "lifetimes rt (Clock_op k)"
  "lifetimes rt (Session_op s)" "lifetimes rt (Device_op d)"
  by (simp_all add: lifetimes_def)

lemma handles_reads:
  assumes "P Read"
  shows "handles S P w (fst (on_redis w (GetSession (sv_redis S) (sv_digest S) (w_redis w) i)))"
    and "handles S P w (fst (on_redis w (GetConsent (sv_redis S) (sv_digest S) (w_redis w) i)))"
    and "handles S P w (fst (on_redis w (GetPending (sv_redis S) (w_redis w) i v now)))"
  by (rule handles_op [where op = Read and P = P, OF assms];
      simp add: GetSession_def GetConsent_def GetPending_def getByID_def fst_reads fst_call_read)+

lemma handles_GetAuthorizationCode:
  "handles S (lifetimes rt) w (fst (on_redis w (GetAuthorizationCode (sv_redis S) (sv_digest S) (w_redis w) c)))"
proof -
  note r = does_read [of "lifetimes rt", OF lifetimes_free(1)]
  have "does (sv_redis S) (sv_digest S) (lifetimes rt) db (fst (GetAuthorizationCode (sv_redis S) (sv_digest S) db c))" for db
    unfolding GetAuthorizationCode_def split_beta
    by (cases "snd (getJSON (sv_redis S) db (secretKey (sv_digest S) codePrefix c) decode_code)")
       (auto simp: fst_reads split: sum.split intro: does_trans [OF r r] r)
  then show ?thesis by (simp add: handles_def)
qed

lemma handles_FindPendingByUserCode:
  "handles S (lifetimes rt) w (fst (on_redis w (FindPendingByUserCode (sv_redis S) (sv_digest S) (w_redis w) c now)))"
proof -
  note r = does_read [of "lifetimes rt", OF lifetimes_free(1)]
  have "does (sv_redis S) (sv_digest S) (lifetimes rt) db (fst (FindPendingByUserCode (sv_redis S) (sv_digest S) db c now))" for db
  proof -
    have g: "fst (getByID (sv_redis S) d i now) = snd (LINK (sv_redis S) d)" for d i
      by (simp add: getByID_def fst_call_read)
    show ?thesis
      unfolding FindPendingByUserCode_def Let_def
      by (auto simp: fst_call_read g intro!: fst_and_thenI [of "does (sv_redis S) (sv_digest S) (lifetimes rt) db"]
          intro: does_trans [OF r r] r)
  qed
  then show ?thesis by (simp add: handles_def)
qed

lemma handles_codes:
  "handles S (lifetimes rt) w (fst (on_redis w (ConsumeAuthorizationCodeIfMatch (sv_redis S) (sv_digest S) (w_redis w) c d ttl)))"
  "handles S (lifetimes rt) w (fst (on_redis w (SaveAuthorizationCode (sv_redis S) (sv_digest S) (w_redis w) c d ttl v)))"
  "handles S (lifetimes rt) w (fst (on_redis w (SaveConsent (sv_redis S) (sv_digest S) (w_redis w) ch cd ttl)))"
  "handles S (lifetimes rt) w (fst (on_redis w (ConsumeConsentForUser (sv_redis S) (sv_digest S) (w_redis w) ch u)))"
  "handles S (lifetimes rt) w (fst (on_redis w (ConsumeOAuthReauthentication (sv_redis S) (sv_digest S) (w_redis w) t)))"
  "handles S (lifetimes rt) w (fst (on_redis w (SaveOAuthReauthentication (sv_redis S) (sv_digest S) (w_redis w) t rd ttl)))"
  by (rule handles_op [where op = "Code_op (Consume_code_if_match c d ttl)"]
      handles_op [where op = "Code_op (Save_code c d ttl v)"]
      handles_op [where op = "Code_op (Save_consent ch cd ttl)"]
      handles_op [where op = "Code_op (Consume_consent_for_user ch u)"]
      handles_op [where op = "Ceremony_op (Consume_reauthentication t)"]
      handles_op [where op = "Ceremony_op (Save_reauthentication t rd ttl)"]; simp)+

lemma handles_clock:
  "handles S (lifetimes rt) w (fst (on_redis w (AuthorizationIssueTime (sv_redis S) (sv_digest S) (w_redis w) u c ttl)))"
  "handles S (lifetimes rt) w (fst (on_redis w (RevokeUserClientAuthorization (sv_redis S) (sv_digest S) (w_redis w) u c ttl)))"
  by (rule handles_op [where op = "Clock_op (Issue_time u c ttl)"]
      handles_op [where op = "Clock_op (Revoke_authorization u c ttl)"]; simp)+

lemma handles_sessions:
  assumes "\<And>s. P (Session_op s)"
  shows "handles S P w (fst (delete_session S w i))"
    and "handles S P w (fst (update_session S w i d d' ttl))"
  unfolding delete_session_def update_session_def
  by (rule handles_op [where op = "Session_op (Delete_session i)" and P = P, OF assms]
      handles_op [where op = "Session_op (Update_session i d' (sd_AuthVersion d) (sd_SessionVersion d) ttl)" and P = P, OF assms]; simp)+

lemma handles_devices:
  "handles S (lifetimes rt) w (fst (on_redis w (ConsumeApproved (sv_redis S) (w_redis w) d)))"
  "handles S (lifetimes rt) w (fst (on_redis w (Poll (sv_redis S) (sv_digest S) (w_redis w) dc c now)))"
  "handles S (lifetimes rt) w (fst (on_redis w (ApproveWithAuthentication (sv_redis S) (w_redis w) d u v sc cl t ac am at)))"
  "handles S (lifetimes rt) w (fst (on_redis w (Deny (sv_redis S) (w_redis w) d)))"
  "handles S (lifetimes rt) w (fst (on_redis w (ReserveInitiation (sv_redis S) (sv_digest S) (w_redis w) c ip)))"
  "handles S (lifetimes rt) w (fst (on_redis w (ReserveVerification (sv_redis S) (sv_digest S) (w_redis w) u ip)))"
  "handles S (lifetimes rt) w (fst (on_redis (tick w) (Create (sv_redis S) (sv_digest S) (w_redis w) i draw)))"
proof -
  show "handles S (lifetimes rt) w (fst (on_redis (tick w) (Create (sv_redis S) (sv_digest S) (w_redis w) i draw)))"
    using handles_op [where op = "Device_op (Create_device i draw)" and P = "lifetimes rt" and w = "tick w" and S = S
        and m = "Create (sv_redis S) (sv_digest S) (w_redis w) i draw"]
    by (auto intro: handles_trans handles_environment)
qed (rule handles_op [where op = "Device_op (Consume_device d)"]
      handles_op [where op = "Device_op (Poll_device dc c now)"]
      handles_op [where op = "Device_op (Approve_device d u v sc cl t ac am at)"]
      handles_op [where op = "Device_op (Deny_device d)"]
      handles_op [where op = "Device_op (Reserve_initiation c ip)"]
      handles_op [where op = "Device_op (Reserve_verification u ip)"]; simp)+

lemma token_calls_handled:
  assumes "issues_within rt (sv_tokens S)"
  shows "handles S (lifetimes rt) w (fst (GenerateAuthorizationCodeTokenPair S w c u sc ac v t r a b))"
    and "handles S (lifetimes rt) w (fst (GenerateClientTokenPair S w c sc))"
    and "handles S (lifetimes rt) w (fst (RefreshTokenWithClaimPolicy S w tok c sc cm))"
    and "handles S (lifetimes rt) w (fst (RevokeTokenForClient S w tok c))"
    and "handles S (lifetimes rt) w (fst (IntrospectTokenForClient S w tok c sc))"
    and "handles S (lifetimes rt) w (fst (ValidateAccessToken S w tok))"
  by (rule handles_mono [OF handles_serves token_step_lifetimes], rule token_requests_serve [OF assms] serves_checks(5),
      assumption)+

lemma subject_version_world [simp]:
  "w_redis (fst (subject_version S w u)) = w_redis w" "w_sql (fst (subject_version S w u)) = w_sql w"
  by (auto simp: subject_version_def split: option.split)

lemma GenerateIDToken_world:
  "w_redis (fst (GenerateIDToken S w c u ac n info a)) = w_redis w"
  "w_sql (fst (GenerateIDToken S w c u ac n info a)) = w_sql w"
proof -
  have "w_redis (fst (GenerateIDToken S w c u ac n info a)) = w_redis w \<and>
      w_sql (fst (GenerateIDToken S w c u ac n info a)) = w_sql w"
    unfolding GenerateIDToken_def
    by (rule fst_and_thenI [of "\<lambda>x. w_redis x = w_redis w \<and> w_sql x = w_sql w"], simp,
        rule fst_and_thenI [of "\<lambda>x. w_redis x = w_redis w \<and> w_sql x = w_sql w"])
       (auto simp: split_beta Let_def applyAuthenticationMapClaims_world)
  then show "w_redis (fst (GenerateIDToken S w c u ac n info a)) = w_redis w"
    "w_sql (fst (GenerateIDToken S w c u ac n info a)) = w_sql w" by simp_all
qed

lemma ValidateIDToken_world:
  "w_redis (fst (ValidateIDToken S w t)) = w_redis w" "w_sql (fst (ValidateIDToken S w t)) = w_sql w"
proof -
  obtain w1 res where p: "parseSignedToken S w t = (w1, res)" by fastforce
  then have "w_redis w1 = w_redis w" "w_sql w1 = w_sql w"
    using parseSignedToken_world [of S w t] by auto
  then have "w_redis (fst (ValidateIDToken S w t)) = w_redis w \<and> w_sql (fst (ValidateIDToken S w t)) = w_sql w"
    by (cases res)
       (auto simp: ValidateIDToken_def p intro!: fst_and_thenI [of "\<lambda>x. w_redis x = w_redis w \<and> w_sql x = w_sql w"])
  then show "w_redis (fst (ValidateIDToken S w t)) = w_redis w" "w_sql (fst (ValidateIDToken S w t)) = w_sql w" by simp_all
qed

lemma handles_ids:
  "handles S P w (fst (GenerateIDToken S w c u ac n info a))"
  "handles S P w (fst (ValidateIDToken S w t))"
  by (simp_all add: handles_same GenerateIDToken_world ValidateIDToken_world)

lemmas handles_steps = handles_environment handles_tables handles_reads [where P = "lifetimes rt" for rt, OF lifetimes_free(1)] handles_GetAuthorizationCode
  handles_FindPendingByUserCode handles_codes handles_clock handles_sessions [where P = "lifetimes rt" for rt, OF lifetimes_free(5)] handles_devices handles_ids

end
