(* ===== verification/Http_Requests.thy ===== *)
theory Http_Requests
  imports Http_Frame
begin

text \<open>
  The endpoints as one type of requests, in the order of \<open>Routes\<close> of
  \<open>internal/auth/handler.go\<close> and of the consent and device routes of the server, and the proof that
  every request is a sequence of store operations that keeps what the token families need.
\<close>

datatype oauth_request =
    Authorize_request http_request
  | Device_authorization_request http_request
  | Token_request http_request
  | Revoke_request http_request
  | Introspect_request http_request
  | UserInfo_request http_request
  | End_session_request http_request
  | Get_consent_request http_request
  | Accept_consent_request http_request
  | Deny_consent_request http_request
  | Verify_device_request http_request

fun handle :: "'db services \<Rightarrow> oauth_handler \<Rightarrow> 'db world \<Rightarrow> oauth_request \<Rightarrow> 'db world \<times> response" where
  "handle S H w (Authorize_request r) = Authorize S H w r"
| "handle S H w (Device_authorization_request r) = DeviceAuthorization S H w r"
| "handle S H w (Token_request r) = Token S H w r"
| "handle S H w (Revoke_request r) = Revoke_endpoint S w r"
| "handle S H w (Introspect_request r) = Introspect S w r"
| "handle S H w (UserInfo_request r) = UserInfo S H w r"
| "handle S H w (End_session_request r) = EndSession S H w r"
| "handle S H w (Get_consent_request r) = GetConsent_endpoint S H w r"
| "handle S H w (Accept_consent_request r) = AcceptConsent S H w r"
| "handle S H w (Deny_consent_request r) = DenyConsent S H w r"
| "handle S H w (Verify_device_request r) = PrepareDeviceAuthorization S H w r"

definition handle_all :: "'db services \<Rightarrow> oauth_handler \<Rightarrow> oauth_request list \<Rightarrow> 'db world \<Rightarrow> 'db world" where
  "handle_all S H rs w = fold (\<lambda>r w. fst (handle S H w r)) rs w"

section \<open>Helpers of the handlers\<close>

lemma authenticateTokenClient_handled: "handles S (lifetimes rt) w (fst (authenticateTokenClient S w r e b))"
  unfolding authenticateTokenClient_def Let_def by (intro handles_intros handles_steps)

lemma rejectAuthorizationCodeReuse_handled: "handles S (lifetimes rt) w (fst (rejectAuthorizationCodeReuse S w d))"
  unfolding rejectAuthorizationCodeReuse_def by (intro handles_intros handles_steps)

text \<open>Resolving a session reads it, and writes it back or deletes it.\<close>

definition session_step :: "store_op \<Rightarrow> bool" where
  "session_step op = (case op of Session_op _ \<Rightarrow> True | Read \<Rightarrow> True | _ \<Rightarrow> False)"

lemma session_step_simps [simp]: "session_step Read" "session_step (Session_op s)"
  by (simp_all add: session_step_def)

lemma resolve_session_steps: "handles S session_step w (fst (resolve_session S H w r))"
proof -
  note steps = handles_environment handles_reads [of session_step, OF session_step_simps(1)]
    handles_sessions [of session_step, OF session_step_simps(2)]
  have stored: "handles S session_step w (fst (write_back S m w i d now))" for w m i d now
    unfolding write_back_def Let_def by (intro handles_intros steps)
  have refresh: "handles S session_step w (fst (refresh_session S m w i d))" for w m i d
    unfolding refresh_session_def Let_def by (intro handles_intros steps stored handles_fst)
  have get: "handles S session_step w (fst (middleware_GetSession S m w r))" for m
    unfolding middleware_GetSession_def by (intro handles_intros steps refresh)
  have keep: "fst (case p of (w1, cs, Inl e) \<Rightarrow> (w1, f cs e) | (w1, cs, Inr a) \<Rightarrow> (w1, g cs a)) = fst p"
    for p :: "'a world \<times> 'b \<times> ('c + 'd)" and f g
    by (auto split: prod.split sum.split)
  have keep': "fst (case p of (w1, Inl e) \<Rightarrow> (w1, f e) | (w1, Inr a) \<Rightarrow> (w1, g a)) = fst p"
    for p :: "'a world \<times> ('c + 'd)" and f g
    by (auto split: prod.split sum.split)
  show ?thesis
    unfolding resolve_session_def
    by (auto simp only: keep keep' split: option.split intro!: handles_pair get steps)
qed

lemma resolve_session_handled: "handles S (lifetimes rt) w (fst (resolve_session S H w r))"
  by (rule handles_mono [OF resolve_session_steps]) (simp add: session_step_def lifetimes_def split: store_op.splits)

lemma session_user_handled: "handles S P w (fst (session_user S w d))"
  by (rule handles_same) (auto simp: session_user_def user_GetByID_def query_def split: option.split sql_fate.split sum.split)

lemma currentSessionUser_handled: "handles S (lifetimes rt) w (fst (currentSessionUser S H w r))"
proof -
  obtain w1 cs o1 where p: "resolve_session S H w r = (w1, cs, o1)" by (cases "resolve_session S H w r")
  then have "handles S (lifetimes rt) w w1" using resolve_session_handled [of S rt w H r] by simp
  then show ?thesis
    by (cases o1) (auto simp: currentSessionUser_def p split_beta intro: handles_trans session_user_handled)
qed

lemma authenticatedSession_handled:
  "handles S (lifetimes rt) w (fst (authenticatedSession S H w r))"
  "handles S (lifetimes rt) w (fst (authorizeMutation S H w r))"
  using resolve_session_handled [of S rt w H r] by (simp_all add: authenticatedSession_def authorizeMutation_def split_beta)

lemma start_consent_handled: "handles S (lifetimes rt) w (fst (start_consent S w d f a b))"
proof -
  obtain w1 o1 where p: "GenerateRandomString (sv_env S) w 32 = (w1, o1)" by fastforce
  have 1: "handles S (lifetimes rt) w w1" using handles_environment(3) [of S "lifetimes rt" w 32] by (simp add: p)
  show ?thesis
    unfolding start_consent_def p prod.case
    by (rule handles_trans [OF 1]) (intro handles_intros handles_steps)
qed

lemma issue_code_handled: "handles S (lifetimes rt) w (fst (issue_code S H w d a))"
proof -
  obtain w1 o1 where p: "GenerateRandomString (sv_env S) w 32 = (w1, o1)" by fastforce
  have 1: "handles S (lifetimes rt) w w1" using handles_environment(3) [of S "lifetimes rt" w 32] by (simp add: p)
  show ?thesis
    unfolding issue_code_def p prod.case
    by (rule handles_trans [OF 1]) (intro handles_intros handles_steps)
qed

lemma force_login_handled: "handles S (lifetimes rt) w (fst (force_login S H w r))"
proof -
  have "handles S (lifetimes rt) w (fst (createOAuthReauthenticationContinuation S H w r))"
  proof -
    obtain w1 o1 where p: "GenerateRandomString (sv_env S) w 32 = (w1, o1)" by fastforce
    have 1: "handles S (lifetimes rt) w w1" using handles_environment(3) [of S "lifetimes rt" w 32] by (simp add: p)
    show ?thesis
      unfolding createOAuthReauthenticationContinuation_def p prod.case
      by (rule handles_trans [OF 1]) (intro handles_intros handles_steps)
  qed
  then show ?thesis unfolding force_login_def by (intro handles_intros)
qed

lemma reauthentication_handled: "handles S (lifetimes rt) w (fst (oauthReauthenticationSatisfied S w r d a))"
  unfolding oauthReauthenticationSatisfied_def fresh_enough_def Let_def by (intro handles_intros handles_steps)

lemma pending_device_handled: "handles S (lifetimes rt) w (fst (pending_device S w d))"
  unfolding pending_device_def by (intro handles_intros handles_steps)

lemma end_browser_session_handled: "handles S (lifetimes rt) w (fst (end_browser_session S w r s))"
  unfolding end_browser_session_def by (intro handles_intros handles_steps)

lemmas handles_helpers = authenticateTokenClient_handled rejectAuthorizationCodeReuse_handled currentSessionUser_handled
  authenticatedSession_handled start_consent_handled issue_code_handled force_login_handled reauthentication_handled
  pending_device_handled end_browser_session_handled

section \<open>Endpoints\<close>

lemma Token_handled:
  assumes "issues_within rt (sv_tokens S)"
  shows "handles S (lifetimes rt) w (fst (Token S H w r))"
proof -
  note calls = token_calls_handled [OF assms]
  have issue: "handles S (lifetimes rt) w (fst (issue_grant S H w cl u i sc ac v t rev a n e))" for w cl u i sc ac v t rev a n e
    unfolding issue_grant_def by (intro handles_intros handles_steps calls)
  have code: "handles S (lifetimes rt) w (fst (handleAuthorizationCodeGrant S H w r))" for w
    unfolding handleAuthorizationCodeGrant_def exchange_code_def redeem_code_def Let_def
    by (intro handles_intros handles_steps handles_helpers issue)
  have device: "handles S (lifetimes rt) w (fst (handleDeviceCodeGrant S H w r))" for w
    unfolding handleDeviceCodeGrant_def exchange_device_def redeem_device_def Let_def
    by (intro handles_intros handles_steps handles_helpers issue)
  have others: "handles S (lifetimes rt) w (fst (handleClientCredentialsGrant S w r))"
      "handles S (lifetimes rt) w (fst (handleRefreshTokenGrant S H w r))" for w
    unfolding handleClientCredentialsGrant_def handleRefreshTokenGrant_def Let_def
    by (intro handles_intros handles_steps handles_helpers calls)+
  show ?thesis unfolding Token_def Let_def by (intro handles_intros code device others)
qed

lemma token_users_handled:
  assumes "issues_within rt (sv_tokens S)"
  shows "handles S (lifetimes rt) w (fst (Revoke_endpoint S w r))"
    and "handles S (lifetimes rt) w (fst (Introspect S w r))"
    and "handles S (lifetimes rt) w (fst (UserInfo S H w r))"
  unfolding Revoke_endpoint_def Introspect_def UserInfo_def Let_def
  by (intro handles_intros handles_steps handles_helpers token_calls_handled [OF assms])+

lemma browser_handled:
  "handles S (lifetimes rt) w (fst (Authorize S H w r))"
  "handles S (lifetimes rt) w (fst (EndSession S H w r))"
  unfolding Authorize_def authorize_session_def authorize_user_def EndSession_def Let_def
  by (intro handles_intros handles_steps handles_helpers)+

lemma consent_handled:
  "handles S (lifetimes rt) w (fst (GetConsent_endpoint S H w r))"
  "handles S (lifetimes rt) w (fst (AcceptConsent S H w r))"
  "handles S (lifetimes rt) w (fst (DenyConsent S H w r))"
  unfolding GetConsent_endpoint_def show_consent_def AcceptConsent_def accept_challenge_def decide_consent_def
    grant_consent_def approve_device_def DenyConsent_def deny_device_def Let_def
  by (intro handles_intros handles_steps handles_helpers)+

lemma device_handled:
  "handles S (lifetimes rt) w (fst (DeviceAuthorization S H w r))"
  "handles S (lifetimes rt) w (fst (PrepareDeviceAuthorization S H w r))"
  unfolding DeviceAuthorization_def begin_device_def PrepareDeviceAuthorization_def verify_user_code_def verify_client_def Let_def
  by (intro handles_intros handles_steps handles_helpers)+

lemma handle_handled: "issues_within rt (sv_tokens S) \<Longrightarrow> handles S (lifetimes rt) w (fst (handle S H w r))"
  by (cases r) (simp_all add: Token_handled token_users_handled browser_handled consent_handled device_handled)

lemma handle_all_handled: "issues_within rt (sv_tokens S) \<Longrightarrow> handles S (lifetimes rt) w (handle_all S H rs w)"
  unfolding handle_all_def
  by (rule fold_invariant_on [of "handles S (lifetimes rt) w"]) (auto intro: handles_trans handle_handled)

end
