(* ===== verification/Code_Exchange.thy ===== *)
theory Code_Exchange
  imports Http_Requests Token_Accept
begin

text \<open>
  What a successful answer of the token endpoint says: which client authenticated, and for the
  code grant which record was redeemed.
\<close>

section \<open>Client authentication\<close>

text \<open>The secret of a request, and what it takes to speak for a client.\<close>

definition presented_secret :: "http_request \<Rightarrow> string" where
  "presented_secret r = (case rq_BasicAuth r of None \<Rightarrow> form_value r ''client_secret'' | Some (_, secret) \<Rightarrow> secret)"

definition speaks_for :: "(string \<Rightarrow> string) \<Rightarrow> http_request \<Rightarrow> bool \<Rightarrow> oauth_client \<Rightarrow> bool" where
  "speaks_for sha256 r allowPublic cl \<longleftrightarrow>
     (if oc_IsPublic cl then allowPublic \<and> rq_BasicAuth r = None \<and> presented_secret r = []
      else presented_secret r \<noteq> [] \<and>
           (\<exists>hash. oc_SecretHash cl = Some hash \<and> VerifyClientSecret sha256 (presented_secret r) hash))"

lemma client_core_simps [simp]:
  "oc_ID (client_core c) = oc_ID c" "oc_Grants (client_core c) = oc_Grants c" "oc_Scopes (client_core c) = oc_Scopes c"
  "oc_RedirectURIs (client_core c) = oc_RedirectURIs c" "oc_IsPublic (client_core c) = oc_IsPublic c"
  "oc_AuthorizationRevision (client_core c) = oc_AuthorizationRevision c"
  "oc_IdentityRevision (client_core c) = oc_IdentityRevision c" "oc_AllowedClaims (client_core c) = oc_AllowedClaims c"
  "client_core (c\<lparr>oc_SecretLastUsedAt := t\<rparr>) = client_core c"
  by (simp_all add: client_core_def)

lemma client_core_agree:
  assumes "client_core c = client_core d"
  shows "oc_ID c = oc_ID d" "oc_Grants c = oc_Grants d" "oc_Scopes c = oc_Scopes d" "oc_RedirectURIs c = oc_RedirectURIs d"
    and "oc_IsPublic c = oc_IsPublic d" "oc_AuthorizationRevision c = oc_AuthorizationRevision d"
  using assms by (metis client_core_simps)+

lemma authenticateTokenClient_Inr:
  assumes "authenticateTokenClient S w r expected allowPublic = (w', Inr (cl, clientID))"
  obtains cl0 where "map_of (t_clients (w_sql w)) clientID = Some cl0" and "client_core cl = client_core cl0"
    and "speaks_for (sv_sha256 S) r allowPublic cl0" and "expected \<noteq> [] \<Longrightarrow> clientID = expected"
    and "w_redis w' = w_redis w" and "same_accounts (w_sql w) (w_sql w')"
proof -
  let ?auth = "AuthenticateClient (sv_sha256 S) (sv_env S) (tick w) clientID (presented_secret r)"
  let ?id = "let given = (case rq_BasicAuth r of None \<Rightarrow> form_value r ''client_id'' | Some b \<Rightarrow> fst b)
    in if given = [] then expected else given"
  let ?ok = "\<lambda>w1 cl. if oc_IsPublic cl
      then (w1, if allowPublic \<and> rq_BasicAuth r = None \<and> presented_secret r = [] then Inr (cl, ?id) else Inl ())
      else if presented_secret r = [] then (w1, Inl ())
      else on_result (\<lambda>a. Inr (a, ?id)) (AuthenticateClient (sv_sha256 S) (sv_env S) w1 ?id (presented_secret r))"
  have "authenticateTokenClient S w r expected allowPublic =
      (w, Inl ()) \<or> (expected \<noteq> [] \<longrightarrow> ?id = expected) \<and> authenticateTokenClient S w r expected allowPublic =
      attempt (client_GetByID (sv_env S) w ?id) (\<lambda>w1 _. (w1, Inl ())) ?ok"
    unfolding authenticateTokenClient_def presented_secret_def Let_def
    by (cases "rq_BasicAuth r") (simp_all add: split_beta cong: if_cong)
  then have e: "expected \<noteq> [] \<longrightarrow> ?id = expected"
    and at: "attempt (client_GetByID (sv_env S) w ?id) (\<lambda>w1 _. (w1, Inl ())) ?ok = (w', Inr (cl, clientID))"
    using assms by auto
  obtain w1 cl0 where g: "client_GetByID (sv_env S) w ?id = (w1, Inr cl0)"
      and k: "?ok w1 cl0 = (w', Inr (cl, clientID))"
    using at by (cases "client_GetByID (sv_env S) w ?id"; cases "snd (client_GetByID (sv_env S) w ?id)") auto
  have id: "?id = clientID" using k by (auto simp: on_result_Inr split: if_split_asm)
  have c: "map_of (t_clients (w_sql w)) clientID = Some cl0" and w1: "w1 = tick w"
    using client_GetByID_Inr [OF g] id by simp_all
  have d: "oc_IsPublic cl0 \<and> cl = cl0 \<and> w' = tick w \<and> allowPublic \<and> rq_BasicAuth r = None \<and> presented_secret r = [] \<or>
      \<not> oc_IsPublic cl0 \<and> presented_secret r \<noteq> [] \<and> ?auth = (w', Inr cl)"
    using k unfolding id w1 by (auto simp: on_result_Inr split: if_split_asm)
  note e = e [unfolded id]
  from d show thesis
  proof
    assume "oc_IsPublic cl0 \<and> cl = cl0 \<and> w' = tick w \<and> allowPublic \<and> rq_BasicAuth r = None \<and> presented_secret r = []"
    then show thesis using that [OF c] e by (simp add: speaks_for_def)
  next
    assume a: "\<not> oc_IsPublic cl0 \<and> presented_secret r \<noteq> [] \<and> ?auth = (w', Inr cl)"
    then obtain hash t where "oc_SecretHash cl0 = Some hash" "VerifyClientSecret (sv_sha256 S) (presented_secret r) hash"
        "cl = cl0\<lparr>oc_SecretLastUsedAt := Some t\<rparr>"
      using c by (auto elim!: AuthenticateClient_Inr)
    moreover have "w_redis w' = w_redis w" "same_accounts (w_sql w) (w_sql w')"
      using AuthenticateClient_frame [where h = "sv_sha256 S" and E = "sv_env S" and w = "tick w" and i = clientID
          and s = "presented_secret r"] a by simp_all
    ultimately show thesis using that [OF c] a e by (simp add: speaks_for_def)
  qed
qed

section \<open>Tokens in the answer\<close>

lemma attempt_body:
  assumes "attempt m f g = (w', resp)" and "rs_Body resp = B" and "\<And>w e. rs_Body (snd (f w e)) \<noteq> B"
  obtains w1 x where "m = (w1, Inr x)" and "g w1 x = (w', resp)"
proof (cases m)
  case (Pair w1 y)
  with assms show thesis by (cases y) (auto intro: that, metis snd_conv)
qed

text \<open>The answer to a code that was already used carries no tokens.\<close>

lemma reuse_answer [simp]: "rs_Body (snd (rejectAuthorizationCodeReuse S w d)) \<noteq> Token_body p"
  by (auto simp: rejectAuthorizationCodeReuse_def reuse_uncontained_def attempt_def
      split: prod.split sum.split option.split)

lemma reuse_answer_eq: "rejectAuthorizationCodeReuse S w d = (w', resp) \<Longrightarrow> rs_Body resp \<noteq> Token_body p"
  by (metis reuse_answer snd_conv)

lemma issue_grant_tokens:
  fixes w :: "'db world"
  assumes "issue_grant S H w cl u i sc ac v t k a n e = (w', resp)" and "rs_Body resp = Token_body pair"
    and "rs_Body e = OAuth_error_body x y"
  obtains w1 :: "'db world" and p where
    "GenerateAuthorizationCodeTokenPair S w (oc_ID cl) i sc ac v t k a
       (containsScope sc ''offline_access'' \<and> HasGrant cl GrantRefreshToken) = (w1, Inr p)"
    and "w_redis w' = w_redis w1" and "w_sql w' = w_sql w1" and "tp_AccessToken pair = tp_AccessToken p"
    and "tp_Scope pair = tp_Scope p" and "tp_RefreshToken pair = tp_RefreshToken p"
proof -
  let ?g = "GenerateAuthorizationCodeTokenPair S w (oc_ID cl) i sc ac v t k a
       (containsScope sc ''offline_access'' \<and> HasGrant cl GrantRefreshToken)"
  obtain w1 p where g: "?g = (w1, Inr p)"
    using assms by (cases ?g; cases "snd ?g") (auto simp: issue_grant_def split: if_split_asm)
  let ?i = "GenerateIDToken S w1 (oc_ID cl) i (list_of ac) n (userClaimsForAllowed (oh_issuer H) u (list_of ac)) a"
  obtain wi xi where i: "?i = (wi, xi)" by fastforce
  have w1: "w_redis wi = w_redis w1" "w_sql wi = w_sql w1"
    using GenerateIDToken_world [of S w1 "oc_ID cl"] i by (metis fst_conv)+
  have q: "(if containsScope sc ''openid''
      then attempt (wi, xi) (\<lambda>w2 _. (w2, writeTokenError 500 ''server_error'' ''failed to issue ID token''))
             (\<lambda>w2 idToken. (w2, writeJSON 200 (Token_body (p\<lparr>tp_IDToken := idToken\<rparr>))))
      else (w1, writeJSON 200 (Token_body p))) = (w', resp)"
    using assms(1) by (simp only: issue_grant_def g i attempt_simps)
  show thesis
    using that [OF g] q assms(2) w1 by (cases xi) (auto split: if_split_asm)
qed

lemma generated_scope: "GenerateAuthorizationCodeTokenPair S w c u sc ac v t r a b = (w', Inr p) \<Longrightarrow> tp_Scope p = joinScopes sc"
  by (fastforce simp: GenerateAuthorizationCodeTokenPair_def generateTokenPair_def Let_def and_then_Inr split: if_split_asm)

lemma redeem_code_tokens:
  fixes w :: "'db world"
  assumes "redeem_code S H w code d cl u ac = (w', resp)" and "rs_Body resp = Token_body pair"
  obtains w1 w2 :: "'db world" and d' p where
    "ConsumeAuthorizationCodeIfMatch (sv_redis S) (sv_digest S) (w_redis w) code d (AuthorizationCodeRetention (sv_tokens S)) =
       (w_redis w1, Inr d')"
    and "w_sql w1 = w_sql w"
    and "GenerateAuthorizationCodeTokenPair S w1 (oc_ID cl) (ad_UserID d) (ad_Scopes d) (Some ac) (ad_AuthVersion d)
       (ad_AuthorizationIssuedAt d) (ad_ClientAuthorizationRevision d)
       \<lparr>ia_Context = ad_AuthenticationContext d, ia_Methods = ad_AuthenticationMethods d, ia_AuthTime = ad_AuthenticationTime d\<rparr>
       (containsScope (ad_Scopes d) ''offline_access'' \<and> HasGrant cl GrantRefreshToken) = (w2, Inr p)"
    and "w_redis w' = w_redis w2" and "tp_Scope pair = joinScopes (ad_Scopes d)"
    and "tp_AccessToken pair = tp_AccessToken p"
proof -
  let ?c = "ConsumeAuthorizationCodeIfMatch (sv_redis S) (sv_digest S) (w_redis w) code d (AuthorizationCodeRetention (sv_tokens S))"
  let ?a = "\<lparr>ia_Context = ad_AuthenticationContext d, ia_Methods = ad_AuthenticationMethods d, ia_AuthTime = ad_AuthenticationTime d\<rparr>"
  obtain db1 d' where c: "?c = (db1, Inr d')"
    using assms
    by (cases ?c; cases "snd ?c")
       (auto simp: redeem_code_def consumption_failed_def split: if_split_asm dest: reuse_answer_eq)
  define w1 where "w1 = w\<lparr>w_redis := db1\<rparr>"
  have "issue_grant S H w1 cl u (ad_UserID d) (ad_Scopes d) (Some ac) (ad_AuthVersion d) (ad_AuthorizationIssuedAt d)
      (ad_ClientAuthorizationRevision d) ?a (ad_Nonce d)
      (writeTokenError 400 ''invalid_grant'' ''authorization is no longer active'') = (w', resp)"
    using assms(1) by (simp add: redeem_code_def c w1_def)
  then obtain w2 p where g: "GenerateAuthorizationCodeTokenPair S w1 (oc_ID cl) (ad_UserID d) (ad_Scopes d) (Some ac) (ad_AuthVersion d)
       (ad_AuthorizationIssuedAt d) (ad_ClientAuthorizationRevision d) ?a
       (containsScope (ad_Scopes d) ''offline_access'' \<and> HasGrant cl GrantRefreshToken) = (w2, Inr p)"
      and r: "w_redis w' = w_redis w2" and p: "tp_Scope pair = tp_Scope p" "tp_AccessToken pair = tp_AccessToken p"
    using assms(2) by (auto elim!: issue_grant_tokens)
  show thesis
    by (rule that [OF _ _ g r _ p(2)]) (simp_all add: w1_def c p(1) generated_scope [OF g])
qed

lemma exchange_code_tokens:
  assumes ex: "exchange_code S H w code d cl = (w', resp)" and b: "rs_Body resp = Token_body pair"
  obtains q uid u where "parseAndValidateScopes (joinScopes (ad_Scopes d)) (oc_Scopes cl) = Inr q"
    and "e_parse_uuid (sv_env S) (ad_UserID d) = Some uid" and "map_of (t_users (w_sql w)) uid = Some u"
    and "us_Status u = UserStatusActive" and "us_AuthVersion u = ad_AuthVersion d"
    and "redeem_code S H (tick w) code d cl u
      (effectiveClaimNames (ad_Scopes d) (ad_AllowedClaims d) (ad_ClaimNamesSet d)) = (w', resp)"
proof -
  let ?ac = "effectiveClaimNames (ad_Scopes d) (ad_AllowedClaims d) (ad_ClaimNamesSet d)"
  obtain q where sc: "parseAndValidateScopes (joinScopes (ad_Scopes d)) (oc_Scopes cl) = Inr q"
    using ex b by (cases "parseAndValidateScopes (joinScopes (ad_Scopes d)) (oc_Scopes cl)")
      (auto simp: exchange_code_def Let_def)
  have sub: "scopesAreSubset ?ac (current_claims H cl (ad_Scopes d))"
    using ex b sc by (auto simp: exchange_code_def Let_def split: if_split_asm)
  obtain uid where uid: "e_parse_uuid (sv_env S) (ad_UserID d) = Some uid"
    using ex b sc sub by (cases "e_parse_uuid (sv_env S) (ad_UserID d)") (auto simp: exchange_code_def Let_def)
  have b3: "attempt (user_GetByID (sv_env S) w uid)
         (\<lambda>w1 _. (w1, writeTokenError 400 ''invalid_grant'' ''authorization subject is no longer active''))
         (\<lambda>w1 u. if us_Status u \<noteq> UserStatusActive \<or> us_AuthVersion u \<noteq> ad_AuthVersion d
            then (w1, writeTokenError 400 ''invalid_grant'' ''authorization subject is no longer active'')
            else redeem_code S H w1 code d cl u ?ac) = (w', resp)"
    using ex sc sub uid by (simp only: exchange_code_def Let_def sum.disc if_False not_True_eq_False option.case)
  obtain wc u where gc: "user_GetByID (sv_env S) w uid = (wc, Inr u)"
      and b4: "(if us_Status u \<noteq> UserStatusActive \<or> us_AuthVersion u \<noteq> ad_AuthVersion d
            then (wc, writeTokenError 400 ''invalid_grant'' ''authorization subject is no longer active'')
            else redeem_code S H wc code d cl u ?ac) = (w', resp)"
    by (rule attempt_body [OF b3 b]) auto
  have u: "us_Status u = UserStatusActive" "us_AuthVersion u = ad_AuthVersion d"
      and rd: "redeem_code S H wc code d cl u ?ac = (w', resp)"
    using b4 b by (auto split: if_split_asm)
  show thesis using that [OF sc uid _ u] user_GetByID_Inr [OF gc] rd by simp
qed

lemma GetAuthorizationCode_stored:
  assumes R: "redis_server R" and g: "GetAuthorizationCode R h db code = (db', Inr (used, d))"
  shows "GET R db (secretKey h (if used then codeUsedPrefix else codePrefix) code) = Some (VCode d)"
proof -
  obtain db1 x where g1: "getJSON R db (secretKey h codePrefix code) decode_code = (db1, x)" by fastforce
  show ?thesis
  proof (cases x)
    case (Inr y)
    then have "\<not> used" "y = d" using g by (auto simp: GetAuthorizationCode_def g1)
    with g1 Inr show ?thesis by (auto elim!: redis_server.getJSON_Inr [OF R] dest: decode_SomeD)
  next
    case (Inl e)
    then obtain db2 where u: used and g2: "getJSON R db1 (secretKey h codeUsedPrefix code) decode_code = (db2, Inr d)"
      using g by (auto simp: GetAuthorizationCode_def g1 split: if_split_asm prod.split_asm sum.split_asm)
    have "db1 = snd (LINK R db)" using fst_reads(1) [of R db "secretKey h codePrefix code" decode_code] g1 by simp
    moreover have "GET R db1 (secretKey h codeUsedPrefix code) = Some (VCode d)"
      by (rule redis_server.getJSON_Inr [OF R g2]) (simp add: decode_SomeD)
    ultimately have "GET R (snd (LINK R db)) (secretKey h codeUsedPrefix code) = Some (VCode d)" by simp
    from redis_server.LINK_GET_Some [OF R this] u show ?thesis by simp
  qed
qed

text \<open>The answer with tokens to a code grant: everything that was checked on the way.\<close>

lemma code_grant_tokens:
  fixes w :: "'db world"
  assumes R: "redis_server (sv_redis S)"
    and "handleAuthorizationCodeGrant S H w r = (w', resp)" and "rs_Body resp = Token_body pair"
  obtains d cl0 cl uid u and w1 w2 w3 :: "'db world" and d' p where
    "GET (sv_redis S) (w_redis w) (secretKey (sv_digest S) codePrefix (form_value r ''code'')) = Some (VCode d)"
    and "map_of (t_clients (w_sql w)) (ad_ClientID d) = Some cl0" and "client_core cl = client_core cl0"
    and "speaks_for (sv_sha256 S) r True cl0"
    and "code_bound S cl (ad_ClientID d) d (form_value r ''redirect_uri'') (form_value r ''code_verifier'')"
    and "distinct (Fields (joinScopes (ad_Scopes d)))" and "set (Fields (joinScopes (ad_Scopes d))) \<subseteq> set (oc_Scopes cl0)"
    and "e_parse_uuid (sv_env S) (ad_UserID d) = Some uid" and "map_of (t_users (w_sql w)) uid = Some u"
    and "us_Status u = UserStatusActive" and "us_AuthVersion u = ad_AuthVersion d"
    and "handles S (lifetimes rt) w w1" and "same_accounts (w_sql w) (w_sql w2)"
    and "ConsumeAuthorizationCodeIfMatch (sv_redis S) (sv_digest S) (w_redis w1) (form_value r ''code'') d
           (AuthorizationCodeRetention (sv_tokens S)) = (w_redis w2, Inr d')"
    and "GenerateAuthorizationCodeTokenPair S w2 (oc_ID cl0) (ad_UserID d) (ad_Scopes d)
       (Some (effectiveClaimNames (ad_Scopes d) (ad_AllowedClaims d) (ad_ClaimNamesSet d))) (ad_AuthVersion d)
       (ad_AuthorizationIssuedAt d) (ad_ClientAuthorizationRevision d)
       \<lparr>ia_Context = ad_AuthenticationContext d, ia_Methods = ad_AuthenticationMethods d, ia_AuthTime = ad_AuthenticationTime d\<rparr>
       (containsScope (ad_Scopes d) ''offline_access'' \<and> HasGrant cl0 GrantRefreshToken) = (w3, Inr p)"
    and "w_redis w' = w_redis w3" and "tp_Scope pair = joinScopes (ad_Scopes d)"
    and "tp_AccessToken pair = tp_AccessToken p"
proof -
  let ?code = "form_value r ''code''" and ?uri = "form_value r ''redirect_uri''" and ?ver = "form_value r ''code_verifier''"
  let ?body = "attempt (on_redis w (GetAuthorizationCode (sv_redis S) (sv_digest S) (w_redis w) ?code))
      (\<lambda>w1 _. (w1, writeTokenError 400 ''invalid_grant'' ''invalid or expired authorization code''))
      (\<lambda>w1 (used, d). attempt (authenticateTokenClient S w1 r (ad_ClientID d) True) (\<lambda>w2 _. (w2, writeInvalidClient))
        (\<lambda>w2 (cl, clientID).
           if \<not> code_bound S cl clientID d ?uri ?ver
           then (w2, writeTokenError 400 ''invalid_grant'' ''authorization code binding validation failed'')
           else if used then rejectAuthorizationCodeReuse S w2 d
           else exchange_code S H w2 ?code d cl))"
  have "?body = (w', resp)"
    using assms(2,3) unfolding handleAuthorizationCodeGrant_def Let_def by (auto split: if_split_asm)
  then obtain wa used d where ga: "on_redis w (GetAuthorizationCode (sv_redis S) (sv_digest S) (w_redis w) ?code) = (wa, Inr (used, d))"
      and b1: "attempt (authenticateTokenClient S wa r (ad_ClientID d) True) (\<lambda>w2 _. (w2, writeInvalidClient))
        (\<lambda>w2 (cl, clientID).
           if \<not> code_bound S cl clientID d ?uri ?ver
           then (w2, writeTokenError 400 ''invalid_grant'' ''authorization code binding validation failed'')
           else if used then rejectAuthorizationCodeReuse S w2 d
           else exchange_code S H w2 ?code d cl) = (w', resp)"
    by (rule attempt_body [OF _ assms(3)]) auto
  obtain wb cl clientID where gb: "authenticateTokenClient S wa r (ad_ClientID d) True = (wb, Inr (cl, clientID))"
      and b2: "(if \<not> code_bound S cl clientID d ?uri ?ver
           then (wb, writeTokenError 400 ''invalid_grant'' ''authorization code binding validation failed'')
           else if used then rejectAuthorizationCodeReuse S wb d
           else exchange_code S H wb ?code d cl) = (w', resp)"
    by (rule attempt_body [OF b1 assms(3)]) auto
  have bound: "code_bound S cl clientID d ?uri ?ver" and used: "\<not> used" and ex: "exchange_code S H wb ?code d cl = (w', resp)"
    using b2 assms(3) by (auto split: if_split_asm dest: reuse_answer_eq)
  have live: "GET (sv_redis S) (w_redis w) (secretKey (sv_digest S) codePrefix ?code) = Some (VCode d)"
    using ga used by (auto simp: on_redis_Inr dest: GetAuthorizationCode_stored [OF R])
  have wa: "w_sql wa = w_sql w" using ga by (auto simp: on_redis_Inr)
  have id: "clientID = ad_ClientID d" using bound by (simp add: code_bound_def)
  obtain cl0 where cl0: "map_of (t_clients (w_sql w)) (ad_ClientID d) = Some cl0" "client_core cl = client_core cl0"
      "speaks_for (sv_sha256 S) r True cl0" and wb: "same_accounts (w_sql w) (w_sql wb)"
    using authenticateTokenClient_Inr [OF gb] wa id by auto
  note core = client_core_agree [OF cl0(2)]
  let ?ac = "effectiveClaimNames (ad_Scopes d) (ad_AllowedClaims d) (ad_ClaimNamesSet d)"
  define wc where "wc = tick wb"
  obtain q uid u where sc: "parseAndValidateScopes (joinScopes (ad_Scopes d)) (oc_Scopes cl) = Inr q"
      and uid: "e_parse_uuid (sv_env S) (ad_UserID d) = Some uid" and gb': "map_of (t_users (w_sql wb)) uid = Some u"
      and u: "us_Status u = UserStatusActive" "us_AuthVersion u = ad_AuthVersion d"
      and rd: "redeem_code S H wc ?code d cl u ?ac = (w', resp)"
    unfolding wc_def by (rule exchange_code_tokens [OF ex assms(3)])
  have gu: "map_of (t_users (w_sql w)) uid = Some u" using gb' wb by (simp add: same_accounts_def)
  have h: "handles S (lifetimes rt) w wc"
    using handles_GetAuthorizationCode [of S rt w ?code] authenticateTokenClient_handled [of S rt wa r "ad_ClientID d" True]
      handles_environment(1) [of S "lifetimes rt" wb]
    by (auto simp: ga gb wc_def intro: handles_trans)
  obtain w2 w3 d' p where
      c: "ConsumeAuthorizationCodeIfMatch (sv_redis S) (sv_digest S) (w_redis wc) ?code d (AuthorizationCodeRetention (sv_tokens S)) =
            (w_redis w2, Inr d')" and s2: "w_sql w2 = w_sql wc"
      and g: "GenerateAuthorizationCodeTokenPair S w2 (oc_ID cl) (ad_UserID d) (ad_Scopes d) (Some ?ac) (ad_AuthVersion d)
         (ad_AuthorizationIssuedAt d) (ad_ClientAuthorizationRevision d)
         \<lparr>ia_Context = ad_AuthenticationContext d, ia_Methods = ad_AuthenticationMethods d, ia_AuthTime = ad_AuthenticationTime d\<rparr>
         (containsScope (ad_Scopes d) ''offline_access'' \<and> HasGrant cl GrantRefreshToken) = (w3, Inr p)"
      and r3: "w_redis w' = w_redis w3" "tp_Scope pair = joinScopes (ad_Scopes d)" "tp_AccessToken pair = tp_AccessToken p"
    by (rule redeem_code_tokens [OF rd assms(3)])
  have "same_accounts (w_sql w) (w_sql w2)" using wb by (simp add: s2 wc_def)
  then show thesis
    using that [OF live cl0 bound [unfolded id] _ _ uid gu u h _ c _ r3] sc core g
    by (auto simp: parseAndValidateScopes_Inr HasGrant_def)
qed

text \<open>Nothing that is done after the code was consumed brings it back.\<close>

lemma redeemed_code_gone:
  assumes R: "redis_server (sv_redis S)" and "typed (sv_redis S) (w_redis w)" and "issues_within rt (sv_tokens S)"
    and h: "handles S (lifetimes rt) w w1"
    and c: "ConsumeAuthorizationCodeIfMatch (sv_redis S) (sv_digest S) (w_redis w1) code d ttl = (w_redis w2, Inr d')"
    and g: "GenerateAuthorizationCodeTokenPair S w2 cl u sc ac v t n a b = (w3, x)"
  shows "GET (sv_redis S) (w_redis w3) (secretKey (sv_digest S) codePrefix code) = None"
proof -
  have "typed (sv_redis S) (w_redis w1)"
    using redis_server.does_typed [OF R _ assms(2)] h by (auto simp: handles_def)
  from redis_server.exec_typed [OF R this, of "sv_digest S" "Code_op (Consume_code_if_match code d ttl)"]
  have t2: "typed (sv_redis S) (w_redis w2)" using c by simp
  have "does (sv_redis S) (sv_digest S) (token_step rt) (w_redis w2) (w_redis w3)"
    using token_requests_serve(1) [OF assms(3), of w2 cl u sc ac v t n a b] g by (simp add: serves_def)
  moreover have "secretKey (sv_digest S) codePrefix code \<notin> written (sv_digest S) op" if "token_step rt op" for op
    using that by (cases op; cases "case op of Token_op t \<Rightarrow> t") (auto simp: token_step_def key_simps)
  ultimately show ?thesis
    using redis_server.does_GET_other [OF R _ t2] redis_server.consume_code_Inr(3) [OF R c] by metis
qed

section \<open>Replayed codes\<close>

lemma reuse_revokes:
  assumes "rejectAuthorizationCodeReuse S w d = (w', resp)"
    and "rs_Body resp = OAuth_error_body ''invalid_grant'' ''authorization code was already consumed''"
  obtains n where "RevokeUserClientAuthorization (sv_redis S) (sv_digest S) (w_redis w) (ad_UserID d) (ad_ClientID d)
    (ts_revocationTTL (sv_tokens S) + 5 * Minute) = (w_redis w', Inr n)"
proof -
  let ?r = "RevokeUserClientAuthorization (sv_redis S) (sv_digest S) (w_redis w) (ad_UserID d) (ad_ClientID d)
    (ts_revocationTTL (sv_tokens S) + 5 * Minute)"
  obtain db x where r: "?r = (db, x)" by fastforce
  obtain n where x: "x = Inr n" using assms r by (cases x) (auto simp: rejectAuthorizationCodeReuse_def reuse_uncontained_def)
  obtain u where u: "e_parse_uuid (sv_env S) (ad_UserID d) = Some u"
    using assms r x by (cases "e_parse_uuid (sv_env S) (ad_UserID d)") (auto simp: rejectAuthorizationCodeReuse_def reuse_uncontained_def)
  let ?v = "Revoke (sv_env S) (w\<lparr>w_redis := db\<rparr>) u (ad_ClientID d) (UnixMicro n)"
  have "w' = fst ?v"
    using assms r x u by (cases ?v; cases "snd ?v") (auto simp: rejectAuthorizationCodeReuse_def)
  then have "w_redis w' = db" by (simp add: grants_frame)
  then show thesis using that r x by simp
qed

lemma exchange_code_reuse:
  fixes w :: "'db world"
  assumes ex: "exchange_code S H w code d cl = (w', resp)"
    and b: "rs_Body resp = OAuth_error_body ''invalid_grant'' ''authorization code was already consumed''"
  obtains w1 :: "'db world" where "rejectAuthorizationCodeReuse S w1 d = (w', resp)" and "handles S (lifetimes rt) w w1"
proof -
  let ?ac = "effectiveClaimNames (ad_Scopes d) (ad_AllowedClaims d) (ad_ClaimNamesSet d)"
  let ?bad = "''authorization subject is no longer active''"
  obtain uid where at: "attempt (user_GetByID (sv_env S) w uid) (\<lambda>w1 _. (w1, writeTokenError 400 ''invalid_grant'' ?bad))
         (\<lambda>w1 u. if us_Status u \<noteq> UserStatusActive \<or> us_AuthVersion u \<noteq> ad_AuthVersion d
            then (w1, writeTokenError 400 ''invalid_grant'' ?bad)
            else redeem_code S H w1 code d cl u ?ac) = (w', resp)"
    using ex b by (auto simp: exchange_code_def Let_def split: if_split_asm option.split_asm)
  obtain wc u where gc: "user_GetByID (sv_env S) w uid = (wc, Inr u)"
      and k: "(if us_Status u \<noteq> UserStatusActive \<or> us_AuthVersion u \<noteq> ad_AuthVersion d
            then (wc, writeTokenError 400 ''invalid_grant'' ?bad) else redeem_code S H wc code d cl u ?ac) = (w', resp)"
    by (rule attempt_body [OF at b]) auto
  have rd: "redeem_code S H wc code d cl u ?ac = (w', resp)" using k b by (auto split: if_split_asm)
  let ?c = "ConsumeAuthorizationCodeIfMatch (sv_redis S) (sv_digest S) (w_redis wc) code d (AuthorizationCodeRetention (sv_tokens S))"
  obtain db x where c: "?c = (db, x)" by fastforce
  have no: "rs_Body (snd (issue_grant S H v cl u i sc ac n t m a nonce
      (writeTokenError 400 ''invalid_grant'' ''authorization is no longer active''))) \<noteq>
      OAuth_error_body ''invalid_grant'' ''authorization code was already consumed''" for v i sc ac n t m a nonce
    by (auto simp: issue_grant_def attempt_def split: prod.split sum.split)
  have "x = Inl ErrAuthorizationCodeReuse"
    using rd b no by (cases x) (auto simp: redeem_code_def c consumption_failed_def split: if_split_asm, metis snd_conv)
  then have "rejectAuthorizationCodeReuse S (wc\<lparr>w_redis := db\<rparr>) d = (w', resp)" using rd by (simp add: redeem_code_def c)
  moreover have "handles S (lifetimes rt) w wc" using handles_environment(5) [of S "lifetimes rt" w uid] gc by simp
  moreover have "handles S (lifetimes rt) wc (wc\<lparr>w_redis := db\<rparr>)"
    using handles_codes(1) [of S rt wc code d "AuthorizationCodeRetention (sv_tokens S)"] c by simp
  ultimately show thesis by (rule that [OF _ handles_trans])
qed

text \<open>The answer that a code was used: the code, or the mark that it leaves, is the client's.\<close>

lemma code_grant_reuse:
  fixes w :: "'db world"
  assumes R: "redis_server (sv_redis S)"
    and g: "handleAuthorizationCodeGrant S H w r = (w', resp)"
    and b: "rs_Body resp = OAuth_error_body ''invalid_grant'' ''authorization code was already consumed''"
  obtains d cl used and w1 :: "'db world" where
    "rejectAuthorizationCodeReuse S w1 d = (w', resp)" and "handles S (lifetimes rt) w w1"
    and "GET (sv_redis S) (w_redis w) (secretKey (sv_digest S) (if used then codeUsedPrefix else codePrefix) (form_value r ''code'')) =
           Some (VCode d)"
    and "speaks_for (sv_sha256 S) r True cl" and "map_of (t_clients (w_sql w)) (ad_ClientID d) = Some cl"
    and "validatePKCE (sv_sha256 S) (form_value r ''code_verifier'') (ad_CodeChallenge d) ''S256''"
proof -
  let ?code = "form_value r ''code''" and ?uri = "form_value r ''redirect_uri''" and ?ver = "form_value r ''code_verifier''"
  let ?rest = "\<lambda>wa used d. attempt (authenticateTokenClient S wa r (ad_ClientID d) True) (\<lambda>w2 _. (w2, writeInvalidClient))
        (\<lambda>w2 (cl, clientID).
           if \<not> code_bound S cl clientID d ?uri ?ver
           then (w2, writeTokenError 400 ''invalid_grant'' ''authorization code binding validation failed'')
           else if used then rejectAuthorizationCodeReuse S w2 d
           else exchange_code S H w2 ?code d cl)"
  have "attempt (on_redis w (GetAuthorizationCode (sv_redis S) (sv_digest S) (w_redis w) ?code))
      (\<lambda>w1 _. (w1, writeTokenError 400 ''invalid_grant'' ''invalid or expired authorization code''))
      (\<lambda>w1 (used, d). ?rest w1 used d) = (w', resp)"
    using g b unfolding handleAuthorizationCodeGrant_def Let_def by (auto split: if_split_asm)
  then obtain wa used d where ga: "on_redis w (GetAuthorizationCode (sv_redis S) (sv_digest S) (w_redis w) ?code) = (wa, Inr (used, d))"
      and b1: "?rest wa used d = (w', resp)"
    by (rule attempt_body [OF _ b]) auto
  obtain wb cl clientID where gb: "authenticateTokenClient S wa r (ad_ClientID d) True = (wb, Inr (cl, clientID))"
      and b2: "(if \<not> code_bound S cl clientID d ?uri ?ver
           then (wb, writeTokenError 400 ''invalid_grant'' ''authorization code binding validation failed'')
           else if used then rejectAuthorizationCodeReuse S wb d
           else exchange_code S H wb ?code d cl) = (w', resp)"
    by (rule attempt_body [OF b1 b]) auto
  have bound: "code_bound S cl clientID d ?uri ?ver"
      and rj: "(if used then rejectAuthorizationCodeReuse S wb d else exchange_code S H wb ?code d cl) = (w', resp)"
    using b2 b by (auto split: if_split_asm)
  have wa: "w_sql wa = w_sql w" using ga by (auto simp: on_redis_Inr)
  have id: "clientID = ad_ClientID d" using bound by (simp add: code_bound_def)
  obtain cl0 where cl0: "map_of (t_clients (w_sql w)) (ad_ClientID d) = Some cl0" "speaks_for (sv_sha256 S) r True cl0"
    using authenticateTokenClient_Inr [OF gb] wa id by auto
  have h: "handles S (lifetimes rt) w wb"
    using handles_GetAuthorizationCode [of S rt w ?code] authenticateTokenClient_handled [of S rt wa r "ad_ClientID d" True]
    by (auto simp: ga gb intro: handles_trans)
  have pk: "validatePKCE (sv_sha256 S) ?ver (ad_CodeChallenge d) ''S256''" using bound unfolding code_bound_def by metis
  have st: "GET (sv_redis S) (w_redis w) (secretKey (sv_digest S) (if used then codeUsedPrefix else codePrefix) ?code) = Some (VCode d)"
    using ga by (auto simp only: on_redis_Inr dest: GetAuthorizationCode_stored [OF R])
  show thesis
  proof (cases used)
    case True
    then show thesis using that [OF _ h st cl0(2,1) pk] rj by simp
  next
    case False
    obtain w1 where "rejectAuthorizationCodeReuse S w1 d = (w', resp)" "handles S (lifetimes rt) wb w1"
      by (rule exchange_code_reuse [where rt = rt]) (use rj b False in auto)
    then show thesis using that [OF _ handles_trans [OF h] st cl0(2,1) pk] by blast
  qed
qed

end
