(* ===== verification/Consent_Acceptance.thy ===== *)
theory Consent_Acceptance
  imports Code_Exchange
begin

text \<open>
  What it takes to accept a consent: the session and its CSRF token, the challenge and its subject,
  the authentication the client asked for, and the scopes that were shown; and what the acceptance
  leaves behind.
\<close>

lemma authorizeMutation_Some:
  assumes "authorizeMutation S H w r = (w1, cs, Some sess)"
  shows "resolve_session S H w r = (w1, cs, Some sess)" and "sd_UserID sess \<noteq> []" and "sd_CSRFToken sess \<noteq> []"
    and "rq_CSRFHeader r = sd_CSRFToken sess"
  using assms
  by (auto simp: authorizeMutation_def authenticatedSession_def split: prod.split_asm option.split_asm if_split_asm)

lemma GetConsent_Inr:
  assumes "redis_server R" and "GetConsent R h db ch = (db', Inr d)"
  shows "GET R db (secretKey h consentPrefix ch) = Some (VConsent d)" and "db' = snd (LINK R db)"
  using assms(2) by (auto simp: GetConsent_def elim!: redis_server.getJSON_Inr [OF assms(1)])

lemma SaveAuthorizationCode_Inr:
  assumes "redis_server R" and "SaveAuthorizationCode R h db code d ttl v = (db', Inr x)"
  obtains version where "v = Some version"
    and "GET R db' (secretKey h codePrefix code) = Some (VCode (json_code (d\<lparr>ad_RecordVersion := version\<rparr>)))"
  using assms(2) redis_server.setJSON_Inr [OF assms(1)]
  by (auto simp: SaveAuthorizationCode_def split: option.split_asm)

lemma issue_code_answer:
  assumes R: "redis_server (sv_redis S)"
    and "issue_code S H w data a = (w', resp)" and "rs_Body resp = Text_body name target"
  obtains code version where
    "GET (sv_redis S) (w_redis w') (secretKey (sv_digest S) codePrefix code) = Some (VCode (json_code (a\<lparr>ad_RecordVersion := version\<rparr>)))"
    and "addQuery (oh_parse_url H) (cd_RedirectURI data) ([(''code'', code), (''state'', cd_State data)] @
           (if ad_Scopes a \<noteq> cd_Scopes data then [(''scope'', joinScopes (ad_Scopes a))] else [])) = Some target"
proof -
  obtain w1 o1 where r1: "GenerateRandomString (sv_env S) w 32 = (w1, o1)" by fastforce
  obtain w2 o2 where r2: "GenerateRandomString (sv_env S) w1 16 = (w2, o2)" by fastforce
  obtain code where o1: "o1 = Some code"
    using assms by (cases o1) (auto simp: issue_code_def r1 server_error_def)
  let ?s = "SaveAuthorizationCode (sv_redis S) (sv_digest S) (w_redis w2) code a (authorizationCodeTTL S) o2"
  obtain db x where s: "?s = (db, x)" by fastforce
  obtain u where x: "x = Inr u" using assms by (cases x) (auto simp: issue_code_def r1 r2 o1 s server_error_def)
  have w': "w_redis w' = db" and q: "addQuery (oh_parse_url H) (cd_RedirectURI data) ([(''code'', code), (''state'', cd_State data)] @
           (if ad_Scopes a \<noteq> cd_Scopes data then [(''scope'', joinScopes (ad_Scopes a))] else [])) = Some target"
    using assms(2,3) by (auto simp: issue_code_def r1 r2 o1 s x server_error_def split: option.split_asm)
  show thesis
    by (rule SaveAuthorizationCode_Inr [OF R s [unfolded x]]) (use that w' q in auto)
qed

text \<open>Granting: the record in PostgreSQL, then the code or the approval of the device.\<close>

lemma grant_consent_answer:
  fixes w :: "'db world"
  assumes R: "redis_server (sv_redis S)"
    and "grant_consent S H w data pending sess cl sc = (w', resp)" and "rs_Body resp = Text_body name target"
  obtains uid at and w1 w2 :: "'db world" where
    "e_parse_uuid (sv_env S) (cd_UserID data) = Some uid"
    and "AuthorizationIssueTime (sv_redis S) (sv_digest S) (w_redis w) (cd_UserID data) (cd_ClientID data)
           (authorizationStateTTL S) = (w_redis w1, Inr at)" and "w_sql w1 = w_sql w"
    and "UpsertExpected (sv_env S) w1 uid (cd_ClientID data) sc (claimsForGrantedScopes sc (cd_ScopeClaims data)) (UnixMicro at)
           (oc_IdentityRevision cl) (oc_AuthorizationRevision cl) = (w2, Inr ())"
    and "pending = None \<Longrightarrow>
      issue_code S H w2 data (code_data data cl sess sc (claimsForGrantedScopes sc (cd_ScopeClaims data)) at) = (w', resp)"
    and "\<And>d. pending = Some d \<Longrightarrow>
      approve_device S w2 d data sess sc (claimsForGrantedScopes sc (cd_ScopeClaims data)) at = (w', resp)"
proof -
  let ?cl = "claimsForGrantedScopes sc (cd_ScopeClaims data)"
  obtain uid where u: "e_parse_uuid (sv_env S) (cd_UserID data) = Some uid"
    using assms(2,3) by (cases "e_parse_uuid (sv_env S) (cd_UserID data)") (auto simp: grant_consent_def Let_def server_error_def)
  let ?k = "\<lambda>at w2. case pending of Some d \<Rightarrow> approve_device S w2 d data sess sc ?cl at
      | None \<Rightarrow> issue_code S H w2 data (code_data data cl sess sc ?cl at)"
  let ?g = "\<lambda>w1 at. attempt (UpsertExpected (sv_env S) w1 uid (cd_ClientID data) sc ?cl (UnixMicro at)
      (oc_IdentityRevision cl) (oc_AuthorizationRevision cl))
      (\<lambda>w2 e. (w2, if e = AuthClientChanged then client_changed else server_error)) (\<lambda>w2 _. ?k at w2)"
  have "attempt (on_redis w (AuthorizationIssueTime (sv_redis S) (sv_digest S) (w_redis w) (cd_UserID data)
      (cd_ClientID data) (authorizationStateTTL S))) (\<lambda>w1 _. (w1, server_error)) ?g = (w', resp)"
    using assms(2) u by (simp add: grant_consent_def Let_def)
  then obtain w1 at where i: "on_redis w (AuthorizationIssueTime (sv_redis S) (sv_digest S) (w_redis w) (cd_UserID data)
      (cd_ClientID data) (authorizationStateTTL S)) = (w1, Inr at)" and g: "?g w1 at = (w', resp)"
    by (rule attempt_body [OF _ assms(3)]) (auto simp: server_error_def)
  obtain w2 x where up: "UpsertExpected (sv_env S) w1 uid (cd_ClientID data) sc ?cl (UnixMicro at)
      (oc_IdentityRevision cl) (oc_AuthorizationRevision cl) = (w2, Inr x)" and k: "?k at w2 = (w', resp)"
    by (rule attempt_body [OF g assms(3)]) (auto simp: server_error_def client_changed_def)
  have i': "AuthorizationIssueTime (sv_redis S) (sv_digest S) (w_redis w) (cd_UserID data) (cd_ClientID data)
      (authorizationStateTTL S) = (w_redis w1, Inr at)" "w_sql w1 = w_sql w"
    using i by (auto simp: on_redis_Inr)
  show thesis
    by (rule that [OF u i']) (use up k in simp_all)
qed

lemma decide_consent_answer:
  assumes "decide_consent S H w data pending sess selected = (w', resp)" and "rs_Body resp = Text_body name target"
  obtains cl sc where "map_of (t_clients (w_sql w)) (cd_ClientID data) = Some cl"
    and "client_unchanged cl (cd_ClientIdentityRevision data) (cd_ClientAuthorizationRevision data)"
    and "resolveGrantedScopes (cd_Scopes data) (cd_OptionalScopes data)
           (case selected of None \<Rightarrow> cd_OptionalScopes data | Some scopes \<Rightarrow> scopes) = Some sc"
    and "grant_consent S H (tick w) data pending sess cl sc = (w', resp)"
proof -
  let ?r = "resolveGrantedScopes (cd_Scopes data) (cd_OptionalScopes data)
    (case selected of None \<Rightarrow> cd_OptionalScopes data | Some scopes \<Rightarrow> scopes)"
  obtain w1 cl where g: "client_GetByID (sv_env S) w (cd_ClientID data) = (w1, Inr cl)"
      and k: "(if \<not> client_unchanged cl (cd_ClientIdentityRevision data) (cd_ClientAuthorizationRevision data)
          then (w1, client_changed)
          else case ?r of None \<Rightarrow> (w1, writeError 400 ''invalid_scope_selection'')
               | Some sc \<Rightarrow> grant_consent S H w1 data pending sess cl sc) = (w', resp)"
    by (rule attempt_body [OF assms(1) [unfolded decide_consent_def] assms(2)]) (auto simp: client_changed_def)
  have "client_unchanged cl (cd_ClientIdentityRevision data) (cd_ClientAuthorizationRevision data)"
    using k assms(2) by (auto simp: client_changed_def split: if_split_asm)
  moreover obtain sc where "?r = Some sc" "grant_consent S H w1 data pending sess cl sc = (w', resp)"
    using k assms(2) by (auto simp: client_changed_def split: if_split_asm option.split_asm)
  ultimately show thesis using that client_GetByID_Inr [OF g] by blast
qed

text \<open>The challenge that is read is the one that is consumed.\<close>

lemma accept_challenge_answer:
  fixes w :: "'db world"
  assumes R: "redis_server (sv_redis S)"
    and acc: "accept_challenge S H w sess challenge selected = (w', resp)" and b: "rs_Body resp = Text_body name target"
  obtains data pending and w2 :: "'db world" where
    "GET (sv_redis S) (w_redis w) (secretKey (sv_digest S) consentPrefix challenge) = Some (VConsent data)"
    and "cd_UserID data = sd_UserID sess" and "cd_AuthVersion data = sd_AuthVersion sess"
    and "consentAuthenticationSatisfies data sess" and "w_sql w2 = w_sql w"
    and "decide_consent S H w2 data pending sess selected = (w', resp)"
    and "cd_Flow data \<noteq> GrantDeviceCode \<longleftrightarrow> pending = None"
proof -
  let ?k = "secretKey (sv_digest S) consentPrefix challenge"
  let ?rest = "\<lambda>w2 data. if cd_AuthVersion data \<noteq> sd_AuthVersion sess then (w2, invalid_challenge)
      else if cd_Flow data \<noteq> GrantDeviceCode then decide_consent S H w2 data None sess selected
      else if \<not> oh_devices H then (w2, writeError 503 ''device_authorization_unavailable'')
      else attempt (pending_device S w2 data) (\<lambda>w3 _. (w3, invalid_challenge))
             (\<lambda>w3 pending. decide_consent S H w3 data (Some pending) sess selected)"
  obtain wa shown where g: "on_redis w (GetConsent (sv_redis S) (sv_digest S) (w_redis w) challenge) = (wa, Inr shown)"
      and k: "(if cd_UserID shown \<noteq> sd_UserID sess then (wa, invalid_challenge)
          else if \<not> consentAuthenticationSatisfies shown sess then (wa, writeError 403 ''unmet_authentication_requirements'')
          else attempt (on_redis wa (ConsumeConsentForUser (sv_redis S) (sv_digest S) (w_redis wa) challenge (sd_UserID sess)))
            (\<lambda>w2 _. (w2, invalid_challenge)) ?rest) = (w', resp)"
    by (rule attempt_body [OF acc [unfolded accept_challenge_def] b]) (auto simp: invalid_challenge_def)
  have sh: "cd_UserID shown = sd_UserID sess" "consentAuthenticationSatisfies shown sess"
      and at: "attempt (on_redis wa (ConsumeConsentForUser (sv_redis S) (sv_digest S) (w_redis wa) challenge (sd_UserID sess)))
            (\<lambda>w2 _. (w2, invalid_challenge)) ?rest = (w', resp)"
    using k b by (auto simp: invalid_challenge_def split: if_split_asm)
  obtain wb data where c: "on_redis wa (ConsumeConsentForUser (sv_redis S) (sv_digest S) (w_redis wa) challenge (sd_UserID sess)) =
      (wb, Inr data)" and r: "?rest wb data = (w', resp)"
    by (rule attempt_body [OF at b]) (auto simp: invalid_challenge_def)
  have get: "GET (sv_redis S) (w_redis w) ?k = Some (VConsent shown)" "w_redis wa = snd (LINK (sv_redis S) (w_redis w))"
      and sql: "w_sql wa = w_sql w"
    using g GetConsent_Inr [OF R] by (auto simp: on_redis_Inr)
  have "GET (sv_redis S) (w_redis wa) ?k = Some (VConsent data)" and sql': "w_sql wb = w_sql wa"
    using c redis_server.consent_outcome [OF R] by (auto simp: on_redis_Inr)
  with get redis_server.LINK_GET_Some [OF R, of "w_redis w" ?k "VConsent data"] have eq: "data = shown" by simp
  have v: "cd_AuthVersion data = sd_AuthVersion sess" using r b by (auto simp: invalid_challenge_def split: if_split_asm)
  show thesis
  proof (cases "cd_Flow data = GrantDeviceCode")
    case False
    then show thesis using that [of data wb None] get(1) sh v r sql sql' by (simp add: eq)
  next
    case True
    have at': "attempt (pending_device S wb data) (\<lambda>w3 _. (w3, invalid_challenge))
        (\<lambda>w3 pending. decide_consent S H w3 data (Some pending) sess selected) = (w', resp)"
      using r b v True by (auto split: if_split_asm)
    obtain wc d where p: "pending_device S wb data = (wc, Inr d)" and dc: "decide_consent S H wc data (Some d) sess selected = (w', resp)"
      by (rule attempt_body [OF at' b]) (auto simp: invalid_challenge_def)
    have "w_sql wc = w_sql wb" using p by (auto simp: pending_device_def on_redis_Inr Now_def)
    then show thesis using that [of data wc "Some d"] get(1) sh v dc sql sql' True by (simp add: eq)
  qed
qed

lemma resolve_session_consent:
  assumes R: "redis_server (sv_redis S)" and "typed (sv_redis S) (w_redis w)"
    and "resolve_session S H w r = (w1, cs, o1)"
    and "GET (sv_redis S) (w_redis w1) (secretKey (sv_digest S) consentPrefix ch) = Some v"
  shows "GET (sv_redis S) (w_redis w) (secretKey (sv_digest S) consentPrefix ch) = Some v"
    and "same_accounts (w_sql w) (w_sql w1)"
proof -
  have h: "handles S session_step w w1" using resolve_session_steps [of S w H r] assms(3) by simp
  then show "same_accounts (w_sql w) (w_sql w1)" by (simp add: handles_def)
  have "secretKey (sv_digest S) consentPrefix ch \<notin> written (sv_digest S) op" if "session_step op" for op
    using that by (cases op; cases "case op of Session_op s \<Rightarrow> s") (auto simp: session_step_def key_simps)
  then show "GET (sv_redis S) (w_redis w) (secretKey (sv_digest S) consentPrefix ch) = Some v"
    using redis_server.does_GET_other [OF R, of "sv_digest S" session_step "w_redis w" "w_redis w1"] h assms(2,4)
    by (fastforce simp: handles_def)
qed

lemma same_accounts_client:
  assumes "same_accounts t t'" and "map_of (t_clients t') i = Some c"
  obtains c0 where "map_of (t_clients t) i = Some c0" and "client_core c = client_core c0"
  using assms by (auto simp: same_accounts_def map_option_case split: option.split_asm)

lemma client_unchanged_core: "client_core c = client_core d \<Longrightarrow> client_unchanged c i a = client_unchanged d i a"
  by (metis client_core_simps(6,7) client_unchanged_def)

lemma code_data_core: "client_core c = client_core d \<Longrightarrow> code_data data c sess sc cl at = code_data data d sess sc cl at"
  using client_core_agree(6) [of c d] by (simp add: code_data_def)

lemma code_data_Scopes [simp]: "ad_Scopes (code_data data c sess sc cl at) = sc"
  by (simp add: code_data_def)

text \<open>What the browser is told: the redirect URI with the code, or the page of the device.\<close>

lemma granted_answer:
  assumes R: "redis_server (sv_redis S)"
    and g: "grant_consent S H w data pending sess cl sc = (w', resp)" and b: "rs_Body resp = Text_body name target"
    and flow: "cd_Flow data \<noteq> GrantDeviceCode \<longleftrightarrow> pending = None"
  shows "if cd_Flow data = GrantDeviceCode then target = ''/device?status=approved''
    else \<exists>code version at.
       GET (sv_redis S) (w_redis w') (secretKey (sv_digest S) codePrefix code) =
         Some (VCode (json_code ((code_data data cl sess sc (claimsForGrantedScopes sc (cd_ScopeClaims data)) at)
           \<lparr>ad_RecordVersion := version\<rparr>))) \<and>
       addQuery (oh_parse_url H) (cd_RedirectURI data) ([(''code'', code), (''state'', cd_State data)] @
         (if sc \<noteq> cd_Scopes data then [(''scope'', joinScopes sc)] else [])) = Some target"
proof -
  let ?c = "claimsForGrantedScopes sc (cd_ScopeClaims data)"
  obtain at w2 where code: "pending = None \<Longrightarrow> issue_code S H w2 data (code_data data cl sess sc ?c at) = (w', resp)"
      and device: "\<And>d. pending = Some d \<Longrightarrow> approve_device S w2 d data sess sc ?c at = (w', resp)"
    by (rule grant_consent_answer [OF R g b]) (rule that, simp_all)
  show ?thesis
  proof (cases pending)
    case None
    then have "cd_Flow data \<noteq> GrantDeviceCode" using flow by simp
    moreover note issue_code_answer [OF R code [OF None] b, unfolded code_data_Scopes]
    ultimately show ?thesis by (simp only: if_False) metis
  next
    case (Some d)
    then show ?thesis
      using device [OF Some] b flow
      by (auto simp: approve_device_def attempt_def invalid_challenge_def split: prod.split_asm sum.split_asm if_split_asm)
  qed
qed

end
