(* ===== verification/Code_Redemption.thy ===== *)
theory Code_Redemption
  imports Code_Exchange
begin

text \<open>
  Progress of the code grant. On a system whose requests are served, a client that presents a live
  code with everything the code is bound to gets its tokens: none of the refusals of the handlers
  can occur. The locale states what it means that requests are served.
\<close>

section \<open>Links that deliver at once\<close>

text \<open>A server is still one when every request to it is delivered and no time passes on the way.\<close>

definition immediate :: "'db redis \<Rightarrow> 'db redis" where
  "immediate R = R\<lparr>LINK := \<lambda>db. (Delivered, db)\<rparr>"

lemma immediate_simps [simp]:
  "LINK (immediate R) db = (Delivered, db)" "view (immediate R) = view R" "typed (immediate R) = typed R"
  "GET (immediate R) = GET R"
  by (simp_all add: immediate_def view_def typed_def typed_key_def fun_eq_iff)

lemma aged_refl: "aged 0 v v"
  by (simp add: aged_def aged_key_def)

lemma immediate_server:
  assumes "redis_server R"
  shows "redis_server (immediate R)"
proof -
  have v: "view (R\<lparr>LINK := l\<rparr>) = view R" for l :: "'a \<Rightarrow> delivery \<times> 'a" by (simp add: view_def fun_eq_iff)
  have a: "\<exists>el. aged el x x" for x using aged_refl by blast
  show ?thesis using assms unfolding redis_server_def immediate_def v by (simp add: a)
qed

section \<open>Systems that serve requests\<close>

text \<open>The client a request names, in one of the two places it may be in.\<close>

definition names_client :: "http_request \<Rightarrow> string \<Rightarrow> bool" where
  "names_client r i \<longleftrightarrow>
     (case rq_BasicAuth r of
        None \<Rightarrow> form_value r ''client_id'' = i
      | Some (u, _) \<Rightarrow> u = i \<and> form_value r ''client_id'' = [] \<and> form_value r ''client_secret'' = [])"

text \<open>What the handlers read of a client does not depend on when its secret was last used.\<close>

lemma code_bound_core: "client_core c = client_core d \<Longrightarrow> code_bound S c i a uri v = code_bound S d i a uri v"
  using client_core_agree [of c d] by (simp add: code_bound_def HasGrant_def HasRedirectURI_def)

lemma current_claims_core: "client_core c = client_core d \<Longrightarrow> current_claims H c sc = current_claims H d sc"
proof -
  assume "client_core c = client_core d"
  then have "oc_AllowedClaims c = oc_AllowedClaims d" "oc_Scopes c = oc_Scopes d" by (metis client_core_simps)+
  then show ?thesis by (simp only: current_claims_def scopeClaimsForClient_def)
qed

lemma same_accounts_revision:
  assumes "same_accounts t t'"
  shows "map_option oc_AuthorizationRevision (map_of (t_clients t') i) = map_option oc_AuthorizationRevision (map_of (t_clients t) i)"
proof -
  have "map_option oc_AuthorizationRevision c = map_option oc_AuthorizationRevision (map_option client_core c)" for c
    by (cases c) simp_all
  then show ?thesis using assms unfolding same_accounts_def by metis
qed

locale calm_system =
  fixes S :: "'db services"
  assumes server: "redis_server (sv_redis S)"
    and delivered: "LINK (sv_redis S) db = (Delivered, db)"
    and served: "e_sql (sv_env S) i = Sql_served"
    and users: "ts_users (sv_tokens S)"
    and policy: "ts_accessPolicy (sv_tokens S)"
begin

lemma calm_call: "call (sv_redis S) e db f = f db"
  by (rule call_undisturbed [OF delivered])

lemma calm_query: "query (sv_env S) w f = (tick w, f (w_sql w))"
  by (simp add: query_def served)

lemma code_found:
  "GET (sv_redis S) db (secretKey (sv_digest S) codePrefix code) = Some (VCode d) \<Longrightarrow>
   GetAuthorizationCode (sv_redis S) (sv_digest S) db code = (db, Inr (False, d))"
  by (simp add: GetAuthorizationCode_def getJSON_def calm_call)

lemma code_consumed:
  assumes "GET (sv_redis S) db (secretKey (sv_digest S) codePrefix code) = Some (VCode d)"
    and "ad_RecordVersion d \<noteq> []" and "Millisecond \<le> ttl"
  shows "\<exists>db'. ConsumeAuthorizationCodeIfMatch (sv_redis S) (sv_digest S) db code d ttl = (db', Inr d)"
  using assms
  by (simp add: ConsumeAuthorizationCodeIfMatch_def ttlMilliseconds_def calm_call consumeMatchingScript_def on_result_def
      consume_code_result_def decoded_payload_def lua_fields)

lemma client_authenticates:
  assumes c: "map_of (t_clients (w_sql w)) i = Some cl" and "i \<noteq> []" and "names_client r i"
    and sp: "speaks_for (sv_sha256 S) r True cl"
  shows "\<exists>w1 cl1. authenticateTokenClient S w r i True = (w1, Inr (cl1, i)) \<and> client_core cl1 = client_core cl \<and>
    w_redis w1 = w_redis w \<and> same_accounts (w_sql w) (w_sql w1)"
proof -
  have g: "client_GetByID (sv_env S) w i = (tick w, Inr cl)" by (simp add: client_GetByID_def calm_query c)
  let ?a = "AuthenticateClient (sv_sha256 S) (sv_env S) (tick w) i (presented_secret r)"
  have e: "authenticateTokenClient S w r i True =
      (if oc_IsPublic cl then (tick w, if rq_BasicAuth r = None \<and> presented_secret r = [] then Inr (cl, i) else Inl ())
       else if presented_secret r = [] then (tick w, Inl ()) else on_result (\<lambda>a. Inr (a, i)) ?a)"
    using assms(2,3)
    by (cases "rq_BasicAuth r") (auto simp: authenticateTokenClient_def names_client_def presented_secret_def Let_def g)
  show ?thesis
  proof (cases "oc_IsPublic cl")
    case True
    then show ?thesis using sp by (simp add: e speaks_for_def)
  next
    case False
    then obtain hash where h: "oc_SecretHash cl = Some hash" "VerifyClientSecret (sv_sha256 S) (presented_secret r) hash"
        and n: "presented_secret r \<noteq> []"
      using sp by (auto simp: speaks_for_def)
    obtain w1 where w1: "?a = (w1, Inr (cl\<lparr>oc_SecretLastUsedAt := Some (e_now (sv_env S) (w_tick (tick w)))\<rparr>))"
      using h c by (auto simp: AuthenticateClient_def Now_def transact_def served)
    then show ?thesis
      using AuthenticateClient_frame [where h = "sv_sha256 S" and E = "sv_env S" and w = "tick w" and i = i and s = "presented_secret r"]
        False n by (simp add: e on_result_def)
  qed
qed

section \<open>Issuance\<close>

lemma grant_stands:
  assumes "typed (sv_redis S) (w_redis w)" and "unrevoked S w d" and "0 < td_AuthorizationIssuedAt d"
    and "td_UserID d \<noteq> []" and "td_ClientID d \<noteq> []" and "0 < td_ClientAuthorizationRevision d"
    and "map_option oc_AuthorizationRevision (map_of (t_clients (w_sql w)) (td_ClientID d)) =
      Some (td_ClientAuthorizationRevision d)"
  shows "\<exists>w1. validateAuthorization S w d = (w1, Inr ()) \<and> w_redis w1 = w_redis w \<and> w_sql w1 = w_sql w"
proof -
  let ?k = "authorizationRevocationKey (sv_digest S) (td_UserID d) (td_ClientID d)"
  have k: "key_class ?k = ''authorization-revoked''" by simp
  have "GET (sv_redis S) (w_redis w) ?k = None \<or> (\<exists>n. GET (sv_redis S) (w_redis w) ?k = Some (VNum n))"
    using typed_GET [OF assms(1), of ?k] by (cases "GET (sv_redis S) (w_redis w) ?k") (auto simp: k value_ok_cases)
  then have r: "IsUserClientAuthorizationRevoked (sv_redis S) (sv_digest S) (w_redis w) (td_UserID d) (td_ClientID d)
      (td_AuthorizationIssuedAt d) = (w_redis w, Inr False)"
    using assms(2) by (auto simp: IsUserClientAuthorizationRevoked_def calm_call unrevoked_def)
  obtain cl where "map_of (t_clients (w_sql w)) (td_ClientID d) = Some cl"
      "oc_AuthorizationRevision cl = td_ClientAuthorizationRevision d"
    using assms(7) by auto
  then show ?thesis
    using assms(3-6)
    by (simp add: validateAuthorization_def r currentClientAuthorizationRevision_def ClientAuthorizationRevision_def
        calm_query policy Let_def)
qed

lemma access_signed:
  assumes "snd (GetPrivateKey (sv_gcm S) (sv_rsa S) (sv_env S) (sv_keys S) w) = Inr (priv, kid)"
    and "\<And>m. jwt_sign (sv_jwt S) priv kid m \<noteq> None"
  shows "\<exists>w1 tok jti. signAccessToken S w c u sc ac v ttl a = (w1, Inr (tok, jti)) \<and> w_redis w1 = w_redis w \<and> w_sql w1 = w_sql w"
proof -
  obtain w1 where "GetPrivateKey (sv_gcm S) (sv_rsa S) (sv_env S) (sv_keys S) w = (w1, Inr (priv, kid))"
    using assms(1) by (metis prod.collapse)
  then have "\<exists>w1 tok jti. signAccessToken S w c u sc ac v ttl a = (w1, Inr (tok, jti))"
    using assms(2) by (auto simp: signAccessToken_def split_beta Let_def split: option.split)
  then show ?thesis by (metis fst_conv signAccessToken_world)
qed

text \<open>The key depends on the table of keys only.\<close>

lemma key_of_tables:
  "t_jwk (w_sql w) = t_jwk (w_sql w0) \<Longrightarrow> snd (GetPrivateKey (sv_gcm S) (sv_rsa S) (sv_env S) (sv_keys S) w) =
     snd (GetPrivateKey (sv_gcm S) (sv_rsa S) (sv_env S) (sv_keys S) w0)"
  by (rule GetPrivateKey_cong [OF _ served])

lemma pair_issued:
  assumes "typed (sv_redis S) (w_redis w)"
    and "0 < v" "0 < t" "u \<noteq> []" "c \<noteq> []" "1 \<le> n" "normalizedClientRevision r = n"
    and "map_option oc_AuthorizationRevision (map_of (t_clients (w_sql w)) c) = Some n"
    and "unrevoked S w (grant_subject c u v t n)"
    and key: "snd (GetPrivateKey (sv_gcm S) (sv_rsa S) (sv_env S) (sv_keys S) w) = Inr (priv, kid)"
    and sign: "\<And>m. jwt_sign (sv_jwt S) priv kid m \<noteq> None" and ttl: "0 < tl_AccessToken (Lifetimes (sv_tokens S))"
  shows "\<exists>w1 p. GenerateAuthorizationCodeTokenPair S w c u sc ac v t r a False = (w1, Inr p) \<and>
    same_accounts (w_sql w) (w_sql w1)"
proof -
  have rev: "currentClientAuthorizationRevision S w c = (tick w, Inr n)"
    using assms(6,8) by (auto simp: currentClientAuthorizationRevision_def policy ClientAuthorizationRevision_def calm_query)
  let ?d = "grant_subject c u v t n"
  have "\<exists>w2. validateAuthorization S (tick w) ?d = (w2, Inr ()) \<and> w_redis w2 = w_redis (tick w) \<and> w_sql w2 = w_sql (tick w)"
    by (rule grant_stands) (use assms in \<open>auto simp: grant_subject_def issued_data_def unrevoked_def\<close>)
  then obtain w2 where va: "validateAuthorization S (tick w) ?d = (w2, Inr ())" "w_redis w2 = w_redis w" "w_sql w2 = w_sql w"
    by auto
  have "snd (GetPrivateKey (sv_gcm S) (sv_rsa S) (sv_env S) (sv_keys S) w2) = Inr (priv, kid)"
    using key_of_tables [of w2 w] key by (simp add: va)
  from access_signed [OF this sign] obtain w3 tok jti where
      s3: "signAccessToken S w2 c u sc ac v (tl_AccessToken (Lifetimes (sv_tokens S))) a = (w3, Inr (tok, jti))"
      "w_redis w3 = w_redis w2" "w_sql w3 = w_sql w2" by blast
  obtain w4 where s4: "store_access S w3 c jti (issued_data c u sc ac ''access'' v a [] t n) [] (tl_AccessToken (Lifetimes (sv_tokens S))) =
      (w4, Inr ())" "w_sql w4 = w_sql w3"
    using ttl by (auto simp: store_access_def issued_data_def SaveToken_def setJSON_def calm_call on_redis_def)
  have "normalizedClientRevision r = n" by (rule assms(7))
  then have "\<exists>p. GenerateAuthorizationCodeTokenPair S w c u sc ac v t r a False = (record_usage S w4 u c v, Inr p)"
    using assms(2,3) by (simp add: GenerateAuthorizationCodeTokenPair_def rev va(1) generateTokenPair_def s3(1) s4(1))
  moreover have "same_accounts (w_sql w) (w_sql (record_usage S w4 u c v))"
    using record_usage_frame(2) [of w4 S u c v] s4(2) s3(3) va(3) by (simp add: same_accounts_grants)
  ultimately show ?thesis by blast
qed

lemma id_token_issued:
  assumes "e_parse_uuid (sv_env S) u = Some i" and "map_of (t_users (w_sql w)) i = Some x" and "us_Status x = UserStatusActive"
    and key: "snd (GetPrivateKey (sv_gcm S) (sv_rsa S) (sv_env S) (sv_keys S) w) = Inr (priv, kid)"
    and sign: "\<And>m. jwt_sign (sv_jwt S) priv kid m \<noteq> None"
  shows "\<exists>w1 tok. GenerateIDToken S w c u ac nonce info a = (w1, Inr tok)"
proof -
  have v: "subject_version S w u = (tick w, Inr (us_AuthVersion x))"
    using assms(1-3) by (simp add: subject_version_def users user_GetByID_def calm_query)
  have "snd (GetPrivateKey (sv_gcm S) (sv_rsa S) (sv_env S) (sv_keys S) (tick w)) = Inr (priv, kid)"
    using key_of_tables [of "tick w" w] key by simp
  then obtain w2 where "GetPrivateKey (sv_gcm S) (sv_rsa S) (sv_env S) (sv_keys S) (tick w) = (w2, Inr (priv, kid))"
    by (metis prod.collapse)
  then show ?thesis using sign by (auto simp: GenerateIDToken_def v split_beta Let_def split: option.split)
qed

section \<open>The grant\<close>

lemma grant_issued:
  assumes "typed (sv_redis S) (w_redis w)"
    and "0 < v" "0 < t" "u \<noteq> []" "oc_ID cl \<noteq> []" "1 \<le> n" "normalizedClientRevision rv = n"
    and "map_option oc_AuthorizationRevision (map_of (t_clients (w_sql w)) (oc_ID cl)) = Some n"
    and "unrevoked S w (grant_subject (oc_ID cl) u v t n)"
    and usr: "e_parse_uuid (sv_env S) u = Some i" "map_of (t_users (w_sql w)) i = Some x" "us_Status x = UserStatusActive"
    and key: "snd (GetPrivateKey (sv_gcm S) (sv_rsa S) (sv_env S) (sv_keys S) w) = Inr (priv, kid)"
    and sign: "\<And>m. jwt_sign (sv_jwt S) priv kid m \<noteq> None" and ttl: "0 < tl_AccessToken (Lifetimes (sv_tokens S))"
    and off: "''offline_access'' \<notin> set sc"
  shows "\<exists>w' resp pair. issue_grant S H w cl y u sc ac v t rv a nonce e = (w', resp) \<and> rs_Status resp = 200 \<and>
    rs_Body resp = Token_body pair \<and> tp_Scope pair = joinScopes sc"
proof -
  obtain w1 p where g: "GenerateAuthorizationCodeTokenPair S w (oc_ID cl) u sc ac v t rv a False = (w1, Inr p)"
      and s1: "same_accounts (w_sql w) (w_sql w1)"
    using pair_issued [OF assms(1-9) key sign ttl] by blast
  have k1: "snd (GetPrivateKey (sv_gcm S) (sv_rsa S) (sv_env S) (sv_keys S) w1) = Inr (priv, kid)"
    using key_of_tables [of w1 w] s1 key by (simp add: same_accounts_def)
  obtain w2 tok where i: "GenerateIDToken S w1 (oc_ID cl) u (list_of ac) nonce
      (userClaimsForAllowed (oh_issuer H) y (list_of ac)) a = (w2, Inr tok)"
    using id_token_issued [OF usr(1) _ usr(3) k1 sign, of "oc_ID cl" "list_of ac" nonce] usr(2) s1
    by (fastforce simp: same_accounts_def)
  show ?thesis using off generated_scope [OF g] by (simp add: issue_grant_def g i)
qed

lemma code_redeemed:
  assumes t: "typed (sv_redis S) (w_redis w)" and fin: "form_value r ''code'' \<noteq> []" "form_value r ''redirect_uri'' \<noteq> []"
    and live: "GET (sv_redis S) (w_redis w) (secretKey (sv_digest S) codePrefix (form_value r ''code'')) = Some (VCode d)"
    and d: "ad_RecordVersion d \<noteq> []" "0 < ad_AuthVersion d" "0 < ad_AuthorizationIssuedAt d" "ad_UserID d \<noteq> []"
      "''offline_access'' \<notin> set (ad_Scopes d)"
    and ttl: "Millisecond \<le> AuthorizationCodeRetention (sv_tokens S)" "0 < tl_AccessToken (Lifetimes (sv_tokens S))"
    and cl: "map_of (t_clients (w_sql w)) (ad_ClientID d) = Some cl" "oc_ID cl = ad_ClientID d" "ad_ClientID d \<noteq> []"
      "1 \<le> oc_AuthorizationRevision cl" "names_client r (ad_ClientID d)" "speaks_for (sv_sha256 S) r True cl"
    and bound: "code_bound S cl (ad_ClientID d) d (form_value r ''redirect_uri'') (form_value r ''code_verifier'')"
    and scopes: "\<not> isl (parseAndValidateScopes (joinScopes (ad_Scopes d)) (oc_Scopes cl))"
      "scopesAreSubset (effectiveClaimNames (ad_Scopes d) (ad_AllowedClaims d) (ad_ClaimNamesSet d)) (current_claims H cl (ad_Scopes d))"
    and usr: "e_parse_uuid (sv_env S) (ad_UserID d) = Some i" "map_of (t_users (w_sql w)) i = Some x"
      "us_Status x = UserStatusActive" "us_AuthVersion x = ad_AuthVersion d"
    and rev: "\<And>n. GET (sv_redis S) (w_redis w) (authorizationRevocationKey (sv_digest S) (ad_UserID d) (ad_ClientID d)) = Some (VNum n) \<Longrightarrow>
      n < ad_AuthorizationIssuedAt d"
    and key: "snd (GetPrivateKey (sv_gcm S) (sv_rsa S) (sv_env S) (sv_keys S) w) = Inr (priv, kid)"
    and sign: "\<And>m. jwt_sign (sv_jwt S) priv kid m \<noteq> None"
  shows "\<exists>w' resp pair. handleAuthorizationCodeGrant S H w r = (w', resp) \<and> rs_Status resp = 200 \<and>
    rs_Body resp = Token_body pair \<and> tp_Scope pair = joinScopes (ad_Scopes d)"
proof -
  let ?code = "form_value r ''code''" and ?ac = "effectiveClaimNames (ad_Scopes d) (ad_AllowedClaims d) (ad_ClaimNamesSet d)"
  obtain w1 cl1 where au: "authenticateTokenClient S w r (ad_ClientID d) True = (w1, Inr (cl1, ad_ClientID d))"
      and core: "client_core cl1 = client_core cl" and w1: "w_redis w1 = w_redis w" "same_accounts (w_sql w) (w_sql w1)"
    using client_authenticates [OF cl(1,3,5,6)] by blast
  have ver: "validPKCEVerifier (form_value r ''code_verifier'')" using bound by (auto simp: code_bound_def validatePKCE_def split: if_split_asm)
  obtain db where con: "ConsumeAuthorizationCodeIfMatch (sv_redis S) (sv_digest S) (w_redis w) ?code d
      (AuthorizationCodeRetention (sv_tokens S)) = (db, Inr d)"
    using code_consumed [OF live d(1) ttl(1)] by blast
  define w2 where "w2 = (tick w1)\<lparr>w_redis := db\<rparr>"
  have usr1: "map_of (t_users (w_sql w1)) i = Some x" using usr(2) w1(2) by (simp add: same_accounts_def)
  have b1: "code_bound S cl1 (ad_ClientID d) d (form_value r ''redirect_uri'') (form_value r ''code_verifier'')"
    using bound by (simp only: code_bound_core [OF core])
  have step: "handleAuthorizationCodeGrant S H w r = redeem_code S H (tick w1) ?code d cl1 x ?ac"
    using fin ver code_found [OF live] au b1 current_claims_core [OF core] scopes
      client_core_agree(3) [OF core] usr(1,3,4) usr1
    by (simp add: handleAuthorizationCodeGrant_def exchange_code_def on_redis_def Let_def user_GetByID_def calm_query)
  have "redeem_code S H (tick w1) ?code d cl1 x ?ac = issue_grant S H w2 cl1 x (ad_UserID d) (ad_Scopes d) (Some ?ac) (ad_AuthVersion d)
      (ad_AuthorizationIssuedAt d) (ad_ClientAuthorizationRevision d)
      \<lparr>ia_Context = ad_AuthenticationContext d, ia_Methods = ad_AuthenticationMethods d, ia_AuthTime = ad_AuthenticationTime d\<rparr>
      (ad_Nonce d) (writeTokenError 400 ''invalid_grant'' ''authorization is no longer active'')"
    using con w1(1) by (simp add: redeem_code_def on_redis_def w2_def)
  moreover have "\<exists>w' resp pair. issue_grant S H w2 cl1 x (ad_UserID d) (ad_Scopes d) (Some ?ac) (ad_AuthVersion d)
      (ad_AuthorizationIssuedAt d) (ad_ClientAuthorizationRevision d)
      \<lparr>ia_Context = ad_AuthenticationContext d, ia_Methods = ad_AuthenticationMethods d, ia_AuthTime = ad_AuthenticationTime d\<rparr>
      (ad_Nonce d) (writeTokenError 400 ''invalid_grant'' ''authorization is no longer active'') = (w', resp) \<and> rs_Status resp = 200 \<and>
    rs_Body resp = Token_body pair \<and> tp_Scope pair = joinScopes (ad_Scopes d)"
  proof (rule grant_issued)
    have db: "db = exec (sv_redis S) (sv_digest S)
        (Code_op (Consume_code_if_match ?code d (AuthorizationCodeRetention (sv_tokens S)))) (w_redis w)" using con by simp
    show "typed (sv_redis S) (w_redis w2)" unfolding w2_def db using redis_server.exec_typed [OF server t] by (simp del: exec.simps)
    let ?k = "authorizationRevocationKey (sv_digest S) (ad_UserID d) (ad_ClientID d)"
    have "key_class ?k \<noteq> key_class (secretKey (sv_digest S) codePrefix ?code)"
      "key_class ?k \<noteq> key_class (secretKey (sv_digest S) codeUsedPrefix ?code)" by simp_all
    then have "?k \<noteq> secretKey (sv_digest S) codePrefix ?code" "?k \<noteq> secretKey (sv_digest S) codeUsedPrefix ?code" by metis+
    then have other: "?k \<notin> written (sv_digest S) (Code_op (Consume_code_if_match ?code d (AuthorizationCodeRetention (sv_tokens S))))"
      by simp
    have "GET (sv_redis S) db ?k = GET (sv_redis S) (w_redis w) ?k \<or> GET (sv_redis S) db ?k = None"
      unfolding db by (rule redis_server.exec_GET [OF server t other])
    then have "GET (sv_redis S) db ?k = Some (VNum n) \<Longrightarrow> n < ad_AuthorizationIssuedAt d" for n using rev by auto
    then show "unrevoked S w2 (grant_subject (oc_ID cl1) (ad_UserID d) (ad_AuthVersion d) (ad_AuthorizationIssuedAt d) (oc_AuthorizationRevision cl))"
      using client_core_agree(1) [OF core] cl(2) by (simp add: unrevoked_def grant_subject_def issued_data_def w2_def)
    show "map_option oc_AuthorizationRevision (map_of (t_clients (w_sql w2)) (oc_ID cl1)) = Some (oc_AuthorizationRevision cl)"
      using same_accounts_revision [OF w1(2)] client_core_agree(1) [OF core] cl(1,2) by (simp add: w2_def)
    show "snd (GetPrivateKey (sv_gcm S) (sv_rsa S) (sv_env S) (sv_keys S) w2) = Inr (priv, kid)"
      using key_of_tables [of w2 w] key w1(2) by (simp add: w2_def same_accounts_def)
  qed (use d cl client_core_agree(1) [OF core] bound usr usr1 sign ttl in \<open>auto simp: w2_def code_bound_def\<close>)
  ultimately show ?thesis using step by simp
qed

end

end
