(* ===== verification/Redirects.thy ===== *)
theory Redirects
  imports Http_Requests
begin

text \<open>
  Where the endpoints send a browser. \<open>located Q p\<close>: the \<open>Location\<close> of the response of \<open>p\<close>, if
  any, satisfies \<open>Q\<close>. The rules follow the shape of the handlers.
\<close>

section \<open>Targets\<close>

text \<open>The pages of the server itself.\<close>

definition local_page :: "string \<Rightarrow> bool" where
  "local_page target \<longleftrightarrow>
     HasPrefix target ''/login?'' \<or> target = ''/change-password'' \<or> HasPrefix target ''/consent?challenge=''"

text \<open>A registered URI of a client, with parameters of the answer set in its query.\<close>

definition registered_target :: "oauth_handler \<Rightarrow> sql_tables \<Rightarrow> string list \<Rightarrow> string \<Rightarrow> bool" where
  "registered_target H t params target \<longleftrightarrow>
     (\<exists>i cl uri u q. map_of (t_clients t) i = Some cl \<and>
        (uri \<in> set (oc_RedirectURIs cl) \<or> uri \<in> set (oc_PostLogoutRedirectURIs cl)) \<and>
        oh_parse_url H uri = Some u \<and> target = url_String (u\<lparr>u_RawQuery := q\<rparr>) \<and>
        (\<forall>k. k \<notin> set params \<longrightarrow> Get (ParseQuery q) k = Get (url_Query u) k))"

definition goes :: "oauth_handler \<Rightarrow> sql_tables \<Rightarrow> string option \<Rightarrow> bool" where
  "goes H t l = (case l of None \<Rightarrow> True
     | Some target \<Rightarrow> local_page target \<or> registered_target H t [''error'', ''state''] target)"

definition located :: "(string option \<Rightarrow> bool) \<Rightarrow> 'w \<times> response \<Rightarrow> bool" where
  "located Q p \<longleftrightarrow> Q (location (snd p))"

lemma HasPrefix_append [simp]: "HasPrefix (p @ s) p"
  by (induction p) auto

lemma addQuery_registered:
  assumes "addQuery (oh_parse_url H) uri vs = Some target" and "map_of (t_clients t) i = Some cl"
    and "uri \<in> set (oc_RedirectURIs cl) \<or> uri \<in> set (oc_PostLogoutRedirectURIs cl)" and "fst ` set vs \<subseteq> {''error'', ''state''}"
  shows "goes H t (Some target)"
proof -
  obtain u q where "oh_parse_url H uri = Some u" "target = url_String (u\<lparr>u_RawQuery := q\<rparr>)"
      "\<And>k. Get (ParseQuery q) k = Get (set_values vs (url_Query u)) k"
    using addQuery_Some [OF assms(1)] by blast
  moreover have "Get (set_values vs (url_Query u)) k = Get (url_Query u) k" if "k \<notin> set [''error'', ''state'']" for k
    using that assms(4) by (intro Get_set_values_other) auto
  ultimately have "registered_target H t [''error'', ''state''] target"
    unfolding registered_target_def using assms(2,3) by metis
  then show ?thesis by (simp add: goes_def)
qed

section \<open>Rules\<close>

lemma located_pair: "Q (location x) \<Longrightarrow> located Q (w, x)"
  by (simp add: located_def)

lemma located_attempt:
  "(\<And>w e. located Q (f w e)) \<Longrightarrow> (\<And>w x. located Q (g w x)) \<Longrightarrow> located Q (attempt m f g)"
  by (cases m; cases "snd m") (auto simp: located_def)

lemma located_branches:
  "(b \<Longrightarrow> located Q x) \<Longrightarrow> (\<not> b \<Longrightarrow> located Q y) \<Longrightarrow> located Q (if b then x else y)"
  "located Q x \<Longrightarrow> (\<And>a. located Q (f a)) \<Longrightarrow> located Q (case v of None \<Rightarrow> x | Some a \<Rightarrow> f a)"
  "(\<And>a. located Q (g a)) \<Longrightarrow> (\<And>a. located Q (h a)) \<Longrightarrow> located Q (case s of Inl a \<Rightarrow> g a | Inr a \<Rightarrow> h a)"
  "(\<And>a b. located Q (k a b)) \<Longrightarrow> located Q (case p of (a, b) \<Rightarrow> k a b)"
  by (auto split: option.split sum.split prod.split)

lemma located_shape:
  "located Q p \<Longrightarrow> located Q (on_response setOAuthNoStoreHeaders p)"
  "located Q p \<Longrightarrow> located Q (on_response (\<lambda>s. setOAuthNoStoreHeaders (with_header ''Referrer-Policy'' v s)) p)"
  "located Q p \<Longrightarrow> located Q (with_cookies cs p)"
  by (simp_all add: located_def with_header_def location_def setOAuthNoStoreHeaders_def)

lemmas located_intros = located_pair located_attempt located_branches located_shape

section \<open>Endpoints that answer in place\<close>

lemma location_header [simp]: "h \<noteq> ''Location'' \<Longrightarrow> location (with_header h v r) = location r"
  by (simp add: location_def with_header_def)

lemma location_constants [simp]:
  "location reuse_uncontained = None" "location invalid_bearer = None" "location (consumption_failed e) = None"
  "location (poll_failed de n) = None" "location invalid_challenge = None" "location client_changed = None"
  "location server_error = None" "location device_unavailable = None" "location session_unavailable = None"
  by (simp_all add: reuse_uncontained_def invalid_bearer_def consumption_failed_def poll_failed_def invalid_challenge_def
      client_changed_def server_error_def device_unavailable_def session_unavailable_def)

lemma issue_grant_located:
  "location e = None \<Longrightarrow> Q None \<Longrightarrow> located Q (issue_grant S H w cl u i sc ac v t n a k e)"
  unfolding issue_grant_def by (intro located_intros) simp_all

lemma reject_located: "Q None \<Longrightarrow> located Q (rejectAuthorizationCodeReuse S w d)"
  unfolding rejectAuthorizationCodeReuse_def by (intro located_intros) simp_all

lemma Token_located: "Q None \<Longrightarrow> located Q (Token S H w r)"
  unfolding Token_def Let_def handleAuthorizationCodeGrant_def exchange_code_def redeem_code_def
    handleClientCredentialsGrant_def handleRefreshTokenGrant_def handleDeviceCodeGrant_def exchange_device_def redeem_device_def
  by (intro located_intros issue_grant_located reject_located) simp_all

lemma token_users_located:
  "Q None \<Longrightarrow> located Q (Revoke_endpoint S w r)" "Q None \<Longrightarrow> located Q (Introspect S w r)"
  "Q None \<Longrightarrow> located Q (UserInfo S H w r)"
  unfolding Revoke_endpoint_def Introspect_def UserInfo_def Let_def by (intro located_intros; simp)+

lemma start_consent_located:
  "(\<And>c. Q (location (f (''/consent?challenge='' @ c)))) \<Longrightarrow> Q (location a) \<Longrightarrow> Q (location b) \<Longrightarrow> located Q (start_consent S w d f a b)"
  unfolding start_consent_def by (intro located_intros) simp_all

lemma consent_located:
  "Q None \<Longrightarrow> located Q (GetConsent_endpoint S H w r)" "Q None \<Longrightarrow> located Q (AcceptConsent S H w r)"
  "Q None \<Longrightarrow> located Q (DenyConsent S H w r)"
  unfolding GetConsent_endpoint_def show_consent_def AcceptConsent_def accept_challenge_def decide_consent_def
    grant_consent_def approve_device_def issue_code_def DenyConsent_def deny_device_def Let_def
  by (intro located_intros; simp split: option.split)+

lemma device_located:
  "Q None \<Longrightarrow> located Q (DeviceAuthorization S H w r)" "Q None \<Longrightarrow> located Q (PrepareDeviceAuthorization S H w r)"
  unfolding DeviceAuthorization_def begin_device_def PrepareDeviceAuthorization_def verify_user_code_def verify_client_def Let_def
  by (intro located_intros start_consent_located; simp)+

section \<open>Endpoints that redirect\<close>

lemma goes_simps [simp]:
  "goes H t None" "goes H t (Some ''/change-password'')" "goes H t (Some (''/login?'' @ s))"
  "goes H t (Some (''/consent?challenge='' @ s))"
  unfolding goes_def local_page_def by (simp_all only: option.case HasPrefix_append simp_thms)

lemma force_login_goes: "located (goes H t) (force_login S H w r)"
proof -
  have "goes H t (Some (''/login?force=1&return_to='' @ s))" for s
    using goes_simps(3) [of H t "''force=1&return_to='' @ s"] by simp
  then show ?thesis unfolding force_login_def by (intro located_intros) simp_all
qed

lemma authorize_session_goes:
  assumes "map_of (t_clients t) i = Some cl" and "uri \<in> set (oc_RedirectURIs cl)"
  shows "located (goes H t) (authorize_session S H w r cl c uri p)"
    and "goes H t (location (redirectAuthorizeError H uri st code))"
proof -
  show err: "goes H t (location (redirectAuthorizeError H uri st code))" for st code
    using addQuery_registered [OF _ assms(1)] assms(2) by (auto simp: redirectAuthorizeError_def split: option.split)
  have login: "goes H t (Some (''/login?return_to='' @ s))" for s
    using goes_simps(3) [of H t "''return_to='' @ s"] by simp
  have "goes H t (location (http_Redirect (''/consent?challenge='' @ s)))" for s
    using goes_simps(4) [of H t s] by simp
  then show "located (goes H t) (authorize_session S H w r cl c uri p)"
    unfolding authorize_session_def authorize_user_def
    by (intro located_intros force_login_goes start_consent_located) (use err login in simp_all)
qed

lemma Authorize_goes: "located (goes H (w_sql w)) (Authorize S H w r)"
proof -
  obtain w1 x where g: "client_GetByID (sv_env S) w (query_value r ''client_id'') = (w1, x)" by fastforce
  show ?thesis
  proof (cases x)
    case (Inr cl)
    note c = client_GetByID_Inr [OF g [unfolded Inr]]
    show ?thesis
      unfolding Authorize_def Let_def g Inr attempt_simps
      by (intro located_intros authorize_session_goes) (use c in \<open>auto simp: HasRedirectURI_def intro: authorize_session_goes\<close>)
  qed (auto simp: Authorize_def Let_def g intro!: located_intros)
qed

lemma end_session_goes:
  assumes "map_of (t_clients t) i = Some cl"
  shows "case end_session_redirect H cl uri st of Inl refused \<Rightarrow> location refused = None
    | Inr target \<Rightarrow> uri = [] \<or> goes H t (Some target)"
  using addQuery_registered [OF _ assms]
  by (auto simp: end_session_redirect_def HasPostLogoutRedirectURI_def split: option.split)

lemma end_browser_session_refused:
  "end_browser_session S w r subject = (w', Inl refused) \<Longrightarrow> location refused = None"
  by (auto simp: end_browser_session_def attempt_def
      split: option.split_asm prod.split_asm sum.split_asm if_split_asm)

lemma EndSession_goes: "located (goes H (w_sql w)) (EndSession S H w r)"
proof -
  let ?uri = "query_value r ''post_logout_redirect_uri''" and ?st = "query_value r ''state''"
  have ended: "located (goes H (w_sql w)) (case end_session_redirect H cl ?uri ?st of
        Inl refused \<Rightarrow> (w2, refused)
      | Inr target \<Rightarrow> attempt (end_browser_session S w2 r subject) (\<lambda>w3 refused. (w3, refused))
          (\<lambda>w3 e. with_cookies [clearCookie] (w3, session_ended ?uri target e)))"
    if "map_of (t_clients (w_sql w)) i = Some cl" for i cl w2 subject
    using end_session_goes [OF that, where H = H and uri = ?uri and st = ?st] end_browser_session_refused [of S w2 r subject]
    by (cases "end_browser_session S w2 r subject"; cases "snd (end_browser_session S w2 r subject)")
       (auto simp: located_def session_ended_def split: sum.split_asm sum.split)
  have client: "located (goes H (w_sql w)) (attempt (client_GetByID (sv_env S) w1 i)
      (\<lambda>w2 _. (w2, writeOAuthError 400 ''invalid_request'' ''id_token_hint refers to an unknown client''))
      (\<lambda>w2 cl. case end_session_redirect H cl ?uri ?st of
        Inl refused \<Rightarrow> (w2, refused)
      | Inr target \<Rightarrow> attempt (end_browser_session S w2 r subject) (\<lambda>w3 refused. (w3, refused))
          (\<lambda>w3 e. with_cookies [clearCookie] (w3, session_ended ?uri target e))))"
    if "w_sql w1 = w_sql w" for w1 i subject
  proof -
    obtain w2 x where g: "client_GetByID (sv_env S) w1 i = (w2, x)" by fastforce
    show ?thesis
    proof (cases x)
      case (Inr cl)
      from client_GetByID_Inr [OF g [unfolded this]] that show ?thesis unfolding g Inr attempt_simps by (intro ended [of i]) simp
    qed (simp add: g located_def)
  qed
  obtain w1 x where v: "ValidateIDToken S w (query_value r ''id_token_hint'') = (w1, x)" by fastforce
  have w1: "w_sql w1 = w_sql w" using ValidateIDToken_world(2) [of S w "query_value r ''id_token_hint''"] v by simp
  show ?thesis
    unfolding EndSession_def Let_def v
    by (cases x; simp only: attempt_simps; intro located_intros client w1) auto
qed

text \<open>Every request.\<close>

lemma handle_goes: "located (goes H (w_sql w)) (handle S H w q)"
  by (cases q)
     (simp_all only: handle.simps Token_located token_users_located consent_located device_located Authorize_goes EndSession_goes
        goes_simps)

end
