(* ===== verification/Sample_Endpoints.thy ===== *)
theory Sample_Endpoints
  imports Consent_Acceptance Code_Redemption Redirects Sample_Service
begin

text \<open>
  An exchange to run against the endpoints: a code, a consent and a session of the sample user, and
  the requests that use them.
\<close>

text \<open>A digest of 32 bytes that tells the letter \<open>a\<close> from others, and its value on the verifier.\<close>

definition sample_sha :: "string \<Rightarrow> string" where
  "sample_sha s = map (\<lambda>c. if c = CHR ''a'' then CHR 0x00 else CHR 0x01) (take 32 s)"

definition sample_verifier :: string where "sample_verifier = replicate 43 (CHR ''a'')"
definition sample_challenge :: string where "sample_challenge = replicate 43 (CHR ''A'')"

definition endpoint_services :: "mem_db services" where
  "endpoint_services = sample_services\<lparr>sv_sha256 := sample_sha, sv_tokens := SetAuthorizationCodeFallback sample_service Minute\<rparr>"

definition sample_policy :: oauth_policy where
  "sample_policy = \<lparr>op_SelfServiceClientCreationEnabled = True, op_PublicClientsEnabled = True, op_AllowedGrantTypes = [],
     op_AllowedScopes = [''openid''], op_ScopeDefinitions = [(''openid'', \<lparr>sf_DisplayName = ''d'', sf_Description = [],
       sf_Claims = [''sub''], sf_AssignmentPolicy = OAuthAssignmentSelfService, sf_RiskLevel = []\<rparr>)],
     op_ClaimAssignmentPolicies = [(''sub'', OAuthAssignmentSelfService)], op_MaxRedirectURIs = 5, op_MaxPostLogoutRedirectURIs = 5\<rparr>"

text \<open>URLs without a query or a fragment are parsed as a path.\<close>

definition sample_parse :: "string \<Rightarrow> url option" where
  "sample_parse raw = (if CHR ''?'' \<in> set raw \<or> CHR ''#'' \<in> set raw then None
     else Some \<lparr>u_Origin = [], u_Path = raw, u_ForceQuery = False, u_RawQuery = [], u_Fragment = []\<rparr>)"

definition sample_handler :: oauth_handler where
  "sample_handler = \<lparr>oh_policy = sample_policy, oh_issuer = ''https://id'', oh_devices = True, oh_middleware = None,
     oh_parse_url = sample_parse,
     oh_draws = \<lambda>_ _. \<lparr>at_DeviceCode = None, at_UserCode = None, at_Version = None, at_Now = 0\<rparr>\<rparr>"

definition bare_request :: http_request where
  "bare_request = \<lparr>rq_URL = \<lparr>u_Origin = [], u_Path = ''/'', u_ForceQuery = False, u_RawQuery = [], u_Fragment = []\<rparr>,
     rq_Form = None, rq_BasicAuth = None, rq_Authorization = [], rq_CSRFHeader = [], rq_Cookies = [], rq_UserAgent = [],
     rq_IP = [], rq_RemoteHost = [], rq_JSON = \<lambda>_. None\<rparr>"

definition code_request :: http_request where
  "code_request = bare_request\<lparr>rq_Form := Some [(''grant_type'', [GrantAuthorizationCode]), (''code'', [''k'']),
     (''redirect_uri'', [''https://app'']), (''code_verifier'', [sample_verifier]), (''client_id'', [''c''])]\<rparr>"

definition granted_code :: authorization_data where
  "granted_code = \<lparr>ad_RecordVersion = [], ad_ClientID = ''c'', ad_UserID = ''u'', ad_RedirectURI = ''https://app'',
     ad_Scopes = [''openid''], ad_AllowedClaims = Some [''sub''], ad_ClaimNamesSet = True,
     ad_CodeChallenge = sample_challenge, ad_ChallengeMethod = ''S256'', ad_Nonce = [],
     ad_AuthVersion = 1, ad_AuthenticationContext = ACRLevel1, ad_AuthenticationMethods = [''pwd''],
     ad_AuthenticationTime = 5, ad_AuthorizationIssuedAt = 7, ad_ClientAuthorizationRevision = 1\<rparr>"

definition code_world :: "mem_db world" where
  "code_world = service_world\<lparr>w_redis := run mem_redis plain [Code_op (Save_code ''k'' granted_code Minute (Some ''v''))] mem_empty\<rparr>"

definition used_world :: "mem_db world" where
  "used_world = service_world\<lparr>w_redis := run mem_redis plain
     [Code_op (Save_code ''k'' granted_code Minute (Some ''v'')),
      Code_op (Consume_code_if_match ''k'' (granted_code\<lparr>ad_RecordVersion := ''v''\<rparr>) Minute)] mem_empty\<rparr>"

definition user_session :: session_data where
  "user_session = \<lparr>sd_PublicID = ''p'', sd_UserID = ''u'', sd_Username = ''ann'', sd_AuthVersion = 1, sd_SessionVersion = 1,
     sd_CSRFToken = ''t'', sd_UserKey = [], sd_IPAddress = [], sd_UserAgent = [], sd_CreatedAt = 1, sd_CreatedAtUnixMilli = 1,
     sd_LastSeenAt = 1, sd_AuthenticatedAt = 1, sd_AuthenticationContext = ACRLevel1, sd_AuthenticationMethods = [''pwd''],
     sd_PolicyRevision = 0\<rparr>"

definition asked_consent :: consent_data where
  "asked_consent = \<lparr>cd_Flow = [], cd_ClientID = ''c'', cd_UserID = ''u'', cd_RedirectURI = ''https://app'',
     cd_Scopes = [''openid''], cd_OptionalScopes = [], cd_ScopeClaims = Some [(''openid'', [''sub''])], cd_ScopeDetails = [],
     cd_State = ''s'', cd_CodeChallenge = sample_challenge, cd_ChallengeMethod = ''S256'', cd_Nonce = [],
     cd_AuthVersion = 1, cd_ClientIdentityRevision = 1, cd_ClientAuthorizationRevision = 1, cd_RequiredAuthContext = [],
     cd_MaxAgeSeconds = None, cd_MaxAgeSatisfied = True, cd_DeviceID = [], cd_DeviceRecordVersion = []\<rparr>"

definition consent_world :: "mem_db world" where
  "consent_world = service_world\<lparr>w_redis := run mem_redis plain
     [Session_op (Save_session ''id'' user_session Minute 0 None None 1), Code_op (Save_consent ''ch'' asked_consent Minute)] mem_empty\<rparr>"

definition accept_request :: http_request where
  "accept_request = bare_request\<lparr>rq_CSRFHeader := ''t'', rq_Cookies := [(oauthSessionCookie, ''id'')],
     rq_JSON := \<lambda>_. Some ([(''challenge'', JText ''ch'')], False)\<rparr>"

text \<open>A request for an authorization that lacks the PKCE parameters.\<close>

definition plain_request :: http_request where
  "plain_request = bare_request\<lparr>rq_URL := (rq_URL bare_request)\<lparr>u_Path := ''/authorize'',
     u_RawQuery := ''client_id=c&redirect_uri=https://app&response_type=code&state=s''\<rparr>\<rparr>"

definition tokens_of :: "'w \<times> response \<Rightarrow> token_pair option" where
  "tokens_of p = (case rs_Body (snd p) of Token_body t \<Rightarrow> Some t | _ \<Rightarrow> None)"

definition text_of :: "'w \<times> response \<Rightarrow> (string \<times> string) option" where
  "text_of p = (case rs_Body (snd p) of Text_body n t \<Rightarrow> Some (n, t) | _ \<Rightarrow> None)"

definition error_of :: "'w \<times> response \<Rightarrow> (string \<times> string) option" where
  "error_of p = (case rs_Body (snd p) of OAuth_error_body c d \<Rightarrow> Some (c, d) | _ \<Rightarrow> None)"

lemma endpoint_services_simps [simp]:
  "sv_redis endpoint_services = mem_redis" "sv_digest endpoint_services = plain" "sv_sha256 endpoint_services = sample_sha"
  by (simp_all add: endpoint_services_def)

lemma sample_worlds_typed:
  "typed mem_redis (w_redis code_world)" "typed mem_redis (w_redis used_world)" "typed mem_redis (w_redis consent_world)"
  using mem.run_typed [OF typed_mem_empty] by (simp_all add: code_world_def used_world_def consent_world_def del: run_simps)

text \<open>The same services behind a link that delivers at once.\<close>

definition steady_services :: "mem_db services" where
  "steady_services = endpoint_services\<lparr>sv_redis := immediate mem_redis\<rparr>"

lemma steady_services_simps [simp]:
  "sv_redis steady_services = immediate mem_redis" "sv_digest steady_services = plain" "sv_sha256 steady_services = sample_sha"
  "sv_jwt steady_services = sample_jwt" "sv_env steady_services = still"
  by (simp_all add: steady_services_def endpoint_services_def)

interpretation steady: calm_system steady_services
  by (rule calm_system.intro)
     (simp_all add: immediate_server mem_server steady_services_def endpoint_services_def SetAuthorizationCodeFallback_def sample_service_def)

end
