(* ===== verification/Http_Properties.thy ===== *)
theory Http_Properties
  imports Sample_Endpoints
begin

text \<open>
  Properties of the endpoints: what a successful answer says about the request and the stored state
  it was given for, where a browser is sent, what a replayed code does, and what every sequence of
  requests keeps.
\<close>

section \<open>Redemption of codes\<close>

text \<open>
  C35. Tokens for a code are given only to the client the code was made for, which authenticated,
  with the redirect URI the code was made for and still registered, with a verifier whose S256
  challenge is the stored one, for scopes the client still has and for a subject that is active at
  the version of the grant; they are for the scopes of the code, and the code is gone.
\<close>

theorem redeemed_code_is_bound:
  assumes "redis_server (sv_redis S)" and "typed (sv_redis S) (w_redis w)" and "issues_within rt (sv_tokens S)"
    and "form_value r ''grant_type'' = GrantAuthorizationCode"
    and "Token S H w r = (w', resp)" and "rs_Body resp = Token_body pair"
  shows "\<exists>d cl uid u.
    GET (sv_redis S) (w_redis w) (secretKey (sv_digest S) codePrefix (form_value r ''code'')) = Some (VCode d) \<and>
    map_of (t_clients (w_sql w)) (ad_ClientID d) = Some cl \<and> speaks_for (sv_sha256 S) r True cl \<and>
    form_value r ''redirect_uri'' = ad_RedirectURI d \<and> ad_RedirectURI d \<in> set (oc_RedirectURIs cl) \<and>
    ad_ChallengeMethod d = ''S256'' \<and> s256_challenge (sv_sha256 S) (form_value r ''code_verifier'') = ad_CodeChallenge d \<and>
    set (Fields (joinScopes (ad_Scopes d))) \<subseteq> set (oc_Scopes cl) \<and>
    e_parse_uuid (sv_env S) (ad_UserID d) = Some uid \<and> map_of (t_users (w_sql w)) uid = Some u \<and>
    us_Status u = UserStatusActive \<and> us_AuthVersion u = ad_AuthVersion d \<and>
    tp_Scope pair = joinScopes (ad_Scopes d) \<and>
    GET (sv_redis S) (w_redis w') (secretKey (sv_digest S) codePrefix (form_value r ''code'')) = None"
proof -
  let ?k = "secretKey (sv_digest S) codePrefix (form_value r ''code'')"
  obtain resp1 where g: "handleAuthorizationCodeGrant S H w r = (w', resp1)" and b: "rs_Body resp1 = Token_body pair"
    using assms(4-6)
    by (cases "handleAuthorizationCodeGrant S H w r") (auto simp: Token_def on_response_def split: if_split_asm option.split_asm)
  show ?thesis
  proof (rule code_grant_tokens [OF assms(1) g b, where rt = rt])
    fix d cl0 cl uid u d' p and w1 w2 w3
    assume live: "GET (sv_redis S) (w_redis w) ?k = Some (VCode d)"
      and c: "map_of (t_clients (w_sql w)) (ad_ClientID d) = Some cl0" "client_core cl = client_core cl0"
        "speaks_for (sv_sha256 S) r True cl0"
      and bound: "code_bound S cl (ad_ClientID d) d (form_value r ''redirect_uri'') (form_value r ''code_verifier'')"
      and sc: "set (Fields (joinScopes (ad_Scopes d))) \<subseteq> set (oc_Scopes cl0)"
      and u: "e_parse_uuid (sv_env S) (ad_UserID d) = Some uid" "map_of (t_users (w_sql w)) uid = Some u"
        "us_Status u = UserStatusActive" "us_AuthVersion u = ad_AuthVersion d"
      and h: "handles S (lifetimes rt) w w1"
      and con: "ConsumeAuthorizationCodeIfMatch (sv_redis S) (sv_digest S) (w_redis w1) (form_value r ''code'') d
           (AuthorizationCodeRetention (sv_tokens S)) = (w_redis w2, Inr d')"
      and gen: "GenerateAuthorizationCodeTokenPair S w2 (oc_ID cl0) (ad_UserID d) (ad_Scopes d)
         (Some (effectiveClaimNames (ad_Scopes d) (ad_AllowedClaims d) (ad_ClaimNamesSet d))) (ad_AuthVersion d)
         (ad_AuthorizationIssuedAt d) (ad_ClientAuthorizationRevision d)
         \<lparr>ia_Context = ad_AuthenticationContext d, ia_Methods = ad_AuthenticationMethods d, ia_AuthTime = ad_AuthenticationTime d\<rparr>
         (containsScope (ad_Scopes d) ''offline_access'' \<and> HasGrant cl0 GrantRefreshToken) = (w3, Inr p)"
      and r3: "w_redis w' = w_redis w3" and tp: "tp_Scope pair = joinScopes (ad_Scopes d)"
    have "GET (sv_redis S) (w_redis w') ?k = None"
      unfolding r3 by (rule redeemed_code_gone [OF assms(1-3) h con gen])
    then show ?thesis
      using live c(1,3) bound sc u tp client_core_agree(4) [OF c(2)]
      by (auto simp: code_bound_def validatePKCE_def HasRedirectURI_def split: if_split_asm)
  qed
qed

definition redeemed :: "mem_db world \<times> response" where
  "redeemed = Token endpoint_services sample_handler code_world code_request"

theorem redeemed_code_is_bound_witness:
  "tokens_of redeemed \<noteq> None \<and> GET mem_redis (w_redis (fst redeemed)) (secretKey plain codePrefix ''k'') = None"
proof -
  have run: "tokens_of redeemed \<noteq> None" by code_simp
  then obtain pair where b: "rs_Body (snd redeemed) = Token_body pair"
    by (auto simp: tokens_of_def split: body.split_asm)
  have f: "form_value code_request ''grant_type'' = GrantAuthorizationCode" "form_value code_request ''code'' = ''k''"
    by code_simp+
  have S: "redis_server (sv_redis endpoint_services)" "typed (sv_redis endpoint_services) (w_redis code_world)"
    by (simp_all add: mem_server sample_worlds_typed)
  have I: "issues_within Hour (sv_tokens endpoint_services)" by code_simp
  have T: "Token endpoint_services sample_handler code_world code_request = (fst redeemed, snd redeemed)"
    by (simp add: redeemed_def)
  show ?thesis
    using redeemed_code_is_bound [OF S I f(1) T b] run by (auto simp: f(2))
qed

section \<open>Acceptance of consents\<close>

text \<open>
  C36. A consent is accepted only in a session, with the session's CSRF token, for a live challenge
  of that session's user at the same version of the credentials, when the authentication meets what
  the client asked for and the client has not changed; what is granted is the required scopes and
  the selected optional ones. For the code flow a code for exactly those scopes and the claims
  shown for them is stored, bound to the PKCE challenge, the redirect URI and the nonce of the
  request, and the browser is told the redirect URI with the code and the state added; for the
  device flow it is sent to the status page.
\<close>

theorem accepted_consent_grants_what_was_asked:
  assumes "redis_server (sv_redis S)" and "typed (sv_redis S) (w_redis w)"
    and "AcceptConsent S H w r = (w', resp)" and "rs_Body resp = Text_body name target"
  shows "\<exists>sess challenge selected data cl sc.
    snd (snd (resolve_session S H w r)) = Some sess \<and> sd_CSRFToken sess \<noteq> [] \<and> rq_CSRFHeader r = sd_CSRFToken sess \<and>
    decodeConsentDecisionRequest r = Some (challenge, selected) \<and>
    GET (sv_redis S) (w_redis w) (secretKey (sv_digest S) consentPrefix challenge) = Some (VConsent data) \<and>
    cd_UserID data = sd_UserID sess \<and> cd_AuthVersion data = sd_AuthVersion sess \<and> consentAuthenticationSatisfies data sess \<and>
    map_of (t_clients (w_sql w)) (cd_ClientID data) = Some cl \<and>
    client_unchanged cl (cd_ClientIdentityRevision data) (cd_ClientAuthorizationRevision data) \<and>
    resolveGrantedScopes (cd_Scopes data) (cd_OptionalScopes data)
      (case selected of None \<Rightarrow> cd_OptionalScopes data | Some scopes \<Rightarrow> scopes) = Some sc \<and>
    (if cd_Flow data = GrantDeviceCode then target = ''/device?status=approved''
     else \<exists>code version issuedAt.
       GET (sv_redis S) (w_redis w') (secretKey (sv_digest S) codePrefix code) =
         Some (VCode (json_code ((code_data data cl sess sc (claimsForGrantedScopes sc (cd_ScopeClaims data)) issuedAt)
           \<lparr>ad_RecordVersion := version\<rparr>))) \<and>
       addQuery (oh_parse_url H) (cd_RedirectURI data) ([(''code'', code), (''state'', cd_State data)] @
         (if sc \<noteq> cd_Scopes data then [(''scope'', joinScopes sc)] else [])) = Some target)"
proof -
  obtain w1 cs current where au: "authorizeMutation S H w r = (w1, cs, current)" by (cases "authorizeMutation S H w r")
  obtain sess challenge selected where cur: "current = Some sess"
      and de: "decodeConsentDecisionRequest r = Some (challenge, selected)"
    using assms(3,4) au
    by (cases current; cases "decodeConsentDecisionRequest r")
       (auto simp: AcceptConsent_def on_response_def with_cookies_def split_beta)
  obtain w0 resp1 where ac0: "accept_challenge S H w1 sess challenge selected = (w0, resp1)" by fastforce
  have ac: "accept_challenge S H w1 sess challenge selected = (w', resp1)" and b: "rs_Body resp1 = Text_body name target"
    using assms(3,4) au cur de ac0 by (auto simp: AcceptConsent_def on_response_def with_cookies_def)
  note sess = authorizeMutation_Some [OF au [unfolded cur]]
  obtain data pending w2 where data: "GET (sv_redis S) (w_redis w1) (secretKey (sv_digest S) consentPrefix challenge) = Some (VConsent data)"
      "cd_UserID data = sd_UserID sess" "cd_AuthVersion data = sd_AuthVersion sess" "consentAuthenticationSatisfies data sess"
      and w2: "w_sql w2 = w_sql w1" and de2: "decide_consent S H w2 data pending sess selected = (w', resp1)"
      and flow: "cd_Flow data \<noteq> GrantDeviceCode \<longleftrightarrow> pending = None"
    by (rule accept_challenge_answer [OF assms(1) ac b])
  note before = resolve_session_consent [OF assms(1,2) sess(1) data(1)]
  obtain cl1 sc where cl1: "map_of (t_clients (w_sql w2)) (cd_ClientID data) = Some cl1"
      "client_unchanged cl1 (cd_ClientIdentityRevision data) (cd_ClientAuthorizationRevision data)"
      and sc: "resolveGrantedScopes (cd_Scopes data) (cd_OptionalScopes data)
        (case selected of None \<Rightarrow> cd_OptionalScopes data | Some scopes \<Rightarrow> scopes) = Some sc"
      and gr: "grant_consent S H (tick w2) data pending sess cl1 sc = (w', resp1)"
    by (rule decide_consent_answer [OF de2 b])
  obtain cl where cl: "map_of (t_clients (w_sql w)) (cd_ClientID data) = Some cl" "client_core cl1 = client_core cl"
    by (rule same_accounts_client [OF before(2)]) (use cl1(1) w2 in simp)
  note flow_answer = granted_answer [OF assms(1) gr b flow, unfolded code_data_core [OF cl(2)]]
  show ?thesis
    using sess(2-4) sess(1) de before(1) data(2-4) cl(1) cl1(2) sc flow_answer client_unchanged_core [OF cl(2)]
    by (intro exI [of _ sess] exI [of _ challenge] exI [of _ selected] exI [of _ data] exI [of _ cl] exI [of _ sc]) auto
qed

theorem accepted_consent_grants_what_was_asked_witness:
  "\<exists>data. GET mem_redis (w_redis consent_world) (secretKey plain consentPrefix ''ch'') = Some (VConsent data) \<and>
     cd_UserID data = ''u''"
proof -
  let ?a = "AcceptConsent endpoint_services sample_handler consent_world accept_request"
  have "text_of ?a \<noteq> None" by code_simp
  then obtain name target where b: "rs_Body (snd ?a) = Text_body name target"
    by (auto simp: text_of_def split: body.split_asm)
  have d: "decodeConsentDecisionRequest accept_request = Some (''ch'', None)" by code_simp
  have u: "map_option sd_UserID (snd (snd (resolve_session endpoint_services sample_handler consent_world accept_request))) = Some ''u''"
    by code_simp
  have S: "redis_server (sv_redis endpoint_services)" "typed (sv_redis endpoint_services) (w_redis consent_world)"
    by (simp_all add: mem_server sample_worlds_typed)
  show ?thesis
    using accepted_consent_grants_what_was_asked [OF S prod.collapse [symmetric] b] u unfolding d by auto
qed

section \<open>Replayed codes\<close>



section \<open>Redirects\<close>

text \<open>
  C38. A browser is redirected only to the login, password and consent pages of the server, or to
  a redirect URI or post-logout URI that a client has registered, of which nothing but the query
  is changed, and in the query nothing but the parameters \<open>error\<close> and \<open>state\<close>.
\<close>

theorem redirects_go_to_registered_uris:
  assumes "handle S H w q = (w', resp)" and "location resp = Some target"
  shows "HasPrefix target ''/login?'' \<or> target = ''/change-password'' \<or> HasPrefix target ''/consent?challenge='' \<or>
    (\<exists>i cl uri u rq. map_of (t_clients (w_sql w)) i = Some cl \<and>
       (uri \<in> set (oc_RedirectURIs cl) \<or> uri \<in> set (oc_PostLogoutRedirectURIs cl)) \<and>
       oh_parse_url H uri = Some u \<and> target = url_String (u\<lparr>u_RawQuery := rq\<rparr>) \<and>
       (\<forall>k. k \<notin> {''error'', ''state''} \<longrightarrow> Get (ParseQuery rq) k = Get (url_Query u) k))"
  using handle_goes [of H w S q] assms
  by (simp add: located_def goes_def local_page_def registered_target_def)

theorem redirects_go_to_registered_uris_witness:
  "\<exists>cl. map_of (t_clients (w_sql service_world)) ''c'' = Some cl \<and>
     location (snd (handle endpoint_services sample_handler service_world (Authorize_request plain_request))) =
       Some ''https://app?error=invalid_request&state=s'' \<and>
     (\<exists>uri u rq. uri \<in> set (oc_RedirectURIs cl) \<and> oh_parse_url sample_handler uri = Some u \<and>
        ''https://app?error=invalid_request&state=s'' = url_String (u\<lparr>u_RawQuery := rq\<rparr>))"
proof -
  let ?a = "handle endpoint_services sample_handler service_world (Authorize_request plain_request)"
  have l: "location (snd ?a) = Some ''https://app?error=invalid_request&state=s''" by code_simp
  have only: "t_clients (w_sql service_world) = [(''c'', sample_client)]" "oc_PostLogoutRedirectURIs sample_client = []"
    by (simp_all add: service_world_def sample_tables_def sample_client_def)
  show ?thesis
    using redirects_go_to_registered_uris [OF prod.collapse [symmetric] l] l
    by (fastforce simp: only split: if_split_asm)
qed

section \<open>Sequences of requests\<close>



section \<open>Progress of the code grant\<close>



end
