(* ===== verification/Spec2Isabelle.thy ===== *)
theory Spec2Isabelle
  imports Oauth_Models Store_Properties Token_Properties Session_Properties Device_Properties Policy_Properties Sql_Properties Service_Properties Http_Properties
begin

text \<open>
  \<^bold>\<open>The OAuth core of Nyauth.\<close>

  Nyauth is an OAuth 2 and OpenID Connect server in Go. A browser asks \<open>/authorize\<close> for an
  authorization, the user consents, the client exchanges the code (or a device code) for tokens at
  \<open>/token\<close>, and resource servers and the server itself check tokens until they expire or the user,
  an administrator or a replayed code revokes the grant. Short-lived state (codes, consents, tokens,
  refresh families, browser sessions, device authorizations) is kept in Redis and changed by Lua
  scripts; clients, users, grants and signing keys are kept in PostgreSQL. This development models
  that core from the stores up to the HTTP handlers and proves what makes it correct.

  \<^bold>\<open>The environment.\<close> Code outside the repository is a parameter.
  \<^item> Redis is a record of commands (\<open>Redis_Api\<close>). The locale \<open>redis_server\<close> states the documented
    effect of each command on what later commands observe; before every round trip time may pass and
    keys may expire, and every request and every reply may be lost (\<open>call\<close>, \<open>LINK\<close>). \<open>Redis_Mem\<close>
    is an in-memory server and interprets the locale; the witnesses run on it.
  \<^item> PostgreSQL is a record of tables in a \<open>world\<close> (\<open>Sql_World\<close>); a transaction may be refused, or be
    carried out and its reply be lost. The clock, UUIDs, random bytes and those outcomes come from an
    environment \<open>env\<close> indexed by a counter, so that nothing is assumed of them unless a property says so.
  \<^item> SHA-256 and the digest of the keys, AES-GCM, RSA and PEM, the \<open>jwt\<close> package and \<open>url.Parse\<close> are
    functions passed to the definitions; what a property needs of them is a named hypothesis
    (\<open>gcm_laws\<close>, \<open>jwt_laws\<close>, digests of 32 bytes), satisfied by concrete functions in \<open>Sample_World\<close>.
  \<^item> What Go's \<open>strings\<close>, \<open>strconv\<close>, \<open>encoding/base64\<close>, \<open>unicode/utf8\<close> and \<open>net/url\<close> do on the bytes of a
    string is modelled where the sources use it (\<open>Nyauth_Prelude\<close>, \<open>Pkce\<close>, \<open>Envelope\<close>, \<open>Step_Up\<close>, \<open>Url_Query\<close>).

  \<^bold>\<open>Stores on Redis\<close> (\<open>src/internal/session\<close>, \<open>src/internal/deviceauthorization\<close>).
  \<^item> \<open>Stored_Values\<close>, \<open>Keyspace\<close>, \<open>Session_Base\<close>: the JSON records, the key prefixes and what the stores
    share. \<open>typed\<close> says that every key holds a value of the class of its prefix; \<open>writes\<close> and \<open>evolves\<close>
    are the frame of an operation.
  \<^item> \<open>Session_Codes\<close>: authorization codes, CSRF states, consents, reauthentication continuations, pending
    MFA challenges and WebAuthn ceremonies. \<open>Session_Refresh\<close>: access and refresh records, rotation, reuse
    detection, revocation of families. \<open>Session_Clock\<close>: the logical clock of an authorization.
    \<open>Session_Browser\<close>: browser sessions and their limit. \<open>Device_Store\<close>: device authorizations.
  \<^item> \<open>Session_Families\<close> proves the invariant \<open>sound\<close> of refresh families and \<open>Session_Revocation\<close> the absence
    of revoked records (locales \<open>record_ban\<close> and \<open>token_ban\<close>, which \<open>redis_server\<close> instantiates for a family
    and for a key). \<open>Session_Store\<close> collects all operations in one type of steps: \<open>run\<close> is an interleaving
    of requests, and its lemmas hold along any sequence.
  \<^item> Shown (C1 to C19): codes and consents are used once and a replay is recognised; a reused refresh
    token kills its family, a rotation replaces exactly one token, a revoked family takes no tokens,
    and a user's families can be revoked together; revocation separates earlier from later grants; the
    session limit evicts the oldest sessions, security cleanups remove exactly the outdated ones, updates
    never recreate a session; the device store refines a state machine with one decision and one
    consumption, and polling answers as specified; the keyspace stays typed and families stay indexed.
    C7 is a run in which a lowered refresh lifetime makes a user's family list expire early.

  \<^bold>\<open>Policies\<close> (\<open>src/internal/auth\<close>, \<open>src/internal/oauthstepup\<close>, \<open>src/internal/settings/policies.go\<close>).
  \<open>Oauth_Models\<close>, \<open>Oauth_Policy\<close>, \<open>Scopes_Claims\<close>, \<open>Pkce\<close> and \<open>Step_Up\<close> are the pure functions the handlers
  call. Shown (C20 to C24): the PKCE test is the S256 comparison and binds the verifier; scope
  parameters parse and print back; the consent decision grants what was shown; disclosed claims stay
  within the grant, the policy and the client; \<open>acr_values\<close> and \<open>max_age\<close> mean what they say.

  \<^bold>\<open>Stores on PostgreSQL\<close> (\<open>src/internal/authorization\<close>, \<open>src/internal/auth/jwk.go\<close>, \<open>src/internal/crypto\<close>,
  \<open>src/internal/client\<close>). \<open>Authorization_Store\<close> is the record of grants, with the inductive relation
  \<open>grant_step\<close> of what may happen to a row; \<open>Jwk_Manager\<close> the signing keys and their rotation; \<open>Envelope\<close> the
  encryption at rest; \<open>Client_Store\<close> what the endpoints ask of the client and user tables. Shown (C25 to
  C29, and \<open>client_secret_verification\<close>): a revocation yields only to a newer grant, a consent is recorded
  exactly, a signing key is published as long as its tokens may live, generated keys sign, an envelope
  opens only for the purpose it was made for, and client secrets verify.

  \<^bold>\<open>Token service\<close> (\<open>src/internal/auth/token.go\<close>). \<open>Jwt_Claims\<close> and \<open>Token_Service\<close> are the model;
  \<open>Token_Checks\<close> proves what the checks establish, \<open>Token_Issue\<close> that every request is a sequence of store
  operations with the lifetimes the family invariant needs (\<open>serves\<close>), \<open>Token_Accept\<close>, \<open>Token_Refresh\<close> and
  \<open>Id_Tokens\<close> the outcome of issuing and refreshing. Shown (C30 to C34): an accepted access token is signed,
  unexpired, recorded, and its subject and grant are current; a revocation refuses older tokens; an issued
  token is accepted; refreshing keeps the grant and happens once; the claims of an ID token.

  \<^bold>\<open>Endpoints\<close> (\<open>src/internal/auth/handler.go\<close>, \<open>consent.go\<close>, \<open>device_authorization.go\<close>,
  \<open>src/internal/server/session.go\<close>). \<open>Http_Exchange\<close> holds requests and responses, \<open>Browser_Middleware\<close> the browser
  sessions with their deadlines, \<open>Token_Endpoint\<close>, \<open>Authorize_Endpoint\<close> and \<open>Consent_Endpoint\<close> the handlers, each a
  function from the world and a request to the world and a response in which every early return is a
  branch. \<open>Http_Requests\<close> makes them one type of requests. \<open>Http_Frame\<close> states what a request may do
  (\<open>handles\<close>); \<open>Code_Exchange\<close>, \<open>Consent_Acceptance\<close> and \<open>Redirects\<close> invert successful answers;
  \<open>Code_Redemption\<close> shows progress on systems that serve their requests (locale \<open>calm_system\<close>). Shown (C35 to
  C40): tokens for a code need the code's client, redirect URI and verifier and use the code up; an
  accepted consent was asked for, in the user's session, and the stored code is exactly what was granted;
  a replayed code revokes the grant; redirects lead to the server's pages or registered URIs; every
  sequence of requests keeps the invariants; and a live code presented with all it is bound to is redeemed.

  \<^bold>\<open>Bounds.\<close> No definition uses fuel: loops of the sources are recursion on lists or, for \<open>skip_runes\<close>,
  \<open>fields_from\<close> and \<open>utf8_valid\<close>, recursion with a measure. Go's integers are \<open>int\<close>: counters, versions and
  nanosecond durations stay far from the limits of 64 bits. A time is the number of nanoseconds since Go's
  zero time. A Lua script is one atomic step, as Redis runs it.

  \<^bold>\<open>Not modelled.\<close> Audit records, metrics, notifications and log lines, which no modelled decision reads;
  nil pointers other than optional components; the display profile in the consent view; discovery and
  JWKS documents; the filtered listing of grants; Argon2 password hashes; the HTML link in the body of a
  redirect. Left out as a whole are routing and rendering, the management console, registration, external
  identity providers, recovery, MFA verification, mail, media, branding, configuration and migrations: they
  are input and output around the core, statements on tables the core does not read, or calls to
  third-party packages.
\<close>

end
